theory Spec2Isabelle
  imports Main "HOL-Library.Word"
begin

unbundle bit_operations_syntax

section \<open>The DSP mailbox protocol of the NAU83G60 driver\<close>

text \<open>
  A shallow embedding of the command/reply protocol of \<^verbatim>\<open>nau8360-dsp.c\<close>
  (\<^verbatim>\<open>nau8360_dsp_idle\<close>, \<^verbatim>\<open>nau8360_massage_to_dsp\<close>,
  \<^verbatim>\<open>nau8360_dsp_replied\<close>, \<^verbatim>\<open>nau8360_reply_from_dsp\<close>,
  \<^verbatim>\<open>nau8360_send_dsp_command\<close>, \<^verbatim>\<open>nau8360_dsp_kcs_setup\<close>) with the
  constants of \<^verbatim>\<open>nau8360-dsp.h\<close>. The NAU83G10 driver
  (\<^verbatim>\<open>pisound-nau8310.c\<close>) has the same functions with one mailbox address.

  C \<^verbatim>\<open>int\<close> values are modelled by \<^typ>\<open>int\<close>, a value of the type being one in
  \<open>-2^31 .. 2^31 - 1\<close>. Where an \<^verbatim>\<open>int\<close> expression of the code can leave that range
  for some value of its operands, the two's-complement wrap-around is written out with
  \<open>s32\<close> (the kernel is compiled with \<^verbatim>\<open>-fno-strict-overflow\<close>): the rounding
  \<^verbatim>\<open>set_len + 4 - 1\<close> of \<^verbatim>\<open>nau8360_send_dsp_command\<close>, the \<^verbatim>\<open>data_count--\<close> and the
  expected padding of \<^verbatim>\<open>nau8360_reply_from_dsp\<close>, and the \<^verbatim>\<open>addr_offset += data_len\<close>
  of \<^verbatim>\<open>nau8360_dsp_kcs_setup\<close>. The other sums cannot leave the range: the counters
  \<^verbatim>\<open>i\<close>, \<^verbatim>\<open>j\<close>, \<^verbatim>\<open>retries\<close>, \<^verbatim>\<open>data_size\<close> and \<^verbatim>\<open>frag_cnt\<close> count up from 0 to a
  bound that is an \<^verbatim>\<open>int\<close> (or to a fourth of it plus 3), \<^verbatim>\<open>frag_len\<close> is at most
  \<open>2 + 2^29\<close> and at most 1023 in a reply, \<^verbatim>\<open>data_count -= 4\<close> is done when
  \<open>data_count \<ge> 4\<close>, and \<^verbatim>\<open>data_rem -= data_len\<close> has \<open>data_len = 96 < data_rem\<close>
  or \<open>data_len = data_rem\<close>. The conversions to \<^verbatim>\<open>u8\<close>, where the code does truncate, are written
  out with \<open>u8_of\<close>.
  The \<^verbatim>\<open>u8 data[4]\<close> array that the code reads and writes through an
  \<^verbatim>\<open>unsigned int *\<close> is a list of four bytes, and \<open>le32\<close>/\<open>le_bytes\<close> are the
  load and store of a little-endian host.
\<close>

type_synonym u8 = "8 word"
type_synonym u16 = "16 word"
type_synonym u32 = "32 word"

subsection \<open>Constants\<close>

text \<open>Linux error numbers (errno-base.h, errno.h), as the driver returns them negated.\<close>

definition EIO :: int where "EIO = 5"
definition EFAULT :: int where "EFAULT = 14"
definition EINVAL :: int where "EINVAL = 22"
definition ERANGE :: int where "ERANGE = 34"
definition EPROTO :: int where "EPROTO = 71"

text \<open>nau8360-dsp.h and the head of nau8360-dsp.c.\<close>

definition NAU8360_DSP_COMM_IDLE_WORD :: u32 where "NAU8360_DSP_COMM_IDLE_WORD = 0xf4f3f2f1"
definition NAU8360_DSP_COMM_PREAMBLE :: int where "NAU8360_DSP_COMM_PREAMBLE = 0xb2a1"
definition NAU8360_DSP_DATA_BYTE :: int where "NAU8360_DSP_DATA_BYTE = 4"
definition NAU8360_DSP_KCS_TX_MAX :: int where "NAU8360_DSP_KCS_TX_MAX = 96"
definition NAU8360_DSP_RETRY_MAX :: int where "NAU8360_DSP_RETRY_MAX = 3"
definition NAU8360_DSP_KCS_DAT_LEN_MAX :: int where "NAU8360_DSP_KCS_DAT_LEN_MAX = 1024"
definition NAU8360_DSP_KCS_OFFSET_MAX :: int where "NAU8360_DSP_KCS_OFFSET_MAX = 3072"
definition NAU8360_DSP_IDLE_RETRY :: nat where "NAU8360_DSP_IDLE_RETRY = 10"

definition NAU8360_DSP_REPLY_OK :: int where "NAU8360_DSP_REPLY_OK = 0"
definition NAU8360_DSP_REPLY_MSG_INTEGRETY_ERR :: int where "NAU8360_DSP_REPLY_MSG_INTEGRETY_ERR = 1"
definition NAU8360_DSP_REPLY_EXECUTION_ERR :: int where "NAU8360_DSP_REPLY_EXECUTION_ERR = 2"
definition NAU8360_DSP_REPLY_COMMAND_DOESNT_EXISTS_ERR :: int where
  "NAU8360_DSP_REPLY_COMMAND_DOESNT_EXISTS_ERR = 3"
definition NAU8360_DSP_REPLY_UNKNOWN_ERR :: int where "NAU8360_DSP_REPLY_UNKNOWN_ERR = 4"
definition NAU8360_DSP_REPLY_MSG_TOO_LONG :: int where "NAU8360_DSP_REPLY_MSG_TOO_LONG = 5"

definition NAU8360_DSP_CMD_GET_COUNTER :: int where "NAU8360_DSP_CMD_GET_COUNTER = 0x1"
definition NAU8360_DSP_CMD_GET_FRAME_STATUS :: int where "NAU8360_DSP_CMD_GET_FRAME_STATUS = 0x9"
definition NAU8360_DSP_CMD_GET_REVISION :: int where "NAU8360_DSP_CMD_GET_REVISION = 0xa"
definition NAU8360_DSP_CMD_GET_KCS_RSLTS :: int where "NAU8360_DSP_CMD_GET_KCS_RSLTS = 0x4"
definition NAU8360_DSP_CMD_GET_KCS_SETUP :: int where "NAU8360_DSP_CMD_GET_KCS_SETUP = 0x6"
definition NAU8360_DSP_CMD_SET_KCS_SETUP :: int where "NAU8360_DSP_CMD_SET_KCS_SETUP = 0x7"
definition NAU8360_DSP_CMD_CLK_STOP :: int where "NAU8360_DSP_CMD_CLK_STOP = 0xb"
definition NAU8360_DSP_CMD_CLK_RESTART :: int where "NAU8360_DSP_CMD_CLK_RESTART = 0xc"

subsection \<open>Data\<close>

record nau8360_cmd_info =
  cmd_id :: int
  msg_param :: bool
  setup_data :: bool
  reply_data :: bool

text \<open>
  A pointer to bytes is the memory seen from it, a function from the byte index to the
  byte, or \<open>None\<close> for \<^verbatim>\<open>NULL\<close>. A write through the pointer updates the function,
  at whatever index the code writes.
\<close>

type_synonym bytes = "nat \<Rightarrow> u8"

record nau8360_kcs_setup =
  set_len :: int
  set_kcs_offset :: int
  set_kcs_data :: "bytes option"
  get_len :: int
  get_data :: "bytes option"

definition mk_cmd :: "int \<Rightarrow> bool \<Rightarrow> bool \<Rightarrow> bool \<Rightarrow> nau8360_cmd_info" where
  "mk_cmd c p d r = \<lparr>cmd_id = c, msg_param = p, setup_data = d, reply_data = r\<rparr>"

text \<open>
  \<^verbatim>\<open>nau8360_dsp_cmd_table[]\<close>: designated initialisers; the entries not named
  (and the fields not named) are zero.
\<close>

definition nau8360_dsp_cmd_table :: "int \<Rightarrow> nau8360_cmd_info" where
  "nau8360_dsp_cmd_table i =
    (if i = NAU8360_DSP_CMD_GET_COUNTER then mk_cmd NAU8360_DSP_CMD_GET_COUNTER False False True
     else if i = NAU8360_DSP_CMD_GET_FRAME_STATUS
       then mk_cmd NAU8360_DSP_CMD_GET_FRAME_STATUS False False True
     else if i = NAU8360_DSP_CMD_GET_REVISION then mk_cmd NAU8360_DSP_CMD_GET_REVISION False False True
     else if i = NAU8360_DSP_CMD_GET_KCS_RSLTS then mk_cmd NAU8360_DSP_CMD_GET_KCS_RSLTS True False True
     else if i = NAU8360_DSP_CMD_GET_KCS_SETUP then mk_cmd NAU8360_DSP_CMD_GET_KCS_SETUP True False True
     else if i = NAU8360_DSP_CMD_SET_KCS_SETUP then mk_cmd NAU8360_DSP_CMD_SET_KCS_SETUP True True True
     else if i = NAU8360_DSP_CMD_CLK_STOP then mk_cmd NAU8360_DSP_CMD_CLK_STOP False False False
     else if i = NAU8360_DSP_CMD_CLK_RESTART then mk_cmd NAU8360_DSP_CMD_CLK_RESTART False False False
     else mk_cmd 0 False False False)"

definition nau8360_dsp_commands :: "int \<Rightarrow> bool" where
  "nau8360_dsp_commands c \<longleftrightarrow>
     c = NAU8360_DSP_CMD_GET_COUNTER \<or> c = NAU8360_DSP_CMD_GET_FRAME_STATUS \<or>
     c = NAU8360_DSP_CMD_GET_REVISION \<or> c = NAU8360_DSP_CMD_GET_KCS_RSLTS \<or>
     c = NAU8360_DSP_CMD_GET_KCS_SETUP \<or> c = NAU8360_DSP_CMD_SET_KCS_SETUP \<or>
     c = NAU8360_DSP_CMD_CLK_STOP \<or> c = NAU8360_DSP_CMD_CLK_RESTART"

subsection \<open>The register channel\<close>

text \<open>
  The device as the driver sees it in one run: \<open>rd_script n\<close> is what the \<open>n\<close>-th
  \<^verbatim>\<open>regmap_read\<close> returns, the return code and the word read (the word counts only
  when the code is 0); \<open>rd_count\<close> counts the reads done; \<open>wr_log\<close> is every write in
  order. Any behaviour of a device, also one that reacts to the writes, is some script.
  The driver ignores the return value of \<^verbatim>\<open>snd_soc_component_write\<close>, so a write
  has no result here.
\<close>

record dsp_dev =
  rd_script :: "nat \<Rightarrow> int \<times> u32"
  rd_count :: nat
  wr_log :: "(u16 \<times> u32) list"

definition regmap_read :: "u16 \<Rightarrow> dsp_dev \<Rightarrow> (int \<times> u32) \<times> dsp_dev" where
  "regmap_read reg s = (rd_script s (rd_count s), s\<lparr>rd_count := Suc (rd_count s)\<rparr>)"

definition snd_soc_component_write :: "u16 \<Rightarrow> u32 \<Rightarrow> dsp_dev \<Rightarrow> dsp_dev" where
  "snd_soc_component_write reg v s = s\<lparr>wr_log := wr_log s @ [(reg, v)]\<rparr>"

subsection \<open>Bytes and words\<close>

definition u8_of :: "int \<Rightarrow> u8" where
  "u8_of k = word_of_int k"

text \<open>The value of an \<^verbatim>\<open>int\<close> expression whose exact result is \<open>x\<close>.\<close>

definition s32 :: "int \<Rightarrow> int" where
  "s32 x = sint (word_of_int x :: 32 word)"

definition le32 :: "u8 list \<Rightarrow> u32" where
  "le32 d = ucast (d ! 0) OR push_bit 8 (ucast (d ! 1)) OR push_bit 16 (ucast (d ! 2))
            OR push_bit 24 (ucast (d ! 3))"

definition le_bytes :: "u32 \<Rightarrow> u8 list" where
  "le_bytes w = [ucast w, ucast (drop_bit 8 w), ucast (drop_bit 16 w), ucast (drop_bit 24 w)]"

subsection \<open>Waiting for the idle pattern\<close>

text \<open>
  \<^verbatim>\<open>for (retries = 10; retries > 0; retries--)\<close>: a failed read returns its code, the
  idle word leaves the loop with \<open>retries > 0\<close> (return 0), and the loop running out
  leaves \<open>retries = 0\<close> (return \<open>-EIO\<close>).
\<close>

fun dsp_idle_loop :: "nat \<Rightarrow> u16 \<Rightarrow> dsp_dev \<Rightarrow> int \<times> dsp_dev" where
  "dsp_idle_loop 0 dsp_addr s = (- EIO, s)"
| "dsp_idle_loop (Suc retries) dsp_addr s =
    (let ((ret, idle_pattern), s1) = regmap_read dsp_addr s in
     if ret \<noteq> 0 then (ret, s1)
     else if idle_pattern = NAU8360_DSP_COMM_IDLE_WORD then (0, s1)
     else dsp_idle_loop retries dsp_addr s1)"

definition nau8360_dsp_idle :: "u16 \<Rightarrow> dsp_dev \<Rightarrow> int \<times> dsp_dev" where
  "nau8360_dsp_idle dsp_addr s = dsp_idle_loop NAU8360_DSP_IDLE_RETRY dsp_addr s"

subsection \<open>The frame encoder\<close>

text \<open>
  The loop over the setup data: \<open>data[i % 4] = b_data[i]\<close>, and a full word is written
  and cleared. The state is \<open>(data, data_size, frag_cnt, device)\<close>.
\<close>

function setup_data_loop ::
  "nat \<Rightarrow> int \<Rightarrow> bytes \<Rightarrow> u16 \<Rightarrow> u8 list \<times> int \<times> int \<times> dsp_dev \<Rightarrow> u8 list \<times> int \<times> int \<times> dsp_dev"
where
  "setup_data_loop i param_size b_data dsp_addr (data, data_size, frag_cnt, s) =
    (if int i < param_size then
       (let data1 = data[i mod nat NAU8360_DSP_DATA_BYTE := b_data i];
            data_size1 = data_size + 1
        in if data_size1 = NAU8360_DSP_DATA_BYTE
           then setup_data_loop (Suc i) param_size b_data dsp_addr
                  ([0, 0, 0, 0], 0, frag_cnt + 1, snd_soc_component_write dsp_addr (le32 data1) s)
           else setup_data_loop (Suc i) param_size b_data dsp_addr (data1, data_size1, frag_cnt, s))
     else (data, data_size, frag_cnt, s))"
  by pat_completeness auto
termination
  by (relation "measure (\<lambda>(i, param_size, _). nat (param_size - int i))") auto

definition nau8360_massage_to_dsp ::
  "nau8360_cmd_info \<Rightarrow> int \<Rightarrow> int \<Rightarrow> int \<Rightarrow> bytes \<Rightarrow> u16 \<Rightarrow> dsp_dev \<Rightarrow> int \<times> dsp_dev"
where
  "nau8360_massage_to_dsp cmd_info frag_len param_offset param_size param_data dsp_addr s =
    (let (ret, s1) = nau8360_dsp_idle dsp_addr s in
     if ret \<noteq> 0 then (ret, s1)
     else
      let data = [u8_of NAU8360_DSP_COMM_PREAMBLE, u8_of (drop_bit 8 NAU8360_DSP_COMM_PREAMBLE),
                  u8_of (push_bit 2 (cmd_id cmd_info) OR (frag_len AND 0x3)),
                  u8_of (drop_bit 2 frag_len)];
          s2 = snd_soc_component_write dsp_addr (le32 data) s1
      in if \<not> msg_param cmd_info then (0, s2)
      else
       let data = [u8_of param_offset, u8_of (drop_bit 8 param_offset),
                   u8_of param_size, u8_of (drop_bit 8 param_size)];
           s3 = snd_soc_component_write dsp_addr (le32 data) s2;
           frag_cnt = 1;
           (padding, frag_cnt, s4) =
             (if setup_data cmd_info then
                let (data, data_size, frag_cnt, s4) =
                      setup_data_loop 0 param_size param_data dsp_addr ([0, 0, 0, 0], 0, frag_cnt, s3)
                in if data_size > 0 \<and> data_size < NAU8360_DSP_DATA_BYTE
                   then (NAU8360_DSP_DATA_BYTE - data_size, frag_cnt + 1,
                         snd_soc_component_write dsp_addr (le32 data) s4)
                   else (0, frag_cnt, s4)
              else (0, frag_cnt, s3));
           frag_cnt = frag_cnt + 1;
           data = [u8_of frag_cnt, u8_of (push_bit 6 (drop_bit 8 frag_cnt) OR push_bit 4 padding),
                   0, 0];
           s5 = snd_soc_component_write dsp_addr (le32 data) s4
       in if frag_cnt \<noteq> frag_len then (- EPROTO, s5) else (0, s5))"

subsection \<open>The frame decoder\<close>

text \<open>
  \<^verbatim>\<open>nau8360_dsp_replied\<close>: poll for a word whose two low bytes are the preamble,
  then take the length and the reply id from the other two. The result is
  \<open>(ret, *length, device)\<close>; \<open>*length\<close> is assigned only when the preamble is seen, and
  the callers read it only after a return of 0, so the other paths give 0 for it.
  \<open>is_preamble\<close> is the check
  \<^verbatim>\<open>b[0] == (PREAMBLE & 0xff) && b[1] == (PREAMBLE >> 8)\<close>, \<open>preamble_len\<close> is
  \<^verbatim>\<open>(b[2] & 0x3) | (b[3] << 2)\<close> and \<open>preamble_id\<close> is \<^verbatim>\<open>b[2] >> 2\<close>.
\<close>

definition is_preamble :: "u8 list \<Rightarrow> bool" where
  "is_preamble b \<longleftrightarrow>
     uint (b ! 0) = NAU8360_DSP_COMM_PREAMBLE AND 0xff \<and>
     uint (b ! 1) = drop_bit 8 NAU8360_DSP_COMM_PREAMBLE"

definition preamble_len :: "u8 list \<Rightarrow> int" where
  "preamble_len b = (uint (b ! 2) AND 0x3) OR push_bit 2 (uint (b ! 3))"

definition preamble_id :: "u8 list \<Rightarrow> int" where
  "preamble_id b = drop_bit 2 (uint (b ! 2))"

fun dsp_replied_loop :: "nat \<Rightarrow> u16 \<Rightarrow> dsp_dev \<Rightarrow> int \<times> int \<times> dsp_dev" where
  "dsp_replied_loop 0 dsp_addr s = (- EIO, 0, s)"
| "dsp_replied_loop (Suc retries) dsp_addr s =
    (let ((ret, reply_preamble), s1) = regmap_read dsp_addr s in
     if ret \<noteq> 0 then (ret, 0, s1)
     else
      let b = le_bytes reply_preamble in
      if is_preamble b
      then
        let length = preamble_len b;
            reply_id = preamble_id b
        in if reply_id = NAU8360_DSP_REPLY_OK then (0, length, s1) else (- reply_id, length, s1)
      else dsp_replied_loop retries dsp_addr s1)"

definition nau8360_dsp_replied :: "u16 \<Rightarrow> dsp_dev \<Rightarrow> int \<times> int \<times> dsp_dev" where
  "nau8360_dsp_replied dsp_addr s = dsp_replied_loop NAU8360_DSP_IDLE_RETRY dsp_addr s"

text \<open>\<^verbatim>\<open>*data_buf = payload\<close> at byte offset \<open>pos\<close> of the caller's buffer.\<close>

definition store32 :: "bytes \<Rightarrow> nat \<Rightarrow> u32 \<Rightarrow> bytes" where
  "store32 buf pos w =
     (let b = le_bytes w in buf(pos := b ! 0, pos + 1 := b ! 1, pos + 2 := b ! 2, pos + 3 := b ! 3))"

text \<open>
  The inner loop of the last, partial word:
  \<^verbatim>\<open>for (j = 0; j < 4; j++) { b_data[j] = b[j]; data_count--; if (data_count <= 0) break; }\<close>
\<close>

function reply_copy_loop :: "nat \<Rightarrow> u8 list \<Rightarrow> bytes \<Rightarrow> nat \<Rightarrow> int \<Rightarrow> bytes \<times> int" where
  "reply_copy_loop j b buf pos data_count =
    (if int j < NAU8360_DSP_DATA_BYTE then
       (let buf1 = buf(pos + j := b ! j);
            data_count1 = s32 (data_count - 1)
        in if data_count1 \<le> 0 then (buf1, data_count1)
           else reply_copy_loop (Suc j) b buf1 pos data_count1)
     else (buf, data_count))"
  by pat_completeness auto
termination
  by (relation "measure (\<lambda>(j, _). 4 - j)") (auto simp add: NAU8360_DSP_DATA_BYTE_def)

text \<open>
  The loop over the payload words, \<open>n\<close> iterations left. The state is
  \<open>(buffer, byte offset of data_buf, data_count, device)\<close>, the result has \<open>ret\<close> in
  front. With a parameter a full word is stored and \<open>data_buf\<close> advances; a word that
  finds \<open>data_count < 4\<close> is copied by bytes and ends the loop (\<^verbatim>\<open>break\<close>). Without a
  parameter the word is stored at \<open>*data_buf\<close> and \<open>data_buf\<close> stays.
\<close>

fun reply_payload_loop ::
  "nat \<Rightarrow> nau8360_cmd_info \<Rightarrow> u16 \<Rightarrow> bytes \<times> nat \<times> int \<times> dsp_dev
     \<Rightarrow> int \<times> bytes \<times> nat \<times> int \<times> dsp_dev"
where
  "reply_payload_loop 0 cmd_info dsp_addr (buf, pos, data_count, s) = (0, buf, pos, data_count, s)"
| "reply_payload_loop (Suc n) cmd_info dsp_addr (buf, pos, data_count, s) =
    (let ((ret, payload), s1) = regmap_read dsp_addr s in
     if ret \<noteq> 0 then (ret, buf, pos, data_count, s1)
     else if msg_param cmd_info then
       (if data_count \<ge> NAU8360_DSP_DATA_BYTE
        then reply_payload_loop n cmd_info dsp_addr
               (store32 buf pos payload, pos + 4, data_count - NAU8360_DSP_DATA_BYTE, s1)
        else (let (buf1, data_count1) = reply_copy_loop 0 (le_bytes payload) buf pos data_count
              in (0, buf1, pos, data_count1, s1)))
     else reply_payload_loop n cmd_info dsp_addr
            (store32 buf pos (le32 (le_bytes payload)), pos, data_count, s1))"

text \<open>
  The fields of the trailing fragment: \<^verbatim>\<open>b[0] | (b[1] & 0xc0) << 2\<close> and
  \<^verbatim>\<open>(b[1] & 0x30) >> 4\<close>.
\<close>

definition trailer_len :: "u8 list \<Rightarrow> int" where
  "trailer_len b = uint (b ! 0) OR push_bit 2 (uint (b ! 1) AND 0xc0)"

definition trailer_pad :: "u8 list \<Rightarrow> int" where
  "trailer_pad b = drop_bit 4 (uint (b ! 1) AND 0x30)"

text \<open>
  \<^verbatim>\<open>nau8360_reply_from_dsp\<close> from \<^verbatim>\<open>if (!data)\<close> on. The result is
  \<open>(ret, caller's buffer, device)\<close>. Without a parameter \<open>data_count\<close> is not
  initialised by the code; it is then read only by the warning, which has no effect, and
  is 0 here.
\<close>

definition reply_from_dsp_data ::
  "nau8360_cmd_info \<Rightarrow> int \<Rightarrow> bytes option \<Rightarrow> u16 \<Rightarrow> dsp_dev \<Rightarrow> int \<times> bytes option \<times> dsp_dev"
where
  "reply_from_dsp_data cmd_info data_size data dsp_addr s =
    (case data of
       None \<Rightarrow> (- EINVAL, None, s)
     | Some buf \<Rightarrow>
        let (ret, frag_len, s1) = nau8360_dsp_replied dsp_addr s in
        if ret \<noteq> 0 then (ret, Some buf, s1)
        else if frag_len = 0 then (0, Some buf, s1)
        else
         let frag_payload_len = frag_len - 1;
             data_count = (if msg_param cmd_info then data_size else 0);
             (ret, buf1, pos, data_count, s2) =
               reply_payload_loop (nat frag_payload_len) cmd_info dsp_addr (buf, 0, data_count, s1)
         in if ret \<noteq> 0 then (ret, Some buf1, s2)
         else
          let ((ret, payload), s3) = regmap_read dsp_addr s2 in
          if ret \<noteq> 0 then (ret, Some buf1, s3)
          else
           let b = le_bytes payload;
               len_pos = trailer_len b
           in if len_pos \<noteq> frag_len then (- EPROTO, Some buf1, s3)
           else
            let pad_len = trailer_pad b;
                pad_len_exp =
                  (if msg_param cmd_info
                   then s32 (frag_payload_len * NAU8360_DSP_DATA_BYTE - s32 (data_size - data_count))
                   else 0)
            in if pad_len \<noteq> pad_len_exp then (- EPROTO, Some buf1, s3)
               else (0, Some buf1, s3))"

text \<open>
  The whole function: a command without reply data first waits for a preamble of its
  own and is done when that one declares no fragment.
\<close>

definition nau8360_reply_from_dsp ::
  "nau8360_cmd_info \<Rightarrow> int \<Rightarrow> bytes option \<Rightarrow> u16 \<Rightarrow> dsp_dev \<Rightarrow> int \<times> bytes option \<times> dsp_dev"
where
  "nau8360_reply_from_dsp cmd_info data_size data dsp_addr s =
    (if \<not> reply_data cmd_info then
       (let (ret, frag_len, s1) = nau8360_dsp_replied dsp_addr s in
        if ret \<noteq> 0 then (ret, data, s1)
        else if frag_len = 0 then (0, data, s1)
        else reply_from_dsp_data cmd_info data_size data dsp_addr s1)
     else reply_from_dsp_data cmd_info data_size data dsp_addr s)"

subsection \<open>One exchange\<close>

text \<open>C's \<open>/\<close> on \<^verbatim>\<open>int\<close> truncates towards zero.\<close>

definition c_div :: "int \<Rightarrow> int \<Rightarrow> int" where
  "c_div a b = sgn a * sgn b * (\<bar>a\<bar> div \<bar>b\<bar>)"

text \<open>The fragment count that \<^verbatim>\<open>nau8360_send_dsp_command\<close> computes for the preamble.\<close>

definition msg_frag_len :: "nau8360_cmd_info \<Rightarrow> int \<Rightarrow> int" where
  "msg_frag_len cmd_info len =
    (let frag_len = 0;
         frag_len = (if msg_param cmd_info then frag_len + 1 + 1 else frag_len);
         frag_len = (if setup_data cmd_info
                     then frag_len +
                          c_div (s32 (s32 (len + NAU8360_DSP_DATA_BYTE) - 1)) NAU8360_DSP_DATA_BYTE
                     else frag_len)
     in frag_len)"

text \<open>
  \<^verbatim>\<open>nau8360_send_dsp_command\<close>, for a valid \<open>component\<close>. The result is
  \<open>(ret, memory at get_data, device)\<close>. \<open>set_kcs_data\<close> is read only for a command with
  setup data, which the second check has found not to be \<^verbatim>\<open>NULL\<close>.
\<close>

definition nau8360_send_dsp_command ::
  "int \<Rightarrow> nau8360_kcs_setup option \<Rightarrow> u16 \<Rightarrow> dsp_dev \<Rightarrow> int \<times> bytes option \<times> dsp_dev"
where
  "nau8360_send_dsp_command cmd kcs_setup dsp_addr s =
    (case kcs_setup of
       None \<Rightarrow> (- EINVAL, None, s)
     | Some ks \<Rightarrow>
        if \<not> nau8360_dsp_commands cmd then (- EINVAL, get_data ks, s)
        else
         let cmd_info = nau8360_dsp_cmd_table cmd in
         if (msg_param cmd_info \<and> set_len ks = 0) \<or>
            (setup_data cmd_info \<and> set_kcs_data ks = None) \<or>
            (reply_data cmd_info \<and> get_data ks = None)
         then (- EFAULT, get_data ks, s)
         else if cmd = NAU8360_DSP_CMD_GET_KCS_SETUP \<and>
                 (set_len ks > NAU8360_DSP_KCS_DAT_LEN_MAX \<or>
                  set_kcs_offset ks > NAU8360_DSP_KCS_OFFSET_MAX)
         then (- ERANGE, get_data ks, s)
         else
          let frag_len = msg_frag_len cmd_info (set_len ks);
              (ret, s1) = nau8360_massage_to_dsp cmd_info frag_len (set_kcs_offset ks) (set_len ks)
                            (case set_kcs_data ks of Some d \<Rightarrow> d | None \<Rightarrow> (\<lambda>_. 0)) dsp_addr s
          in if ret \<noteq> 0 then (ret, get_data ks, s1)
             else nau8360_reply_from_dsp cmd_info (get_len ks) (get_data ks) dsp_addr s1)"

subsection \<open>The chunked setup uploader\<close>

text \<open>
  The \<^verbatim>\<open>while (data_rem)\<close> loop of \<^verbatim>\<open>nau8360_dsp_kcs_setup\<close>. The function that
  sends one command is a parameter, so that the same loop can be run with
  \<^verbatim>\<open>nau8360_send_dsp_command\<close> itself and with a variant of it that also records
  each call. \<open>data_buf\<close> is the byte offset of the pointer into \<open>data\<close>.
\<close>

type_synonym 'd sender = "int \<Rightarrow> nau8360_kcs_setup option \<Rightarrow> u16 \<Rightarrow> 'd \<Rightarrow> int \<times> bytes option \<times> 'd"

function kcs_setup_loop ::
  "'d sender \<Rightarrow> bytes \<Rightarrow> u16 \<Rightarrow> nat \<Rightarrow> int \<Rightarrow> int \<Rightarrow> int \<Rightarrow> nau8360_kcs_setup \<Rightarrow> 'd \<Rightarrow> int \<times> 'd"
where
  "kcs_setup_loop send data dsp_addr data_buf addr_offset data_rem retries ks s =
    (if data_rem = 0 then (0, s)
     else
      let data_len = (if data_rem > NAU8360_DSP_KCS_TX_MAX then NAU8360_DSP_KCS_TX_MAX else data_rem);
          ks1 = ks\<lparr>set_kcs_offset := addr_offset, set_len := data_len,
                   set_kcs_data := Some (\<lambda>i. data (data_buf + i))\<rparr>;
          (ret, rst1, s1) = send NAU8360_DSP_CMD_SET_KCS_SETUP (Some ks1) dsp_addr s;
          ks2 = ks1\<lparr>get_data := rst1\<rparr>
      in if ret < 0 then
           (if retries < NAU8360_DSP_RETRY_MAX
            then kcs_setup_loop send data dsp_addr data_buf addr_offset data_rem (retries + 1) ks2 s1
            else (ret, s1))
         else
          let data_buf1 = data_buf + unat (u8_of data_len);
              addr_offset1 = s32 (addr_offset + data_len);
              data_rem1 = data_rem - data_len;
              ks3 = ks2\<lparr>set_kcs_offset := 0, set_len := NAU8360_DSP_DATA_BYTE,
                       get_len := NAU8360_DSP_DATA_BYTE\<rparr>;
              (ret, rst2, s2) = send NAU8360_DSP_CMD_GET_KCS_RSLTS (Some ks3) dsp_addr s1;
              ks4 = ks3\<lparr>get_data := rst2\<rparr>
          in if ret < 0 then (ret, s2)
             else kcs_setup_loop send data dsp_addr data_buf1 addr_offset1 data_rem1 retries ks4 s2)"
  by pat_completeness auto
termination
  by (relation "measures [\<lambda>(_, _, _, _, _, data_rem, _). nat \<bar>data_rem\<bar>,
                          \<lambda>(_, _, _, _, _, _, retries, _). nat (NAU8360_DSP_RETRY_MAX - retries)]")
     (auto simp add: NAU8360_DSP_KCS_TX_MAX_def NAU8360_DSP_RETRY_MAX_def split: if_splits)

text \<open>
  \<^verbatim>\<open>nau8360_dsp_kcs_setup\<close>. The locals \<^verbatim>\<open>kcs_setup_comp\<close> and \<^verbatim>\<open>kcs_rst\<close> are
  not initialised by the code: their first contents are the parameters \<open>ks0\<close> and
  \<open>kcs_rst\<close>. The parameter \<open>sz\<close> is the source's \<^verbatim>\<open>size\<close>.
\<close>

definition nau8360_dsp_kcs_setup_with ::
  "'d sender \<Rightarrow> int \<Rightarrow> int \<Rightarrow> bytes option \<Rightarrow> u16 \<Rightarrow> nau8360_kcs_setup \<Rightarrow> bytes \<Rightarrow> 'd \<Rightarrow> int \<times> 'd"
where
  "nau8360_dsp_kcs_setup_with send offset sz data dsp_addr ks0 kcs_rst s =
    (case data of
       None \<Rightarrow> (- EINVAL, s)
     | Some d \<Rightarrow>
        if sz > NAU8360_DSP_KCS_DAT_LEN_MAX \<or> offset > NAU8360_DSP_KCS_OFFSET_MAX
        then (- EINVAL, s)
        else kcs_setup_loop send d dsp_addr 0 offset sz 0 (ks0\<lparr>get_data := Some kcs_rst\<rparr>) s)"

definition nau8360_dsp_kcs_setup ::
  "int \<Rightarrow> int \<Rightarrow> bytes option \<Rightarrow> u16 \<Rightarrow> nau8360_kcs_setup \<Rightarrow> bytes \<Rightarrow> dsp_dev \<Rightarrow> int \<times> dsp_dev"
where
  "nau8360_dsp_kcs_setup = nau8360_dsp_kcs_setup_with nau8360_send_dsp_command"

section \<open>Notions used in the statements\<close>

text \<open>
  A device given by the list of what its first reads return; every later read returns
  the word 0 with code 0, which is neither the idle pattern nor a preamble.
\<close>

definition script :: "(int \<times> u32) list \<Rightarrow> nat \<Rightarrow> int \<times> u32" where
  "script xs n = (if n < length xs then xs ! n else (0, 0))"

definition dev_of :: "(int \<times> u32) list \<Rightarrow> dsp_dev" where
  "dev_of xs = \<lparr>rd_script = script xs, rd_count = 0, wr_log = []\<rparr>"

text \<open>The device after the words \<open>ws\<close> have been written to \<open>a\<close>.\<close>

definition wrote :: "dsp_dev \<Rightarrow> u16 \<Rightarrow> u32 list \<Rightarrow> dsp_dev" where
  "wrote s a ws = s\<lparr>wr_log := wr_log s @ map (Pair a) ws\<rparr>"

text \<open>
  The requests that the checks at the head of \<^verbatim>\<open>nau8360_send_dsp_command\<close> let
  through to the mailbox.
\<close>

definition request_passes :: "int \<Rightarrow> nau8360_kcs_setup \<Rightarrow> bool" where
  "request_passes cmd ks \<longleftrightarrow>
     nau8360_dsp_commands cmd \<and>
     \<not> ((msg_param (nau8360_dsp_cmd_table cmd) \<and> set_len ks = 0) \<or>
        (setup_data (nau8360_dsp_cmd_table cmd) \<and> set_kcs_data ks = None) \<or>
        (reply_data (nau8360_dsp_cmd_table cmd) \<and> get_data ks = None)) \<and>
     \<not> (cmd = NAU8360_DSP_CMD_GET_KCS_SETUP \<and>
        (set_len ks > NAU8360_DSP_KCS_DAT_LEN_MAX \<or>
         set_kcs_offset ks > NAU8360_DSP_KCS_OFFSET_MAX))"

text \<open>The next \<open>n\<close> reads succeed and none of them returns the idle pattern.\<close>

definition reads_ok_not_idle :: "dsp_dev \<Rightarrow> nat \<Rightarrow> bool" where
  "reads_ok_not_idle s n \<longleftrightarrow>
     (\<forall>k<n. fst (rd_script s (rd_count s + k)) = 0 \<and>
            snd (rd_script s (rd_count s + k)) \<noteq> NAU8360_DSP_COMM_IDLE_WORD)"

text \<open>Requests and devices for the examples.\<close>

definition ks_get4 :: nau8360_kcs_setup where
  "ks_get4 = \<lparr>set_len = 4, set_kcs_offset = 0, set_kcs_data = None, get_len = 4,
              get_data = Some (\<lambda>_. 0)\<rparr>"

definition dev3 :: dsp_dev where
  "dev3 = dev_of [(0, 0x1), (0, 0x2), (0, 0xf4f3f2f1)]"

text \<open>
  The words of a message frame. \<open>padded d L i\<close> is byte \<open>i\<close> of the setup data of
  length \<open>L\<close>, and 0 from \<open>L\<close> on; \<open>setup_words d L\<close> packs the padded data four bytes
  to a word, first byte lowest.
\<close>

definition padded :: "bytes \<Rightarrow> int \<Rightarrow> nat \<Rightarrow> u8" where
  "padded d L i = (if int i < L then d i else 0)"

definition setup_word :: "bytes \<Rightarrow> int \<Rightarrow> nat \<Rightarrow> u32" where
  "setup_word d L k =
     le32 [padded d L (4 * k), padded d L (4 * k + 1), padded d L (4 * k + 2), padded d L (4 * k + 3)]"

definition setup_words :: "bytes \<Rightarrow> int \<Rightarrow> u32 list" where
  "setup_words d L = map (setup_word d L) [0..<nat ((L + 3) div 4)]"

definition preamble_word :: "int \<Rightarrow> int \<Rightarrow> u32" where
  "preamble_word c frag_len =
     le32 [0xa1, 0xb2, u8_of (push_bit 2 c OR (frag_len AND 0x3)), u8_of (drop_bit 2 frag_len)]"

definition descriptor_word :: "int \<Rightarrow> int \<Rightarrow> u32" where
  "descriptor_word off sz = le32 [u8_of off, u8_of (drop_bit 8 off), u8_of sz, u8_of (drop_bit 8 sz)]"

definition trailer_word :: "int \<Rightarrow> int \<Rightarrow> u32" where
  "trailer_word fc pad = le32 [u8_of fc, u8_of (push_bit 6 (drop_bit 8 fc) OR push_bit 4 pad), 0, 0]"


text \<open>Between \<open>s\<close> and \<open>s'\<close> the mailbox has only been read.\<close>

definition reads_only :: "dsp_dev \<Rightarrow> dsp_dev \<Rightarrow> bool" where
  "reads_only s s' \<longleftrightarrow> wr_log s' = wr_log s \<and> rd_script s' = rd_script s \<and> rd_count s \<le> rd_count s'"


text \<open>A device that shows the idle pattern at its first read, and a buffer \<open>1, 2, 3, ...\<close>.\<close>

definition idle_dev :: dsp_dev where
  "idle_dev = dev_of [(0, 0xf4f3f2f1)]"

definition count_up :: bytes where
  "count_up i = of_nat i + 1"


text \<open>
  The words of the message frame of a command: what \<^verbatim>\<open>nau8360_massage_to_dsp\<close>
  writes, with the fragment count of \<^verbatim>\<open>nau8360_send_dsp_command\<close>, when the DSP is idle.
\<close>

definition message_words :: "int \<Rightarrow> int \<Rightarrow> int \<Rightarrow> bytes \<Rightarrow> u32 list" where
  "message_words c off sz d =
     map snd (wr_log (snd (nau8360_massage_to_dsp (nau8360_dsp_cmd_table c)
        (msg_frag_len (nau8360_dsp_cmd_table c) sz) off sz d 0 idle_dev)))"


text \<open>
  Modelled from the spec: the reader of a Message Frame. The repository has no code that
  reads a message frame (the DSP firmware does; \<^verbatim>\<open>nau8360_reply_from_dsp\<close> reads reply
  frames, which carry a reply id in place of the opcode and no descriptor). The reader
  follows the wire format of the spec: preamble \<open>[0xA1][0xB2][(opcode<<2)|(fragCount&0x3)][fragCount>>2]\<close>,
  descriptor \<open>[offsetLo][offsetHi][sizeLo][sizeHi]\<close>, payload words of four bytes,
  trailer \<open>[fragCount&0xFF][((fragCount>>8)<<6)|(padLen<<4)][0][0]\<close>. The fields of the
  preamble and of the trailer are taken with the expressions of the source's reply
  decoder (\<open>preamble_id\<close>, \<open>preamble_len\<close>, \<open>trailer_len\<close>, \<open>trailer_pad\<close>). A command has
  a descriptor when its table entry has \<open>msg_param\<close>; the payload is what the payload
  words hold without the padding. For a frame with a parameter the spec's fragment
  count (2 for descriptor and trailer, plus the payload words) is the number of words
  after the preamble, and the reader checks the count of the preamble and of the trailer
  against it. For a frame without parameter, which is the preamble alone, the spec's
  encoder gives the count 1 and its count rule gives 0: the reader does not look at the
  count of such a frame, and takes it with either.
\<close>

record dsp_message =
  opcode :: int
  param :: "(int \<times> int) option"
  payload :: "u8 list"
  pad_len :: int

definition descriptor_offset :: "u8 list \<Rightarrow> int" where
  "descriptor_offset b = uint (b ! 0) OR push_bit 8 (uint (b ! 1))"

definition descriptor_size :: "u8 list \<Rightarrow> int" where
  "descriptor_size b = uint (b ! 2) OR push_bit 8 (uint (b ! 3))"

definition decode_message :: "u32 list \<Rightarrow> dsp_message option" where
  "decode_message ws =
    (case ws of
       [] \<Rightarrow> None
     | p # rest \<Rightarrow>
        let b = le_bytes p; c = preamble_id b in
        if b ! 0 \<noteq> 0xa1 \<or> b ! 1 \<noteq> 0xb2 \<or> \<not> nau8360_dsp_commands c
        then None
        else if \<not> msg_param (nau8360_dsp_cmd_table c)
        then (if rest = [] then Some \<lparr>opcode = c, param = None, payload = [], pad_len = 0\<rparr>
              else None)
        else
         (case rest of
            [] \<Rightarrow> None
          | dw # rest2 \<Rightarrow>
             if rest2 = [] then None
             else
              let db = le_bytes dw;
                  off = descriptor_offset db;
                  sz = descriptor_size db;
                  tb = le_bytes (last rest2);
                  body = concat (map le_bytes (butlast rest2));
                  pad = trailer_pad tb
              in if preamble_len b \<noteq> int (length rest) \<or> trailer_len tb \<noteq> int (length rest) \<or>
                    int (length body) < pad
                 then None
                 else Some \<lparr>opcode = c, param = Some (off, sz),
                            payload = take (length body - nat pad) body, pad_len = pad\<rparr>))"


text \<open>
  The next \<open>n\<close> reads succeed and none of them returns a preamble; and what
  \<^verbatim>\<open>nau8360_dsp_replied\<close> returns for a reply id.
\<close>

definition reads_ok_no_preamble :: "dsp_dev \<Rightarrow> nat \<Rightarrow> bool" where
  "reads_ok_no_preamble s n \<longleftrightarrow>
     (\<forall>k<n. fst (rd_script s (rd_count s + k)) = 0 \<and>
            \<not> is_preamble (le_bytes (snd (rd_script s (rd_count s + k)))))"

definition reply_status :: "int \<Rightarrow> int" where
  "reply_status reply_id = (if reply_id = NAU8360_DSP_REPLY_OK then 0 else - reply_id)"

text \<open>
  Reply preambles with the reply ids 3 (the command does not exist) and 5 (message too
  long), and devices that are idle and then answer with them.
\<close>

definition unknown_cmd_reply :: u32 where
  "unknown_cmd_reply = le32 [0xa1, 0xb2, 0x0c, 0x00]"

definition too_long_reply :: u32 where
  "too_long_reply = le32 [0xa1, 0xb2, 0x14, 0x00]"

definition dev_unknown_cmd :: dsp_dev where
  "dev_unknown_cmd = dev_of [(0, 0xf4f3f2f1), (0, unknown_cmd_reply)]"

definition dev_too_long :: dsp_dev where
  "dev_too_long = dev_of [(0, 0xf4f3f2f1), (0, too_long_reply)]"


text \<open>The next \<open>n\<close> reads succeed.\<close>

definition reads_ok :: "dsp_dev \<Rightarrow> nat \<Rightarrow> bool" where
  "reads_ok s n \<longleftrightarrow> (\<forall>k<n. fst (rd_script s (rd_count s + k)) = 0)"

text \<open>
  Replies to a request for 5 bytes: a preamble declaring 3 fragments, two payload words
  and a trailer with count 3 and padding 3; and a short one, a preamble declaring 2
  fragments, one payload word and a trailer with count 2 and padding 0. And a reply
  with two payload words to a command without parameter.
\<close>

definition dev_kcs5 :: dsp_dev where
  "dev_kcs5 = dev_of [(0, le32 [0xa1, 0xb2, 0x03, 0x00]), (0, le32 [1, 2, 3, 4]),
                      (0, le32 [5, 6, 7, 8]), (0, le32 [0x03, 0x30, 0, 0])]"

definition dev_kcs5_short :: dsp_dev where
  "dev_kcs5_short = dev_of [(0, le32 [0xa1, 0xb2, 0x02, 0x00]), (0, le32 [1, 2, 3, 4]),
                            (0, le32 [0x02, 0x00, 0, 0])]"

definition dev_counter2 :: dsp_dev where
  "dev_counter2 = dev_of [(0, le32 [0xa1, 0xb2, 0x03, 0x00]), (0, le32 [1, 2, 3, 4]),
                          (0, le32 [5, 6, 7, 8]), (0, le32 [0x03, 0x00, 0, 0])]"


section \<open>Notions used in the statements about the uploader\<close>

text \<open>
  One call of \<^verbatim>\<open>nau8360_send_dsp_command\<close> as the uploader makes it: the command, the
  offset, length and bytes of the request (\<open>set_kcs_offset\<close>, \<open>set_len\<close> and the first
  \<open>set_len\<close> bytes at \<open>set_kcs_data\<close>), and what the call returned.
\<close>

record dsp_call =
  call_cmd :: int
  call_offset :: int
  call_len :: int
  call_bytes :: "u8 list"
  call_ret :: int

definition call_of :: "int \<Rightarrow> nau8360_kcs_setup option \<Rightarrow> int \<Rightarrow> dsp_call" where
  "call_of cmd kcs_setup ret =
    (case kcs_setup of
       None \<Rightarrow> \<lparr>call_cmd = cmd, call_offset = 0, call_len = 0, call_bytes = [], call_ret = ret\<rparr>
     | Some ks \<Rightarrow>
        \<lparr>call_cmd = cmd, call_offset = set_kcs_offset ks, call_len = set_len ks,
         call_bytes = (case set_kcs_data ks of None \<Rightarrow> [] | Some d \<Rightarrow> map d [0..<nat (set_len ks)]),
         call_ret = ret\<rparr>)"

text \<open>
  A sender that does what \<open>send\<close> does and also appends each call to a list, and the
  calls that \<^verbatim>\<open>nau8360_dsp_kcs_setup\<close> makes: the list that the loop leaves when it is
  run with the recording \<^verbatim>\<open>nau8360_send_dsp_command\<close>.
\<close>

definition logged :: "'d sender \<Rightarrow> ('d \<times> dsp_call list) sender" where
  "logged send cmd kcs_setup dsp_addr = (\<lambda>(s, calls).
     let (ret, rst, s1) = send cmd kcs_setup dsp_addr s
     in (ret, rst, (s1, calls @ [call_of cmd kcs_setup ret])))"

definition kcs_setup_calls ::
  "int \<Rightarrow> int \<Rightarrow> bytes option \<Rightarrow> u16 \<Rightarrow> nau8360_kcs_setup \<Rightarrow> bytes \<Rightarrow> dsp_dev \<Rightarrow> dsp_call list"
where
  "kcs_setup_calls offset sz data dsp_addr ks0 kcs_rst s =
     snd (snd (nau8360_dsp_kcs_setup_with (logged nau8360_send_dsp_command) offset sz data dsp_addr
                 ks0 kcs_rst (s, [])))"

text \<open>
  The length of the next chunk (\<^verbatim>\<open>data_len\<close>), the two requests of one turn of the loop
  (\<open>chunk_request\<close> is \<^verbatim>\<open>kcs_setup\<close> at the chunk write, \<open>check_request\<close> at the check
  of the result, \<open>rst1\<close> being the memory at \<^verbatim>\<open>get_data\<close> after the chunk write), and the
  calls made with them. \<open>pos\<close> is the byte offset of \<^verbatim>\<open>data_buf\<close> in the data; the check
  is sent with the \<^verbatim>\<open>set_kcs_data\<close> of the chunk before it.
\<close>

definition chunk_len :: "int \<Rightarrow> int" where
  "chunk_len data_rem =
     (if data_rem > NAU8360_DSP_KCS_TX_MAX then NAU8360_DSP_KCS_TX_MAX else data_rem)"

definition chunk_request :: "nau8360_kcs_setup \<Rightarrow> bytes \<Rightarrow> nat \<Rightarrow> int \<Rightarrow> int \<Rightarrow> nau8360_kcs_setup" where
  "chunk_request ks d pos off data_rem =
     ks\<lparr>set_kcs_offset := off, set_len := chunk_len data_rem,
        set_kcs_data := Some (\<lambda>i. d (pos + i))\<rparr>"

definition check_request :: "nau8360_kcs_setup \<Rightarrow> bytes option \<Rightarrow> nau8360_kcs_setup" where
  "check_request ks1 rst1 =
     ks1\<lparr>get_data := rst1, set_kcs_offset := 0, set_len := NAU8360_DSP_DATA_BYTE,
         get_len := NAU8360_DSP_DATA_BYTE\<rparr>"

definition set_call :: "bytes \<Rightarrow> nat \<Rightarrow> int \<Rightarrow> int \<Rightarrow> int \<Rightarrow> dsp_call" where
  "set_call d pos off data_rem ret =
     \<lparr>call_cmd = NAU8360_DSP_CMD_SET_KCS_SETUP, call_offset = off, call_len = chunk_len data_rem,
      call_bytes = map (\<lambda>i. d (pos + i)) [0..<nat (chunk_len data_rem)], call_ret = ret\<rparr>"

definition get_call :: "bytes \<Rightarrow> nat \<Rightarrow> int \<Rightarrow> dsp_call" where
  "get_call d pos ret =
     \<lparr>call_cmd = NAU8360_DSP_CMD_GET_KCS_RSLTS, call_offset = 0, call_len = NAU8360_DSP_DATA_BYTE,
      call_bytes = map (\<lambda>i. d (pos + i)) [0..<nat NAU8360_DSP_DATA_BYTE], call_ret = ret\<rparr>"

text \<open>
  \<open>upload_run d pos off data_rem retries cs r\<close>: from the loop head with these values of
  \<^verbatim>\<open>data_buf\<close>, \<^verbatim>\<open>addr_offset\<close>, \<^verbatim>\<open>data_rem\<close> and \<^verbatim>\<open>retries\<close>, the calls \<open>cs\<close> with the
  returns they carry lead to the return \<open>r\<close> of \<^verbatim>\<open>nau8360_dsp_kcs_setup\<close>. One rule for
  each way through the body of the loop.
\<close>

inductive upload_run :: "bytes \<Rightarrow> nat \<Rightarrow> int \<Rightarrow> int \<Rightarrow> int \<Rightarrow> dsp_call list \<Rightarrow> int \<Rightarrow> bool"
  for d :: bytes
where
  finished: "upload_run d pos off 0 retries [] 0"
| retry: "data_rem \<noteq> 0 \<Longrightarrow> ret < 0 \<Longrightarrow> retries < NAU8360_DSP_RETRY_MAX \<Longrightarrow>
          upload_run d pos off data_rem (retries + 1) cs r \<Longrightarrow>
          upload_run d pos off data_rem retries (set_call d pos off data_rem ret # cs) r"
| give_up: "data_rem \<noteq> 0 \<Longrightarrow> ret < 0 \<Longrightarrow> \<not> retries < NAU8360_DSP_RETRY_MAX \<Longrightarrow>
            upload_run d pos off data_rem retries [set_call d pos off data_rem ret] ret"
| check_failed: "data_rem \<noteq> 0 \<Longrightarrow> \<not> ret < 0 \<Longrightarrow> ret2 < 0 \<Longrightarrow>
                 upload_run d pos off data_rem retries
                   [set_call d pos off data_rem ret, get_call d pos ret2] ret2"
| next_chunk: "data_rem \<noteq> 0 \<Longrightarrow> \<not> ret < 0 \<Longrightarrow> \<not> ret2 < 0 \<Longrightarrow>
               upload_run d (pos + unat (u8_of (chunk_len data_rem))) (s32 (off + chunk_len data_rem))
                 (data_rem - chunk_len data_rem) retries cs r \<Longrightarrow>
               upload_run d pos off data_rem retries
                 (set_call d pos off data_rem ret # get_call d pos ret2 # cs) r"

text \<open>Kinds of calls, and a call that repeats the request of another.\<close>

definition chunk_write :: "dsp_call \<Rightarrow> bool" where
  "chunk_write c \<longleftrightarrow> call_cmd c = NAU8360_DSP_CMD_SET_KCS_SETUP"

definition chunk_write_ok :: "dsp_call \<Rightarrow> bool" where
  "chunk_write_ok c \<longleftrightarrow> call_cmd c = NAU8360_DSP_CMD_SET_KCS_SETUP \<and> \<not> call_ret c < 0"

definition chunk_write_failed :: "dsp_call \<Rightarrow> bool" where
  "chunk_write_failed c \<longleftrightarrow> call_cmd c = NAU8360_DSP_CMD_SET_KCS_SETUP \<and> call_ret c < 0"

definition result_check :: "dsp_call \<Rightarrow> bool" where
  "result_check c \<longleftrightarrow> call_cmd c = NAU8360_DSP_CMD_GET_KCS_RSLTS"

definition result_check_failed :: "dsp_call \<Rightarrow> bool" where
  "result_check_failed c \<longleftrightarrow> call_cmd c = NAU8360_DSP_CMD_GET_KCS_RSLTS \<and> call_ret c < 0"







definition ks_set1025 :: nau8360_kcs_setup where
  "ks_set1025 = \<lparr>set_len = 1025, set_kcs_offset = 0, set_kcs_data = Some count_up, get_len = 4,
                 get_data = Some (\<lambda>_. 0)\<rparr>"


section \<open>Basic facts\<close>

declare setup_data_loop.simps [simp del]
declare reply_copy_loop.simps [simp del]
declare kcs_setup_loop.simps [simp del]

subsection \<open>The idle wait\<close>

lemma s32_id: "- 2147483648 \<le> x \<Longrightarrow> x < 2147483648 \<Longrightarrow> s32 x = x"
  by (simp add: s32_def sint_sbintrunc' signed_take_bit_int_eq_self)

lemma regmap_read_simps [simp]:
  "fst (regmap_read reg s) = rd_script s (rd_count s)"
  "snd (regmap_read reg s) = s\<lparr>rd_count := Suc (rd_count s)\<rparr>"
  by (simp_all add: regmap_read_def)

lemma idle_loop_reads_le: "rd_count (snd (dsp_idle_loop n a s)) \<le> rd_count s + n"
proof (induction n arbitrary: s)
  case 0
  show ?case by simp
next
  case (Suc n)
  have "rd_count (snd (dsp_idle_loop n a (s\<lparr>rd_count := Suc (rd_count s)\<rparr>))) \<le> Suc (rd_count s) + n"
    using Suc.IH [of "s\<lparr>rd_count := Suc (rd_count s)\<rparr>"] by simp
  then show ?case
    by (simp add: regmap_read_def split: prod.splits)
qed

lemma idle_loop_timeout:
  "reads_ok_not_idle s n \<Longrightarrow> dsp_idle_loop n a s = (- EIO, s\<lparr>rd_count := rd_count s + n\<rparr>)"
proof (induction n arbitrary: s)
  case 0
  show ?case by simp
next
  case (Suc n)
  let ?s1 = "s\<lparr>rd_count := Suc (rd_count s)\<rparr>"
  from Suc.prems have first: "fst (rd_script s (rd_count s)) = 0"
    "snd (rd_script s (rd_count s)) \<noteq> NAU8360_DSP_COMM_IDLE_WORD"
    unfolding reads_ok_not_idle_def by (metis add.right_neutral zero_less_Suc)+
  from Suc.prems have "reads_ok_not_idle ?s1 n"
    unfolding reads_ok_not_idle_def by (auto simp flip: add_Suc_right)
  from Suc.IH [OF this] first show ?case
    by (cases "rd_script s (rd_count s)") (simp add: regmap_read_def)
qed

lemma idle_loop_found:
  "reads_ok_not_idle s m \<Longrightarrow> rd_script s (rd_count s + m) = (0, NAU8360_DSP_COMM_IDLE_WORD) \<Longrightarrow>
   m < n \<Longrightarrow> dsp_idle_loop n a s = (0, s\<lparr>rd_count := rd_count s + m + 1\<rparr>)"
proof (induction n arbitrary: s m)
  case 0
  then show ?case by simp
next
  case (Suc n)
  let ?s1 = "s\<lparr>rd_count := Suc (rd_count s)\<rparr>"
  show ?case
  proof (cases m)
    case 0
    with Suc.prems show ?thesis by (simp add: regmap_read_def)
  next
    case (Suc m')
    from Suc.prems(1) Suc have first: "fst (rd_script s (rd_count s)) = 0"
      "snd (rd_script s (rd_count s)) \<noteq> NAU8360_DSP_COMM_IDLE_WORD"
      unfolding reads_ok_not_idle_def by (metis add.right_neutral zero_less_Suc)+
    from Suc.prems(1) Suc have a: "reads_ok_not_idle ?s1 m'"
      unfolding reads_ok_not_idle_def by (auto simp flip: add_Suc_right)
    have b: "rd_script ?s1 (rd_count ?s1 + m') = (0, NAU8360_DSP_COMM_IDLE_WORD)"
      using Suc.prems(2) Suc by simp
    have c: "m' < n" using Suc.prems(3) Suc by simp
    from Suc.IH [OF a b c] first Suc show ?thesis
      by (cases "rd_script s (rd_count s)") (simp add: regmap_read_def)
  qed
qed

lemma idle_loop_wr: "wr_log (snd (dsp_idle_loop n a s)) = wr_log s"
  by (induction n arbitrary: s) (auto simp add: regmap_read_def split: prod.splits)

lemma idle_loop_script: "rd_script (snd (dsp_idle_loop n a s)) = rd_script s"
  by (induction n arbitrary: s) (auto simp add: regmap_read_def split: prod.splits)

lemma send_passes:
  "request_passes cmd ks \<Longrightarrow>
   nau8360_send_dsp_command cmd (Some ks) a s =
     (let cmd_info = nau8360_dsp_cmd_table cmd;
          (ret, s1) = nau8360_massage_to_dsp cmd_info (msg_frag_len cmd_info (set_len ks))
                        (set_kcs_offset ks) (set_len ks)
                        (case set_kcs_data ks of Some d \<Rightarrow> d | None \<Rightarrow> (\<lambda>_. 0)) a s
      in if ret \<noteq> 0 then (ret, get_data ks, s1)
         else nau8360_reply_from_dsp cmd_info (get_len ks) (get_data ks) a s1)"
  unfolding request_passes_def nau8360_send_dsp_command_def
  by (auto simp add: Let_def)

lemma massage_idle_fail:
  "nau8360_dsp_idle a s = (r, s1) \<Longrightarrow> r \<noteq> 0 \<Longrightarrow>
   nau8360_massage_to_dsp ci fl off sz d a s = (r, s1)"
  by (simp add: nau8360_massage_to_dsp_def)


subsection \<open>The words written by the encoder\<close>

lemma wrote_Nil [simp]: "wrote s a [] = s"
  by (simp add: wrote_def)

lemma wrote_write: "snd_soc_component_write a w (wrote s a ws) = wrote s a (ws @ [w])"
  by (simp add: wrote_def snd_soc_component_write_def)

lemma write_wrote: "snd_soc_component_write a w s = wrote s a [w]"
  by (simp add: wrote_def snd_soc_component_write_def)

lemma wrote_wrote: "wrote (wrote s a ws) a vs = wrote s a (ws @ vs)"
  by (simp add: wrote_def)

lemma loop_step:
  "int i < L \<Longrightarrow> data_size \<noteq> 3 \<Longrightarrow>
   setup_data_loop i L d a (data, data_size, fc, s) =
   setup_data_loop (Suc i) L d a (data[i mod 4 := d i], data_size + 1, fc, s)"
  by (subst setup_data_loop.simps) (simp add: NAU8360_DSP_DATA_BYTE_def Let_def)

lemma loop_step_full:
  "int i < L \<Longrightarrow>
   setup_data_loop i L d a (data, 3, fc, s) =
   setup_data_loop (Suc i) L d a
     ([0, 0, 0, 0], 0, fc + 1, snd_soc_component_write a (le32 (data[i mod 4 := d i])) s)"
  by (subst setup_data_loop.simps) (simp add: NAU8360_DSP_DATA_BYTE_def Let_def)

lemma loop_end:
  "\<not> int i < L \<Longrightarrow> setup_data_loop i L d a (data, data_size, fc, s) = (data, data_size, fc, s)"
  by (subst setup_data_loop.simps) simp

lemma mod4_simps:
  "(4 * k) mod 4 = (0::nat)" "Suc (4 * k) mod 4 = 1" "Suc (Suc (4 * k)) mod 4 = 2"
  "Suc (Suc (Suc (4 * k))) mod 4 = 3"
  by presburger+

lemma loop_full:
  assumes "int (4 * k) + 4 \<le> L"
  shows "setup_data_loop (4 * k) L d a ([0, 0, 0, 0], 0, fc, s) =
         setup_data_loop (4 * k + 4) L d a
           ([0, 0, 0, 0], 0, fc + 1, snd_soc_component_write a (setup_word d L k) s)"
proof -
  have s4: "4 * k + 4 = Suc (Suc (Suc (Suc (4 * k))))" by simp
  have s3: "4 * k + 3 = Suc (Suc (Suc (4 * k)))" by simp
  show ?thesis
    using assms
    by (simp add: loop_step loop_step_full mod4_simps s4 s3 setup_word_def padded_def
        del: setup_data_loop.simps)
qed

lemma loop_tail:
  assumes "int (4 * k) \<le> L" "L < int (4 * k) + 4"
  shows "setup_data_loop (4 * k) L d a ([0, 0, 0, 0], 0, fc, s) =
         ([padded d L (4 * k), padded d L (4 * k + 1), padded d L (4 * k + 2), padded d L (4 * k + 3)],
          L - int (4 * k), fc, s)"
proof -
  consider "L = int (4 * k)" | "L = int (4 * k) + 1" | "L = int (4 * k) + 2" | "L = int (4 * k) + 3"
    using assms by linarith
  then show ?thesis
    by cases
      (simp_all add: loop_step loop_end mod4_simps padded_def del: setup_data_loop.simps)
qed

lemma loop_words:
  assumes "int (4 * k) \<le> L" "n = nat (L div 4) - k"
  shows "setup_data_loop (4 * k) L d a ([0, 0, 0, 0], 0, fc, s) =
         (let q = nat (L div 4) in
          ([padded d L (4 * q), padded d L (4 * q + 1), padded d L (4 * q + 2), padded d L (4 * q + 3)],
           L mod 4, fc + int (q - k), wrote s a (map (setup_word d L) [k..<q])))"
  using assms
proof (induction n arbitrary: k fc s)
  case 0
  then have kq: "k = nat (L div 4)" by linarith
  then have b: "L < int (4 * k) + 4" by linarith
  have "0 \<le> L" using 0 by linarith
  then have "0 \<le> L div 4" by simp
  then have "L - int (4 * k) = L mod 4" using kq by (simp add: minus_mult_div_eq_mod)
  then show ?case using loop_tail [OF 0(1) b, of d a fc s] kq by (simp add: Let_def)
next
  case (Suc n)
  then have kq: "Suc k \<le> nat (L div 4)" by linarith
  then have full: "int (4 * k) + 4 \<le> L" by linarith
  have next_le: "int (4 * Suc k) \<le> L" using full by simp
  have n: "n = nat (L div 4) - Suc k" using Suc.prems by simp
  have up: "[k..<nat (L div 4)] = k # [Suc k..<nat (L div 4)]" using kq by (simp add: upt_conv_Cons)
  have e: "4 * k + 4 = 4 * Suc k" by simp
  show ?case
    unfolding loop_full [OF full] e Suc.IH [OF next_le n]
    using kq by (simp add: Let_def write_wrote wrote_wrote up)
qed

lemma preamble_bytes:
  "u8_of NAU8360_DSP_COMM_PREAMBLE = 0xa1" "u8_of (drop_bit 8 NAU8360_DSP_COMM_PREAMBLE) = 0xb2"
  by (simp_all add: u8_of_def NAU8360_DSP_COMM_PREAMBLE_def drop_bit_eq_div)

lemma c_div_nonneg: "0 \<le> a \<Longrightarrow> c_div a 4 = a div 4"
  by (cases "a = 0") (simp_all add: c_div_def)

lemma massage_no_param:
  assumes "nau8360_dsp_idle a s = (0, s1)" "\<not> msg_param ci"
  shows "nau8360_massage_to_dsp ci fl off L d a s = (0, wrote s1 a [preamble_word (cmd_id ci) fl])"
  using assms
  by (simp add: nau8360_massage_to_dsp_def Let_def preamble_bytes preamble_word_def write_wrote)

lemma massage_param_only:
  assumes "nau8360_dsp_idle a s = (0, s1)" "msg_param ci" "\<not> setup_data ci"
  shows "nau8360_massage_to_dsp ci fl off L d a s =
           (if 2 \<noteq> fl then - EPROTO else 0,
            wrote s1 a [preamble_word (cmd_id ci) fl, descriptor_word off L, trailer_word 2 0])"
  using assms
  by (simp add: nau8360_massage_to_dsp_def Let_def preamble_bytes preamble_word_def write_wrote
      wrote_wrote descriptor_word_def trailer_word_def)

lemma setup_words_split:
  assumes "0 \<le> L" "L mod 4 \<noteq> 0"
  shows "setup_words d L = map (setup_word d L) [0..<nat (L div 4)] @ [setup_word d L (nat (L div 4))]"
proof -
  have "(L + 3) div 4 = L div 4 + 1" using assms by presburger
  moreover have "0 \<le> L div 4" using assms by simp
  ultimately have "nat ((L + 3) div 4) = Suc (nat (L div 4))" by simp
  then show ?thesis by (simp add: setup_words_def)
qed

lemma setup_words_exact:
  assumes "0 \<le> L" "L mod 4 = 0"
  shows "setup_words d L = map (setup_word d L) [0..<nat (L div 4)]"
proof -
  have "(L + 3) div 4 = L div 4" using assms by presburger
  then show ?thesis by (simp add: setup_words_def)
qed

lemma massage_setup:
  assumes idle: "nau8360_dsp_idle a s = (0, s1)" and ci: "msg_param ci" "setup_data ci"
    and L: "0 \<le> L"
  shows "nau8360_massage_to_dsp ci fl off L d a s =
           (if 2 + (L + 3) div 4 \<noteq> fl then - EPROTO else 0,
            wrote s1 a ([preamble_word (cmd_id ci) fl, descriptor_word off L] @ setup_words d L @
                        [trailer_word (2 + (L + 3) div 4) (4 * ((L + 3) div 4) - L)]))"
proof -
  have q0: "0 \<le> L div 4" using L by simp
  have lw: "setup_data_loop 0 L d a ([0, 0, 0, 0], 0, fc, s') =
      ([padded d L (4 * nat (L div 4)), padded d L (4 * nat (L div 4) + 1),
        padded d L (4 * nat (L div 4) + 2), padded d L (4 * nat (L div 4) + 3)],
       L mod 4, fc + L div 4, wrote s' a (map (setup_word d L) [0..<nat (L div 4)]))" for fc s'
    using loop_words [of 0 L "nat (L div 4)" d a fc s'] L q0 by (simp add: Let_def)
  show ?thesis
  proof (cases "L mod 4 = 0")
    case True
    then have e: "(L + 3) div 4 = L div 4" by presburger
    have p: "4 * (L div 4) - L = 0" using True by presburger
    show ?thesis
      using idle ci True
      by (simp add: nau8360_massage_to_dsp_def Let_def preamble_bytes preamble_word_def
          write_wrote wrote_wrote descriptor_word_def trailer_word_def lw e p
          setup_words_exact [OF L True] NAU8360_DSP_DATA_BYTE_def)
  next
    case False
    then have e: "(L + 3) div 4 = L div 4 + 1" by presburger
    have r: "0 < L mod 4" "L mod 4 < 4" using False by (simp_all add: le_less)
    have p: "4 * (L div 4) + 4 - L = 4 - L mod 4" by presburger
    have w: "le32 [padded d L (4 * nat (L div 4)), padded d L (4 * nat (L div 4) + 1),
        padded d L (4 * nat (L div 4) + 2), padded d L (4 * nat (L div 4) + 3)] =
        setup_word d L (nat (L div 4))" by (simp add: setup_word_def)
    show ?thesis
      using idle ci r
      by (simp add: nau8360_massage_to_dsp_def Let_def preamble_bytes preamble_word_def
          write_wrote wrote_wrote descriptor_word_def trailer_word_def lw e p setup_word_def
          setup_words_split [OF L False] NAU8360_DSP_DATA_BYTE_def)
  qed
qed

subsection \<open>The decoder only reads\<close>

lemma reads_only_refl [simp]: "reads_only s s"
  by (simp add: reads_only_def)

lemma reads_only_trans: "reads_only s s1 \<Longrightarrow> reads_only s1 s2 \<Longrightarrow> reads_only s s2"
  by (simp add: reads_only_def)

lemma reads_only_read [simp]: "reads_only s (s\<lparr>rd_count := Suc (rd_count s)\<rparr>)"
  by (simp add: reads_only_def)

lemma reads_only_read_trans:
  "reads_only (s\<lparr>rd_count := Suc (rd_count s)\<rparr>) s' \<Longrightarrow> reads_only s s'"
  by (simp add: reads_only_def)

lemma idle_loop_reads_only: "reads_only s (snd (dsp_idle_loop n a s))"
proof (induction n arbitrary: s)
  case 0
  show ?case by simp
next
  case (Suc n)
  show ?case
    using Suc.IH [of "s\<lparr>rd_count := Suc (rd_count s)\<rparr>"]
    by (cases "rd_script s (rd_count s)") (auto simp add: regmap_read_def intro: reads_only_read_trans)
qed

lemma replied_loop_reads_only: "reads_only s (snd (snd (dsp_replied_loop n a s)))"
proof (induction n arbitrary: s)
  case 0
  show ?case by simp
next
  case (Suc n)
  show ?case
    using Suc.IH [of "s\<lparr>rd_count := Suc (rd_count s)\<rparr>"]
    by (cases "rd_script s (rd_count s)")
      (auto simp add: regmap_read_def Let_def intro: reads_only_read_trans)
qed

lemma replied_reads_only: "nau8360_dsp_replied a s = (r, l, s') \<Longrightarrow> reads_only s s'"
  using replied_loop_reads_only [of s NAU8360_DSP_IDLE_RETRY a]
  by (simp add: nau8360_dsp_replied_def)

lemma payload_loop_reads_only:
  "reads_only s (snd (snd (snd (snd (reply_payload_loop n ci a (buf, pos, dc, s))))))"
proof (induction n arbitrary: buf pos dc s)
  case 0
  show ?case by simp
next
  case (Suc n)
  let ?s1 = "s\<lparr>rd_count := Suc (rd_count s)\<rparr>"
  obtain r w where rw: "rd_script s (rd_count s) = (r, w)" by (cases "rd_script s (rd_count s)")
  show ?case
    using Suc.IH [of ?s1] rw
    by (auto simp add: regmap_read_def Let_def split: prod.splits intro: reads_only_read_trans)
qed

lemma reply_data_reads_only:
  "reply_from_dsp_data ci sz data a s = (r, data', s') \<Longrightarrow> reads_only s s'"
proof (cases data)
  case None
  assume "reply_from_dsp_data ci sz data a s = (r, data', s')"
  with None show ?thesis by (simp add: reply_from_dsp_data_def)
next
  case (Some buf)
  assume run: "reply_from_dsp_data ci sz data a s = (r, data', s')"
  obtain r1 fl s1 where rep: "nau8360_dsp_replied a s = (r1, fl, s1)"
    by (cases "nau8360_dsp_replied a s") auto
  have a1: "reads_only s s1" using replied_reads_only [OF rep] .
  obtain r2 buf1 pos dc1 s2 where
    pl: "reply_payload_loop (nat (fl - 1)) ci a (buf, 0, if msg_param ci then sz else 0, s1)
          = (r2, buf1, pos, dc1, s2)"
    by (cases "reply_payload_loop (nat (fl - 1)) ci a (buf, 0, if msg_param ci then sz else 0, s1)") auto
  have a2: "reads_only s1 s2"
    using payload_loop_reads_only [of s1 "nat (fl - 1)" ci a buf 0 "if msg_param ci then sz else 0"] pl
    by simp
  have a3: "reads_only s s2" using a1 a2 by (rule reads_only_trans)
  have a4: "reads_only s (s2\<lparr>rd_count := Suc (rd_count s2)\<rparr>)"
    using a3 by (simp add: reads_only_def)
  show ?thesis
    using run Some rep pl a1 a3 a4
    by (auto simp add: reply_from_dsp_data_def Let_def regmap_read_def split: if_splits prod.splits)
qed

lemma reply_reads_only:
  "nau8360_reply_from_dsp ci sz data a s = (r, data', s') \<Longrightarrow> reads_only s s'"
proof -
  assume run: "nau8360_reply_from_dsp ci sz data a s = (r, data', s')"
  obtain r1 fl s1 where rep: "nau8360_dsp_replied a s = (r1, fl, s1)"
    by (cases "nau8360_dsp_replied a s") auto
  have a1: "reads_only s s1" using replied_reads_only [OF rep] .
  show ?thesis
    using run rep a1
    by (auto simp add: nau8360_reply_from_dsp_def Let_def split: if_splits
        dest: reply_data_reads_only intro: reads_only_trans)
qed

subsection \<open>Bytes, words and fields\<close>

lemma le_bytes_le32: "le_bytes (le32 [b0, b1, b2, b3]) = [b0, b1, b2, b3]"
  apply (simp add: le_bytes_def le32_def)
  apply (intro conjI; rule bit_word_eqI; auto simp add: bit_simps dest: bit_imp_le_length)
  done

lemma le32_le_bytes: "le32 (le_bytes w) = w"
proof (rule bit_word_eqI)
  fix n assume n: "n < LENGTH(32)"
  consider "n < 8" | "8 \<le> n" "n < 16" | "16 \<le> n" "n < 24" | "24 \<le> n" "n < 32"
    using n by fastforce
  then show "bit (le32 (le_bytes w)) n = bit w n"
    by cases (auto simp add: le_bytes_def le32_def bit_simps)
qed

lemma length_le_bytes [simp]: "length (le_bytes w) = 4"
  by (simp add: le_bytes_def)

lemma three_mask: "(3::int) = mask 2"
  by (simp add: mask_eq_exp_minus_1)

lemma xc0_mask: "(0xc0::int) = push_bit 6 (mask 2)"
  by (simp add: mask_eq_exp_minus_1 push_bit_eq_mult)

lemma x30_mask: "(0x30::int) = push_bit 4 (mask 2)"
  by (simp add: mask_eq_exp_minus_1 push_bit_eq_mult)

lemma Suc_Suc_diff2: "2 \<le> n \<Longrightarrow> Suc (Suc (n - 2)) = n"
  by simp

lemma preamble_len_take_bit:
  "(uint (u8_of (push_bit 2 c OR (take_bit 10 f AND 0x3))) AND 0x3) OR
     push_bit 2 (uint (u8_of (drop_bit 2 (take_bit 10 f)))) = take_bit 10 f"
  apply (simp only: three_mask u8_of_def)
  apply (rule bit_eqI)
  apply (auto simp add: bit_simps uint_word_of_int_eq Suc_Suc_diff2)
  done

lemma preamble_id_take_bit:
  "drop_bit 2 (uint (u8_of (push_bit 2 (take_bit 6 c) OR (f AND 0x3)))) = take_bit 6 c"
  apply (simp only: three_mask u8_of_def)
  apply (rule bit_eqI)
  apply (auto simp add: bit_simps uint_word_of_int_eq Suc_Suc_diff2)
  done

lemma trailer_len_take_bit:
  "uint (u8_of (take_bit 10 fc)) OR
     push_bit 2 (uint (u8_of (push_bit 6 (drop_bit 8 (take_bit 10 fc)) OR push_bit 4 (take_bit 2 pad)))
                 AND 0xc0) = take_bit 10 fc"
  apply (simp only: xc0_mask u8_of_def)
  apply (rule bit_eqI)
  apply (auto simp add: bit_simps uint_word_of_int_eq Suc_Suc_diff2)
  done

lemma trailer_pad_take_bit:
  "drop_bit 4 (uint (u8_of (push_bit 6 x OR push_bit 4 (take_bit 2 pad))) AND 0x30) = take_bit 2 pad"
  apply (simp only: x30_mask u8_of_def)
  apply (rule bit_eqI)
  apply (auto simp add: bit_simps uint_word_of_int_eq Suc_Suc_diff2)
  done

lemma u16_take_bit:
  "uint (u8_of (take_bit 16 x)) OR push_bit 8 (uint (u8_of (drop_bit 8 (take_bit 16 x)))) = take_bit 16 x"
  apply (simp only: u8_of_def)
  apply (rule bit_eqI)
  apply (auto simp add: bit_simps uint_word_of_int_eq)
  done

lemma preamble_word_len:
  assumes "0 \<le> fl" "fl < 1024"
  shows "preamble_len (le_bytes (preamble_word c fl)) = fl"
proof -
  have "take_bit 10 fl = fl" using assms by (simp add: take_bit_int_eq_self)
  then show ?thesis
    using preamble_len_take_bit [of c fl]
    by (simp add: preamble_len_def preamble_word_def le_bytes_le32)
qed

lemma preamble_word_id:
  assumes "0 \<le> c" "c < 64"
  shows "preamble_id (le_bytes (preamble_word c fl)) = c"
proof -
  have "take_bit 6 c = c" using assms by (simp add: take_bit_int_eq_self)
  then show ?thesis
    using preamble_id_take_bit [of c fl]
    by (simp add: preamble_id_def preamble_word_def le_bytes_le32)
qed

lemma preamble_word_magic:
  "le_bytes (preamble_word c fl) ! 0 = 0xa1" "le_bytes (preamble_word c fl) ! 1 = 0xb2"
  by (simp_all add: preamble_word_def le_bytes_le32)

lemma trailer_word_len:
  assumes "0 \<le> fc" "fc < 1024" "0 \<le> pad" "pad < 4"
  shows "trailer_len (le_bytes (trailer_word fc pad)) = fc"
proof -
  have "take_bit 10 fc = fc" "take_bit 2 pad = pad" using assms by (simp_all add: take_bit_int_eq_self)
  then show ?thesis
    using trailer_len_take_bit [of fc pad]
    by (simp add: trailer_len_def trailer_word_def le_bytes_le32)
qed

lemma trailer_word_pad:
  assumes "0 \<le> pad" "pad < 4"
  shows "trailer_pad (le_bytes (trailer_word fc pad)) = pad"
proof -
  have "take_bit 2 pad = pad" using assms by (simp add: take_bit_int_eq_self)
  then show ?thesis
    using trailer_pad_take_bit [of "drop_bit 8 fc" pad]
    by (simp add: trailer_pad_def trailer_word_def le_bytes_le32)
qed

lemma descriptor_word_fields:
  assumes "0 \<le> off" "off < 65536" "0 \<le> sz" "sz < 65536"
  shows "uint (le_bytes (descriptor_word off sz) ! 0) OR
           push_bit 8 (uint (le_bytes (descriptor_word off sz) ! 1)) = off"
    and "uint (le_bytes (descriptor_word off sz) ! 2) OR
           push_bit 8 (uint (le_bytes (descriptor_word off sz) ! 3)) = sz"
proof -
  have "take_bit 16 off = off" "take_bit 16 sz = sz" using assms by (simp_all add: take_bit_int_eq_self)
  then show "uint (le_bytes (descriptor_word off sz) ! 0) OR
           push_bit 8 (uint (le_bytes (descriptor_word off sz) ! 1)) = off"
    and "uint (le_bytes (descriptor_word off sz) ! 2) OR
           push_bit 8 (uint (le_bytes (descriptor_word off sz) ! 3)) = sz"
    using u16_take_bit [of off] u16_take_bit [of sz]
    by (simp_all add: descriptor_word_def le_bytes_le32)
qed

lemma setup_words_bytes_upto:
  "concat (map le_bytes (map (setup_word d L) [0..<n])) = map (padded d L) [0..<4 * n]"
proof (induction n)
  case 0
  show ?case by simp
next
  case (Suc n)
  have e: "4 * Suc n = Suc (Suc (Suc (Suc (4 * n))))" by simp
  have "[0..<4 * Suc n] = [0..<4 * n] @ [4 * n, 4 * n + 1, 4 * n + 2, 4 * n + 3]"
    unfolding e by simp
  then show ?case
    using Suc.IH by (simp add: setup_word_def le_bytes_le32)
qed

lemma setup_words_bytes:
  assumes "0 \<le> L"
  shows "concat (map le_bytes (setup_words d L)) =
           map d [0..<nat L] @ replicate (nat (4 * ((L + 3) div 4) - L)) 0"
proof -
  let ?n = "nat ((L + 3) div 4)"
  have n: "int (4 * ?n) = 4 * ((L + 3) div 4)" using assms by simp
  have le: "nat L \<le> 4 * ?n" using assms by linarith
  have split: "[0..<4 * ?n] = [0..<nat L] @ [nat L..<4 * ?n]"
    using le by (metis le_add_diff_inverse upt_add_eq_append zero_le)
  have a: "map (padded d L) [0..<nat L] = map d [0..<nat L]"
    using assms by (auto simp add: padded_def)
  have "map (padded d L) [nat L..<4 * ?n] = map (\<lambda>_. 0) [nat L..<4 * ?n]"
    using assms by (intro map_cong refl) (auto simp add: padded_def)
  then have b: "map (padded d L) [nat L..<4 * ?n] = replicate (4 * ?n - nat L) 0"
    by (simp add: map_replicate_const)
  have c: "4 * ?n - nat L = nat (4 * ((L + 3) div 4) - L)" using assms by linarith
  show ?thesis
    unfolding setup_words_def setup_words_bytes_upto
    by (subst split) (simp add: a b c)
qed

lemma length_setup_words: "0 \<le> L \<Longrightarrow> int (length (setup_words d L)) = (L + 3) div 4"
  by (simp add: setup_words_def)

subsection \<open>The idle device and the fragment count of a message\<close>

lemma idle_now:
  "rd_script s (rd_count s) = (0, NAU8360_DSP_COMM_IDLE_WORD) \<Longrightarrow>
   nau8360_dsp_idle a s = (0, s\<lparr>rd_count := Suc (rd_count s)\<rparr>)"
  using idle_loop_found [of s 0 10 a]
  by (simp add: nau8360_dsp_idle_def NAU8360_DSP_IDLE_RETRY_def reads_ok_not_idle_def)

lemma idle_dev_idle: "nau8360_dsp_idle a idle_dev = (0, idle_dev\<lparr>rd_count := 1\<rparr>)"
  using idle_now [of idle_dev a]
  by (simp add: idle_dev_def dev_of_def script_def NAU8360_DSP_COMM_IDLE_WORD_def)

lemma s32_s32_diff: "s32 (s32 x - y) = s32 (x - y)"
  by (simp add: s32_def wi_hom_syms)

lemma msg_frag_len_setup:
  assumes "msg_param ci" "setup_data ci" "0 \<le> L" "L < 2147483645"
  shows "msg_frag_len ci L = 2 + (L + 3) div 4"
proof -
  have "s32 (s32 (L + 4) - 1) = s32 (L + 3)"
    using s32_s32_diff [of "L + 4" 1] by (simp add: algebra_simps)
  also have "\<dots> = L + 3" using assms(3,4) by (simp add: s32_id)
  finally show ?thesis
    using assms by (simp add: msg_frag_len_def NAU8360_DSP_DATA_BYTE_def c_div_nonneg)
qed

lemma msg_frag_len_param: "msg_param ci \<Longrightarrow> \<not> setup_data ci \<Longrightarrow> msg_frag_len ci L = 2"
  by (simp add: msg_frag_len_def)

lemma msg_frag_len_none: "\<not> msg_param ci \<Longrightarrow> \<not> setup_data ci \<Longrightarrow> msg_frag_len ci L = 0"
  by (simp add: msg_frag_len_def)

lemma pad_range: "0 \<le> 4 * (((L::int) + 3) div 4) - L" "4 * (((L::int) + 3) div 4) - L < 4"
  by presburger+


subsection \<open>The command table, and a command without parameter\<close>

lemma table_cmd_id: "nau8360_dsp_commands c \<Longrightarrow> cmd_id (nau8360_dsp_cmd_table c) = c"
  by (auto simp add: nau8360_dsp_commands_def nau8360_dsp_cmd_table_def mk_cmd_def)

lemma table_setup_data:
  "setup_data (nau8360_dsp_cmd_table c) \<longleftrightarrow> c = NAU8360_DSP_CMD_SET_KCS_SETUP"
  by (simp add: nau8360_dsp_cmd_table_def mk_cmd_def NAU8360_DSP_CMD_SET_KCS_SETUP_def
      NAU8360_DSP_CMD_GET_COUNTER_def NAU8360_DSP_CMD_GET_FRAME_STATUS_def
      NAU8360_DSP_CMD_GET_REVISION_def NAU8360_DSP_CMD_GET_KCS_RSLTS_def
      NAU8360_DSP_CMD_GET_KCS_SETUP_def NAU8360_DSP_CMD_CLK_STOP_def
      NAU8360_DSP_CMD_CLK_RESTART_def)

lemma table_msg_param:
  "msg_param (nau8360_dsp_cmd_table c) \<longleftrightarrow>
     c = NAU8360_DSP_CMD_GET_KCS_RSLTS \<or> c = NAU8360_DSP_CMD_GET_KCS_SETUP \<or>
     c = NAU8360_DSP_CMD_SET_KCS_SETUP"
  by (simp add: nau8360_dsp_cmd_table_def mk_cmd_def NAU8360_DSP_CMD_SET_KCS_SETUP_def
      NAU8360_DSP_CMD_GET_COUNTER_def NAU8360_DSP_CMD_GET_FRAME_STATUS_def
      NAU8360_DSP_CMD_GET_REVISION_def NAU8360_DSP_CMD_GET_KCS_RSLTS_def
      NAU8360_DSP_CMD_GET_KCS_SETUP_def NAU8360_DSP_CMD_CLK_STOP_def
      NAU8360_DSP_CMD_CLK_RESTART_def)

lemma table_reply_data:
  "reply_data (nau8360_dsp_cmd_table c) \<longleftrightarrow>
     c = NAU8360_DSP_CMD_GET_COUNTER \<or> c = NAU8360_DSP_CMD_GET_FRAME_STATUS \<or>
     c = NAU8360_DSP_CMD_GET_REVISION \<or> c = NAU8360_DSP_CMD_GET_KCS_RSLTS \<or>
     c = NAU8360_DSP_CMD_GET_KCS_SETUP \<or> c = NAU8360_DSP_CMD_SET_KCS_SETUP"
  by (simp add: nau8360_dsp_cmd_table_def mk_cmd_def NAU8360_DSP_CMD_SET_KCS_SETUP_def
      NAU8360_DSP_CMD_GET_COUNTER_def NAU8360_DSP_CMD_GET_FRAME_STATUS_def
      NAU8360_DSP_CMD_GET_REVISION_def NAU8360_DSP_CMD_GET_KCS_RSLTS_def
      NAU8360_DSP_CMD_GET_KCS_SETUP_def NAU8360_DSP_CMD_CLK_STOP_def
      NAU8360_DSP_CMD_CLK_RESTART_def)

lemma commands_range: "nau8360_dsp_commands c \<Longrightarrow> 0 \<le> c \<and> c < 64"
  by (auto simp add: nau8360_dsp_commands_def NAU8360_DSP_CMD_SET_KCS_SETUP_def
      NAU8360_DSP_CMD_GET_COUNTER_def NAU8360_DSP_CMD_GET_FRAME_STATUS_def
      NAU8360_DSP_CMD_GET_REVISION_def NAU8360_DSP_CMD_GET_KCS_RSLTS_def
      NAU8360_DSP_CMD_GET_KCS_SETUP_def NAU8360_DSP_CMD_CLK_STOP_def
      NAU8360_DSP_CMD_CLK_RESTART_def)

lemma table_no_param_no_setup:
  "\<not> msg_param (nau8360_dsp_cmd_table c) \<Longrightarrow> \<not> setup_data (nau8360_dsp_cmd_table c)"
  by (simp add: table_msg_param table_setup_data)

lemma idle_reads_only: "nau8360_dsp_idle a s = (r, s1) \<Longrightarrow> reads_only s s1"
  using idle_loop_reads_only [of s NAU8360_DSP_IDLE_RETRY a]
  by (simp add: nau8360_dsp_idle_def)

lemma wr_log_wrote: "wr_log (wrote s a ws) = wr_log s @ map (Pair a) ws"
  by (simp add: wrote_def)

lemma send_no_param_writes:
  assumes pass: "request_passes cmd ks" and np: "\<not> msg_param (nau8360_dsp_cmd_table cmd)"
    and idle: "nau8360_dsp_idle a s = (0, s1)"
  shows "wr_log (snd (snd (nau8360_send_dsp_command cmd (Some ks) a s))) =
           wr_log s @ [(a, preamble_word cmd 0)]"
proof -
  let ?ci = "nau8360_dsp_cmd_table cmd"
  have c: "nau8360_dsp_commands cmd" using pass by (simp add: request_passes_def)
  have fl: "msg_frag_len ?ci (set_len ks) = 0"
    using np table_no_param_no_setup [OF np] by (simp add: msg_frag_len_none)
  have m: "nau8360_massage_to_dsp ?ci 0 off L d a s = (0, wrote s1 a [preamble_word cmd 0])" for off L d
    using massage_no_param [OF idle np] table_cmd_id [OF c] by simp
  obtain r data' s' where rep:
    "nau8360_reply_from_dsp ?ci (get_len ks) (get_data ks) a (wrote s1 a [preamble_word cmd 0]) =
       (r, data', s')"
    by (cases "nau8360_reply_from_dsp ?ci (get_len ks) (get_data ks) a (wrote s1 a [preamble_word cmd 0])")
      auto
  have "wr_log s' = wr_log (wrote s1 a [preamble_word cmd 0])"
    using reply_reads_only [OF rep] by (simp add: reads_only_def)
  moreover have "wr_log s1 = wr_log s"
    using idle_reads_only [OF idle] by (simp add: reads_only_def)
  ultimately have "wr_log s' = wr_log s @ [(a, preamble_word cmd 0)]"
    by (simp add: wr_log_wrote)
  then show ?thesis
    by (simp add: send_passes [OF pass] Let_def fl m rep)
qed

lemma preamble_word_no_frag:
  "le_bytes (preamble_word c 0) = [0xa1, 0xb2, u8_of (push_bit 2 c), 0]"
  by (simp add: preamble_word_def le_bytes_le32 u8_of_def)

lemma ks_get4_passes: "request_passes NAU8360_DSP_CMD_GET_COUNTER ks_get4"
  by (simp add: request_passes_def nau8360_dsp_commands_def table_msg_param table_setup_data
      table_reply_data ks_get4_def NAU8360_DSP_CMD_GET_COUNTER_def NAU8360_DSP_CMD_GET_KCS_SETUP_def
      NAU8360_DSP_CMD_GET_KCS_RSLTS_def NAU8360_DSP_CMD_SET_KCS_SETUP_def)

lemma get_counter_no_param: "\<not> msg_param (nau8360_dsp_cmd_table NAU8360_DSP_CMD_GET_COUNTER)"
  by (simp add: table_msg_param NAU8360_DSP_CMD_GET_COUNTER_def NAU8360_DSP_CMD_GET_KCS_SETUP_def
      NAU8360_DSP_CMD_GET_KCS_RSLTS_def NAU8360_DSP_CMD_SET_KCS_SETUP_def)


subsection \<open>Reading a message frame\<close>

lemma preamble_word_magic1: "le_bytes (preamble_word c fl) ! Suc 0 = 0xb2"
  by (simp add: preamble_word_def le_bytes_le32)

lemma descriptor_word_decode:
  assumes "0 \<le> off" "off < 65536" "0 \<le> sz" "sz < 65536"
  shows "descriptor_offset (le_bytes (descriptor_word off sz)) = off"
    and "descriptor_size (le_bytes (descriptor_word off sz)) = sz"
  using descriptor_word_fields [OF assms]
  by (simp_all add: descriptor_offset_def descriptor_size_def)

lemma snd_Pair_comp: "map (snd \<circ> Pair a) ws = ws"
  by (simp add: comp_def)

lemma message_words_no_param:
  assumes "nau8360_dsp_commands c" "\<not> msg_param (nau8360_dsp_cmd_table c)"
  shows "message_words c off sz d = [preamble_word c 0]"
  using massage_no_param [OF idle_dev_idle assms(2), where a = 0] table_cmd_id [OF assms(1)]
    table_no_param_no_setup [OF assms(2)] assms(2)
  by (simp add: message_words_def msg_frag_len_none wr_log_wrote idle_dev_def dev_of_def)

lemma message_words_param:
  assumes "nau8360_dsp_commands c" "msg_param (nau8360_dsp_cmd_table c)"
    "\<not> setup_data (nau8360_dsp_cmd_table c)"
  shows "message_words c off sz d = [preamble_word c 2, descriptor_word off sz, trailer_word 2 0]"
  using massage_param_only [OF idle_dev_idle assms(2,3), where a = 0] table_cmd_id [OF assms(1)]
    assms(2,3)
  by (simp add: message_words_def msg_frag_len_param wr_log_wrote idle_dev_def dev_of_def)

lemma message_words_setup:
  assumes "nau8360_dsp_commands c" "msg_param (nau8360_dsp_cmd_table c)"
    "setup_data (nau8360_dsp_cmd_table c)" "0 \<le> sz" "sz < 2147483645"
  shows "message_words c off sz d =
           [preamble_word c (2 + (sz + 3) div 4), descriptor_word off sz] @ setup_words d sz @
           [trailer_word (2 + (sz + 3) div 4) (4 * ((sz + 3) div 4) - sz)]"
  using massage_setup [OF idle_dev_idle assms(2,3,4), where a = 0] table_cmd_id [OF assms(1)]
    assms(2,3,4) msg_frag_len_setup [OF assms(2-5)]
  by (simp add: message_words_def wr_log_wrote idle_dev_def dev_of_def snd_Pair_comp)

lemma decode_no_param:
  assumes "nau8360_dsp_commands c" "\<not> msg_param (nau8360_dsp_cmd_table c)"
  shows "decode_message [preamble_word c n] =
           Some \<lparr>opcode = c, param = None, payload = [], pad_len = 0\<rparr>"
  using assms commands_range [OF assms(1)]
  by (simp add: decode_message_def Let_def preamble_word_magic preamble_word_magic1 preamble_word_id)

lemma decode_param:
  assumes c: "nau8360_dsp_commands c" "msg_param (nau8360_dsp_cmd_table c)"
    and off: "0 \<le> off" "off < 65536" and sz: "0 \<le> sz" "sz < 65536"
    and n: "int (length ws) + 2 < 1024" and pad: "0 \<le> pad" "pad < 4"
      "pad \<le> 4 * int (length ws)"
  shows "decode_message ([preamble_word c (int (length ws) + 2), descriptor_word off sz] @ ws @
                         [trailer_word (int (length ws) + 2) pad]) =
           Some \<lparr>opcode = c, param = Some (off, sz),
                 payload = take (4 * length ws - nat pad) (concat (map le_bytes ws)),
                 pad_len = pad\<rparr>"
proof -
  have len: "length (concat (map le_bytes ws)) = 4 * length ws"
    by (induction ws) simp_all
  have fl: "0 \<le> int (length ws) + 2" by simp
  show ?thesis
    using c commands_range [OF c(1)] n pad
    by (simp add: decode_message_def Let_def preamble_word_magic preamble_word_magic1 preamble_word_id
        preamble_word_len [OF fl n] trailer_word_len [OF fl n pad(1,2)] trailer_word_pad [OF pad(1,2)]
        descriptor_word_decode [OF off sz] len)
qed

lemma set_kcs_setup_flags:
  "nau8360_dsp_commands NAU8360_DSP_CMD_SET_KCS_SETUP"
  "msg_param (nau8360_dsp_cmd_table NAU8360_DSP_CMD_SET_KCS_SETUP)"
  "setup_data (nau8360_dsp_cmd_table NAU8360_DSP_CMD_SET_KCS_SETUP)"
  "reply_data (nau8360_dsp_cmd_table NAU8360_DSP_CMD_SET_KCS_SETUP)"
  by (simp_all add: nau8360_dsp_commands_def table_msg_param table_setup_data table_reply_data)


subsection \<open>Waiting for the reply preamble\<close>

lemma reads_ok_no_preamble_Suc:
  assumes "reads_ok_no_preamble s (Suc m)"
  shows "fst (rd_script s (rd_count s)) = 0"
    and "\<not> is_preamble (le_bytes (snd (rd_script s (rd_count s))))"
    and "reads_ok_no_preamble (s\<lparr>rd_count := Suc (rd_count s)\<rparr>) m"
proof -
  from assms show "fst (rd_script s (rd_count s)) = 0"
    and "\<not> is_preamble (le_bytes (snd (rd_script s (rd_count s))))"
    unfolding reads_ok_no_preamble_def by (metis add.right_neutral zero_less_Suc)+
  from assms show "reads_ok_no_preamble (s\<lparr>rd_count := Suc (rd_count s)\<rparr>) m"
    unfolding reads_ok_no_preamble_def by (auto simp flip: add_Suc_right)
qed

lemma replied_loop_found:
  "reads_ok_no_preamble s m \<Longrightarrow> rd_script s (rd_count s + m) = (0, w) \<Longrightarrow>
   is_preamble (le_bytes w) \<Longrightarrow> m < n \<Longrightarrow>
   dsp_replied_loop n a s =
     (reply_status (preamble_id (le_bytes w)), preamble_len (le_bytes w),
      s\<lparr>rd_count := rd_count s + m + 1\<rparr>)"
proof (induction n arbitrary: s m)
  case 0
  then show ?case by simp
next
  case (Suc n)
  show ?case
  proof (cases m)
    case 0
    with Suc.prems show ?thesis
      by (simp add: regmap_read_def reply_status_def Let_def)
  next
    case (Suc m')
    note f = reads_ok_no_preamble_Suc [OF Suc.prems(1) [unfolded Suc]]
    let ?s1 = "s\<lparr>rd_count := Suc (rd_count s)\<rparr>"
    have b: "rd_script ?s1 (rd_count ?s1 + m') = (0, w)"
      using Suc.prems(2) Suc by simp
    have c: "m' < n" using Suc.prems(4) Suc by simp
    from Suc.IH [OF f(3) b Suc.prems(3) c] f(1,2) Suc show ?thesis
      by (cases "rd_script s (rd_count s)") (simp add: regmap_read_def Let_def)
  qed
qed

lemma replied_loop_timeout:
  "reads_ok_no_preamble s n \<Longrightarrow>
   dsp_replied_loop n a s = (- EIO, 0, s\<lparr>rd_count := rd_count s + n\<rparr>)"
proof (induction n arbitrary: s)
  case 0
  show ?case by simp
next
  case (Suc n)
  note f = reads_ok_no_preamble_Suc [OF Suc.prems]
  from Suc.IH [OF f(3)] f(1,2) show ?case
    by (cases "rd_script s (rd_count s)") (simp add: regmap_read_def Let_def)
qed

lemma replied_found:
  "m < 10 \<Longrightarrow> reads_ok_no_preamble s m \<Longrightarrow> rd_script s (rd_count s + m) = (0, w) \<Longrightarrow>
   is_preamble (le_bytes w) \<Longrightarrow>
   nau8360_dsp_replied a s =
     (reply_status (preamble_id (le_bytes w)), preamble_len (le_bytes w),
      s\<lparr>rd_count := rd_count s + m + 1\<rparr>)"
  using replied_loop_found [of s m w 10 a]
  by (simp add: nau8360_dsp_replied_def NAU8360_DSP_IDLE_RETRY_def)

lemma replied_timeout:
  "reads_ok_no_preamble s 10 \<Longrightarrow>
   nau8360_dsp_replied a s = (- EIO, 0, s\<lparr>rd_count := rd_count s + 10\<rparr>)"
  using replied_loop_timeout [of s 10 a]
  by (simp add: nau8360_dsp_replied_def NAU8360_DSP_IDLE_RETRY_def)

lemma preamble_id_range: "0 \<le> preamble_id b \<and> preamble_id b \<le> 63"
proof -
  have "uint (b ! 2) < 256" using uint_bounded [of "b ! 2"] by simp
  moreover have "0 \<le> uint (b ! 2)" by simp
  ultimately have "0 \<le> uint (b ! 2) div 4 \<and> uint (b ! 2) div 4 \<le> 63"
    by presburger
  then show ?thesis
    by (simp add: preamble_id_def drop_bit_eq_div)
qed

lemma reply_error_early:
  assumes "nau8360_dsp_replied a s = (r, fl, s1)" "r \<noteq> 0"
  shows "nau8360_reply_from_dsp ci sz (Some buf) a s = (r, Some buf, s1)"
  using assms by (simp add: nau8360_reply_from_dsp_def reply_from_dsp_data_def)

lemma send_no_param_run:
  assumes pass: "request_passes cmd ks" and np: "\<not> msg_param (nau8360_dsp_cmd_table cmd)"
    and idle: "nau8360_dsp_idle a s = (0, s1)"
  shows "nau8360_massage_to_dsp (nau8360_dsp_cmd_table cmd)
            (msg_frag_len (nau8360_dsp_cmd_table cmd) (set_len ks)) off L d a s =
           (0, wrote s1 a [preamble_word cmd 0])"
    and "nau8360_send_dsp_command cmd (Some ks) a s =
           nau8360_reply_from_dsp (nau8360_dsp_cmd_table cmd) (get_len ks) (get_data ks) a
             (wrote s1 a [preamble_word cmd 0])"
proof -
  let ?ci = "nau8360_dsp_cmd_table cmd"
  have c: "nau8360_dsp_commands cmd" using pass by (simp add: request_passes_def)
  have fl: "msg_frag_len ?ci (set_len ks) = 0"
    using np table_no_param_no_setup [OF np] by (simp add: msg_frag_len_none)
  have m: "nau8360_massage_to_dsp ?ci 0 off L d a s = (0, wrote s1 a [preamble_word cmd 0])" for off L d
    using massage_no_param [OF idle np] table_cmd_id [OF c] by simp
  show "nau8360_massage_to_dsp ?ci (msg_frag_len ?ci (set_len ks)) off L d a s =
           (0, wrote s1 a [preamble_word cmd 0])"
    using m fl by simp
  show "nau8360_send_dsp_command cmd (Some ks) a s =
           nau8360_reply_from_dsp ?ci (get_len ks) (get_data ks) a (wrote s1 a [preamble_word cmd 0])"
    by (simp add: send_passes [OF pass] Let_def fl m)
qed

lemma is_preamble_bytes: "is_preamble (le_bytes (le32 [0xa1, 0xb2, x, y]))"
  by (simp add: le_bytes_le32 is_preamble_def NAU8360_DSP_COMM_PREAMBLE_def drop_bit_eq_div)

lemma reads_ok_no_preamble_0 [simp]: "reads_ok_no_preamble s 0"
  by (simp add: reads_ok_no_preamble_def)

lemma ks_get4_fields: "get_len ks_get4 = 4" "get_data ks_get4 = Some (\<lambda>_. 0)"
  by (simp_all add: ks_get4_def)


subsection \<open>The payload words and the trailer\<close>

lemma reads_ok_0 [simp]: "reads_ok s 0"
  by (simp add: reads_ok_def)

lemma reads_ok_Suc:
  assumes "reads_ok s (Suc n)"
  shows "fst (rd_script s (rd_count s)) = 0" and "reads_ok (s\<lparr>rd_count := Suc (rd_count s)\<rparr>) n"
proof -
  from assms show "fst (rd_script s (rd_count s)) = 0"
    unfolding reads_ok_def by (metis add.right_neutral zero_less_Suc)
  from assms show "reads_ok (s\<lparr>rd_count := Suc (rd_count s)\<rparr>) n"
    unfolding reads_ok_def by (auto simp flip: add_Suc_right)
qed

lemma store32_overwrite: "store32 (store32 buf pos w1) pos w2 = store32 buf pos w2"
  by (rule ext) (simp add: store32_def Let_def)

lemma store32_frame: "i < pos \<or> pos + 4 \<le> i \<Longrightarrow> store32 buf pos w i = buf i"
  by (auto simp add: store32_def Let_def)

lemma payload_loop_step_fixed:
  assumes "\<not> msg_param ci" "rd_script s (rd_count s) = (0, w)"
  shows "reply_payload_loop (Suc n) ci a (buf, pos, dc, s) =
         reply_payload_loop n ci a (store32 buf pos w, pos, dc, s\<lparr>rd_count := Suc (rd_count s)\<rparr>)"
  using assms by (simp add: regmap_read_def le32_le_bytes)

lemma payload_loop_step_fail:
  assumes "rd_script s (rd_count s) = (r, w)" "r \<noteq> 0"
  shows "reply_payload_loop (Suc n) ci a (buf, pos, dc, s) =
         (r, buf, pos, dc, s\<lparr>rd_count := Suc (rd_count s)\<rparr>)"
  using assms by (simp add: regmap_read_def)

lemma payload_loop_step_word:
  assumes "msg_param ci" "rd_script s (rd_count s) = (0, w)" "4 \<le> dc"
  shows "reply_payload_loop (Suc n) ci a (buf, pos, dc, s) =
         reply_payload_loop n ci a
           (store32 buf pos w, pos + 4, dc - 4, s\<lparr>rd_count := Suc (rd_count s)\<rparr>)"
  using assms by (simp add: regmap_read_def NAU8360_DSP_DATA_BYTE_def)

lemma payload_loop_step_bytes:
  assumes "msg_param ci" "rd_script s (rd_count s) = (0, w)" "dc < 4"
  shows "reply_payload_loop (Suc n) ci a (buf, pos, dc, s) =
         (0, fst (reply_copy_loop 0 (le_bytes w) buf pos dc), pos,
          snd (reply_copy_loop 0 (le_bytes w) buf pos dc), s\<lparr>rd_count := Suc (rd_count s)\<rparr>)"
  using assms by (simp add: regmap_read_def NAU8360_DSP_DATA_BYTE_def split: prod.splits)

lemma payload_loop_fixed:
  assumes "\<not> msg_param ci"
  shows "reads_ok s n \<Longrightarrow>
         reply_payload_loop n ci a (buf, pos, dc, s) =
           (0, if n = 0 then buf else store32 buf pos (snd (rd_script s (rd_count s + n - 1))),
            pos, dc, s\<lparr>rd_count := rd_count s + n\<rparr>)"
proof (induction n arbitrary: buf s)
  case 0
  show ?case by simp
next
  case (Suc n)
  note f = reads_ok_Suc [OF Suc.prems]
  obtain w where w: "rd_script s (rd_count s) = (0, w)"
    using f(1) by (cases "rd_script s (rd_count s)") simp
  show ?case
    unfolding payload_loop_step_fixed [OF assms w] Suc.IH [OF f(2)]
    using w by (simp add: store32_overwrite)
qed

lemma payload_loop_fixed_frame:
  assumes "\<not> msg_param ci"
  shows "reply_payload_loop n ci a (buf, pos, dc, s) = (r, buf', pos', dc', s') \<Longrightarrow>
         pos' = pos \<and> dc' = dc \<and> (\<forall>i. i < pos \<or> pos + 4 \<le> i \<longrightarrow> buf' i = buf i)"
proof (induction n arbitrary: buf s)
  case 0
  then show ?case by simp
next
  case (Suc n)
  obtain r0 w where w: "rd_script s (rd_count s) = (r0, w)"
    by (cases "rd_script s (rd_count s)")
  show ?case
  proof (cases "r0 = 0")
    case True
    from Suc.prems have "reply_payload_loop n ci a
        (store32 buf pos w, pos, dc, s\<lparr>rd_count := Suc (rd_count s)\<rparr>) = (r, buf', pos', dc', s')"
      using payload_loop_step_fixed [OF assms w [unfolded True], of n a buf pos dc]
      by (simp del: reply_payload_loop.simps)
    from Suc.IH [OF this] show ?thesis by (simp add: store32_frame)
  next
    case False
    from Suc.prems show ?thesis
      using payload_loop_step_fail [OF w False, of n ci a buf pos dc]
      by (simp del: reply_payload_loop.simps)
  qed
qed

lemma copy_loop_step_wrap:
  "reply_copy_loop j b buf pos dc =
     (if j < 4 then
        (if s32 (dc - 1) \<le> 0 then (buf(pos + j := b ! j), s32 (dc - 1))
         else reply_copy_loop (Suc j) b (buf(pos + j := b ! j)) pos (s32 (dc - 1)))
      else (buf, dc))"
  by (subst reply_copy_loop.simps) (simp add: NAU8360_DSP_DATA_BYTE_def Let_def)

lemma copy_loop_step:
  assumes "- 2147483648 < dc" "dc \<le> 2147483648"
  shows "reply_copy_loop j b buf pos dc =
     (if j < 4 then
        (if dc - 1 \<le> 0 then (buf(pos + j := b ! j), dc - 1)
         else reply_copy_loop (Suc j) b (buf(pos + j := b ! j)) pos (dc - 1))
      else (buf, dc))"
proof -
  have "s32 (dc - 1) = dc - 1" using assms by (simp add: s32_id)
  then show ?thesis using copy_loop_step_wrap [of j b buf pos dc] by simp
qed

lemma copy_loop_count:
  assumes "0 < dc" "dc < 4"
  shows "snd (reply_copy_loop 0 b buf pos dc) = 0"
proof -
  consider "dc = 1" | "dc = 2" | "dc = 3" using assms by linarith
  then show ?thesis
    by cases
      (simp_all add: copy_loop_step [of _ 0] copy_loop_step [of _ "Suc 0"]
        copy_loop_step [of _ "Suc (Suc 0)"])
qed

lemma payload_loop_param_count:
  assumes "msg_param ci"
  shows "0 \<le> dc \<Longrightarrow> n = nat ((dc + 3) div 4) \<Longrightarrow>
         reply_payload_loop n ci a (buf, pos, dc, s) = (0, buf', pos', dc', s') \<Longrightarrow> dc' = 0"
proof (induction n arbitrary: buf pos dc s)
  case 0
  then have "dc = 0" by linarith
  with 0 show ?case by simp
next
  case (Suc n)
  obtain r0 w where w: "rd_script s (rd_count s) = (r0, w)"
    by (cases "rd_script s (rd_count s)")
  have r0: "r0 = 0"
  proof (rule ccontr)
    assume nz: "r0 \<noteq> 0"
    have "reply_payload_loop (Suc n) ci a (buf, pos, dc, s) =
        (r0, buf, pos, dc, s\<lparr>rd_count := Suc (rd_count s)\<rparr>)"
      by (rule payload_loop_step_fail [OF w nz])
    with Suc.prems(3) nz show False by (simp del: reply_payload_loop.simps)
  qed
  have pos: "0 < dc" using Suc.prems(1,2) by linarith
  show ?case
  proof (cases "4 \<le> dc")
    case True
    have n: "n = nat ((dc - 4 + 3) div 4)" using Suc.prems(2) True by linarith
    have run: "reply_payload_loop n ci a
        (store32 buf pos w, pos + 4, dc - 4, s\<lparr>rd_count := Suc (rd_count s)\<rparr>) =
        (0, buf', pos', dc', s')"
      using Suc.prems(3) payload_loop_step_word [OF assms w [unfolded r0] True, of n a buf pos]
      by (simp del: reply_payload_loop.simps)
    show ?thesis
      by (rule Suc.IH [OF _ n run]) (use True in simp)
  next
    case False
    then have lt: "dc < 4" by simp
    from Suc.prems(3) [unfolded payload_loop_step_bytes [OF assms w [unfolded r0] lt]]
    have "dc' = snd (reply_copy_loop 0 (le_bytes w) buf pos dc)"
      by auto
    then show ?thesis using copy_loop_count [OF pos lt] by simp
  qed
qed

lemma reply_trailer_check:
  assumes rd: "reply_data ci"
    and rep: "nau8360_dsp_replied a s = (0, fl, s1)" and fl: "fl \<noteq> 0"
    and pl: "reply_payload_loop (nat (fl - 1)) ci a (buf, 0, if msg_param ci then sz else 0, s1) =
               (0, buf1, pos, dc, s2)"
    and tr: "rd_script s2 (rd_count s2) = (0, t)"
  shows "nau8360_reply_from_dsp ci sz (Some buf) a s =
           (if trailer_len (le_bytes t) \<noteq> fl \<or>
               trailer_pad (le_bytes t) \<noteq>
                 (if msg_param ci then s32 ((fl - 1) * 4 - s32 (sz - dc)) else 0)
            then - EPROTO else 0,
            Some buf1, s2\<lparr>rd_count := Suc (rd_count s2)\<rparr>)"
  using assms
  by (simp add: nau8360_reply_from_dsp_def reply_from_dsp_data_def Let_def regmap_read_def
      NAU8360_DSP_DATA_BYTE_def)


lemma replied_first:
  assumes "rd_script s (rd_count s) = (0, le32 [0xa1, 0xb2, x, y])" "drop_bit 2 (uint x) = 0"
  shows "nau8360_dsp_replied a s =
           (0, preamble_len [0xa1, 0xb2, x, y], s\<lparr>rd_count := Suc (rd_count s)\<rparr>)"
  using replied_found [of 0 s "le32 [0xa1, 0xb2, x, y]" a] assms is_preamble_bytes [of x y]
  by (simp add: le_bytes_le32 reply_status_def preamble_id_def NAU8360_DSP_REPLY_OK_def)

lemma get_kcs_setup_flags:
  "nau8360_dsp_commands NAU8360_DSP_CMD_GET_KCS_SETUP"
  "msg_param (nau8360_dsp_cmd_table NAU8360_DSP_CMD_GET_KCS_SETUP)"
  "\<not> setup_data (nau8360_dsp_cmd_table NAU8360_DSP_CMD_GET_KCS_SETUP)"
  "reply_data (nau8360_dsp_cmd_table NAU8360_DSP_CMD_GET_KCS_SETUP)"
  by (simp_all add: nau8360_dsp_commands_def table_msg_param table_setup_data table_reply_data
      NAU8360_DSP_CMD_GET_KCS_SETUP_def NAU8360_DSP_CMD_SET_KCS_SETUP_def)

lemma eproto_apart: "- EPROTO \<noteq> - EIO" "- EPROTO \<noteq> reply_status (preamble_id b)"
  using preamble_id_range [of b] by (simp_all add: EPROTO_def EIO_def reply_status_def)

lemma script_ok: "list_all (\<lambda>x. fst x = 0) xs \<Longrightarrow> fst (script xs n) = 0"
  by (simp add: script_def list_all_length)

lemma reads_ok_script: "list_all (\<lambda>x. fst x = 0) xs \<Longrightarrow> rd_script s = script xs \<Longrightarrow> reads_ok s n"
  by (simp add: reads_ok_def script_ok)

lemma get_counter_flags:
  "nau8360_dsp_commands NAU8360_DSP_CMD_GET_COUNTER"
  "\<not> msg_param (nau8360_dsp_cmd_table NAU8360_DSP_CMD_GET_COUNTER)"
  "\<not> setup_data (nau8360_dsp_cmd_table NAU8360_DSP_CMD_GET_COUNTER)"
  "reply_data (nau8360_dsp_cmd_table NAU8360_DSP_CMD_GET_COUNTER)"
  by (simp_all add: nau8360_dsp_commands_def table_msg_param table_setup_data table_reply_data
      NAU8360_DSP_CMD_GET_COUNTER_def NAU8360_DSP_CMD_GET_KCS_SETUP_def
      NAU8360_DSP_CMD_SET_KCS_SETUP_def NAU8360_DSP_CMD_GET_KCS_RSLTS_def)

lemma reply_data_fixed_frame:
  assumes np: "\<not> msg_param ci"
    and run: "reply_from_dsp_data ci sz (Some buf) a s = (r, data', s')"
  shows "\<exists>buf'. data' = Some buf' \<and> (\<forall>i\<ge>4. buf' i = buf i)"
proof -
  obtain r1 fl s1 where rep: "nau8360_dsp_replied a s = (r1, fl, s1)"
    by (cases "nau8360_dsp_replied a s") auto
  obtain r2 buf1 pos dc1 s2 where
    pl: "reply_payload_loop (nat (fl - 1)) ci a (buf, 0, 0, s1) = (r2, buf1, pos, dc1, s2)"
    by (cases "reply_payload_loop (nat (fl - 1)) ci a (buf, 0, 0, s1)") auto
  have fr: "\<forall>i\<ge>4. buf1 i = buf i"
    using payload_loop_fixed_frame [OF np pl] by simp
  show ?thesis
    using run rep pl fr np
    by (auto simp add: reply_from_dsp_data_def Let_def regmap_read_def split: if_splits prod.splits)
qed

lemma reply_fixed_frame:
  assumes np: "\<not> msg_param ci"
    and run: "nau8360_reply_from_dsp ci sz (Some buf) a s = (r, data', s')"
  shows "\<exists>buf'. data' = Some buf' \<and> (\<forall>i\<ge>4. buf' i = buf i)"
proof -
  obtain r1 fl s1 where rep: "nau8360_dsp_replied a s = (r1, fl, s1)"
    by (cases "nau8360_dsp_replied a s") auto
  show ?thesis
    using run rep reply_data_fixed_frame [OF np]
    by (auto simp add: nau8360_reply_from_dsp_def Let_def split: if_splits)
qed

lemma reply_fixed_last_word:
  assumes np: "\<not> msg_param ci" and rd: "reply_data ci"
    and rep: "nau8360_dsp_replied a s = (0, int N + 1, s1)" and N: "0 < N"
    and ok: "reads_ok s1 N"
  shows "fst (snd (nau8360_reply_from_dsp ci sz (Some buf) a s)) =
           Some (store32 buf 0 (snd (rd_script s1 (rd_count s1 + N - 1))))"
proof -
  have pl: "reply_payload_loop N ci a (buf, 0, 0, s1) =
      (0, store32 buf 0 (snd (rd_script s1 (rd_count s1 + N - 1))), 0, 0,
       s1\<lparr>rd_count := rd_count s1 + N\<rparr>)"
    using payload_loop_fixed [OF np ok, of a buf 0 0] N by simp
  show ?thesis
    using np rd rep pl
    by (simp add: nau8360_reply_from_dsp_def reply_from_dsp_data_def Let_def regmap_read_def
        split: prod.splits)
qed

lemma preamble_len_range: "0 \<le> preamble_len b \<and> preamble_len b \<le> 1023"
proof -
  have x: "0 \<le> uint (b ! 2) AND 3" "uint (b ! 2) AND 3 < 2 ^ 10"
    using AND_upper2' [of 3 3 "uint (b ! 2)"] by simp_all
  have y: "0 \<le> push_bit 2 (uint (b ! 3))" "push_bit 2 (uint (b ! 3)) < 2 ^ 10"
    using uint_bounded [of "b ! 3"] by (simp_all add: push_bit_eq_mult)
  have "(uint (b ! 2) AND 3) OR push_bit 2 (uint (b ! 3)) < 2 ^ 10"
    by (rule OR_upper [OF x(1) x(2) y(2)])
  moreover have "0 \<le> (uint (b ! 2) AND 3) OR push_bit 2 (uint (b ! 3))"
    using x(1) y(1) by simp
  ultimately show ?thesis
    by (simp add: preamble_len_def)
qed

lemma replied_loop_len_range:
  "dsp_replied_loop n a s = (r, fl, s1) \<Longrightarrow> 0 \<le> fl \<and> fl \<le> 1023"
proof (induction n arbitrary: s)
  case 0
  then show ?case by simp
next
  case (Suc n)
  obtain r0 w where w: "rd_script s (rd_count s) = (r0, w)" by (cases "rd_script s (rd_count s)")
  show ?case
  proof (cases "r0 \<noteq> 0")
    case True
    with Suc.prems w show ?thesis by (simp add: regmap_read_def)
  next
    case False
    show ?thesis
    proof (cases "is_preamble (le_bytes w)")
      case True
      with Suc.prems w False have "fl = preamble_len (le_bytes w)"
        by (simp add: regmap_read_def Let_def split: if_splits)
      then show ?thesis using preamble_len_range [of "le_bytes w"] by simp
    next
      case np: False
      with Suc.prems w False
      have "dsp_replied_loop n a (s\<lparr>rd_count := Suc (rd_count s)\<rparr>) = (r, fl, s1)"
        by (simp add: regmap_read_def Let_def)
      then show ?thesis by (rule Suc.IH)
    qed
  qed
qed

lemma replied_len_range:
  "nau8360_dsp_replied a s = (r, fl, s1) \<Longrightarrow> 0 \<le> fl \<and> fl \<le> 1023"
  unfolding nau8360_dsp_replied_def by (rule replied_loop_len_range)

lemma copy_loop_count_zero: "snd (reply_copy_loop 0 b buf pos 0) = - 1"
  by (simp add: copy_loop_step [of _ 0])

lemma payload_loop_count_range:
  assumes "msg_param ci"
  shows "0 \<le> dc \<Longrightarrow> dc < 2147483648 \<Longrightarrow>
         reply_payload_loop n ci a (buf, pos, dc, s) = (r, buf', pos', dc', s') \<Longrightarrow>
         - 1 \<le> dc' \<and> dc' \<le> dc"
proof (induction n arbitrary: buf pos dc s)
  case 0
  then show ?case by simp
next
  case (Suc n)
  obtain r0 w where w: "rd_script s (rd_count s) = (r0, w)"
    by (cases "rd_script s (rd_count s)")
  show ?case
  proof (cases "r0 = 0")
    case False
    have "reply_payload_loop (Suc n) ci a (buf, pos, dc, s) =
        (r0, buf, pos, dc, s\<lparr>rd_count := Suc (rd_count s)\<rparr>)"
      by (rule payload_loop_step_fail [OF w False])
    with Suc.prems(3) have "dc' = dc" by (simp del: reply_payload_loop.simps)
    then show ?thesis using Suc.prems(1) by simp
  next
    case r0: True
    show ?thesis
    proof (cases "4 \<le> dc")
      case True
      have run: "reply_payload_loop n ci a
          (store32 buf pos w, pos + 4, dc - 4, s\<lparr>rd_count := Suc (rd_count s)\<rparr>) =
          (r, buf', pos', dc', s')"
        using Suc.prems(3) payload_loop_step_word [OF assms w [unfolded r0] True, of n a buf pos]
        by (simp del: reply_payload_loop.simps)
      have "- 1 \<le> dc' \<and> dc' \<le> dc - 4"
        by (rule Suc.IH [OF _ _ run]) (use True Suc.prems(2) in simp_all)
      then show ?thesis by simp
    next
      case False
      then have lt: "dc < 4" by simp
      from Suc.prems(3) [unfolded payload_loop_step_bytes [OF assms w [unfolded r0] lt]]
      have e: "dc' = snd (reply_copy_loop 0 (le_bytes w) buf pos dc)"
        by auto
      show ?thesis
      proof (cases "dc = 0")
        case True
        then show ?thesis using e copy_loop_count_zero by simp
      next
        case nz: False
        then have "0 < dc" using Suc.prems(1) by simp
        then show ?thesis using e copy_loop_count [OF _ lt] by simp
      qed
    qed
  qed
qed

lemma reply_data_trailer_check:
  assumes rep: "nau8360_dsp_replied a s = (0, fl, s1)" and fl: "fl \<noteq> 0"
    and pl: "reply_payload_loop (nat (fl - 1)) ci a (buf, 0, if msg_param ci then sz else 0, s1) =
               (0, buf1, pos, dc, s2)"
    and tr: "rd_script s2 (rd_count s2) = (0, t)"
  shows "reply_from_dsp_data ci sz (Some buf) a s =
           (if trailer_len (le_bytes t) \<noteq> fl \<or>
               trailer_pad (le_bytes t) \<noteq>
                 (if msg_param ci then s32 ((fl - 1) * 4 - s32 (sz - dc)) else 0)
            then - EPROTO else 0,
            Some buf1, s2\<lparr>rd_count := Suc (rd_count s2)\<rparr>)"
  using assms
  by (simp add: reply_from_dsp_data_def Let_def regmap_read_def NAU8360_DSP_DATA_BYTE_def)

lemma reply_second_preamble:
  assumes "\<not> reply_data ci" "nau8360_dsp_replied a s0 = (0, fl0, s)" "fl0 \<noteq> 0"
  shows "nau8360_reply_from_dsp ci sz data a s0 = reply_from_dsp_data ci sz data a s"
  using assms by (simp add: nau8360_reply_from_dsp_def)

lemma reply_with_data:
  "reply_data ci \<Longrightarrow> nau8360_reply_from_dsp ci sz data a s = reply_from_dsp_data ci sz data a s"
  by (simp add: nau8360_reply_from_dsp_def)

lemma expected_padding:
  assumes "1 \<le> fl" "fl \<le> 1023" "0 \<le> sz" "sz < 2147483647" "- 1 \<le> dc" "dc \<le> sz"
  shows "s32 ((fl - 1) * 4 - s32 (sz - dc)) = (fl - 1) * 4 - (sz - dc)"
proof -
  have a: "s32 (sz - dc) = sz - dc"
    by (rule s32_id) (use assms in linarith)+
  have b: "s32 ((fl - 1) * 4 - (sz - dc)) = (fl - 1) * 4 - (sz - dc)"
    by (rule s32_id) (use assms in simp_all)
  show ?thesis unfolding a b ..
qed


subsection \<open>The loop of the uploader and its calls\<close>

lemma logged_apply:
  "send cmd kso a s = (ret, rst, s1) \<Longrightarrow>
   logged send cmd kso a (s, calls) = (ret, rst, (s1, calls @ [call_of cmd kso ret]))"
  by (simp add: logged_def)

lemma kcs_loop_done: "kcs_setup_loop send d a pos off 0 retries ks s = (0, s)"
  by (subst kcs_setup_loop.simps) simp

lemma kcs_loop_retry:
  assumes "data_rem \<noteq> 0"
    and "send NAU8360_DSP_CMD_SET_KCS_SETUP (Some (chunk_request ks d pos off data_rem)) a s =
           (ret, rst1, s1)"
    and "ret < 0" and "retries < NAU8360_DSP_RETRY_MAX"
  shows "kcs_setup_loop send d a pos off data_rem retries ks s =
         kcs_setup_loop send d a pos off data_rem (retries + 1)
           ((chunk_request ks d pos off data_rem)\<lparr>get_data := rst1\<rparr>) s1"
  using assms
  by (subst kcs_setup_loop.simps) (simp add: Let_def chunk_len_def chunk_request_def)

lemma kcs_loop_give_up:
  assumes "data_rem \<noteq> 0"
    and "send NAU8360_DSP_CMD_SET_KCS_SETUP (Some (chunk_request ks d pos off data_rem)) a s =
           (ret, rst1, s1)"
    and "ret < 0" and "\<not> retries < NAU8360_DSP_RETRY_MAX"
  shows "kcs_setup_loop send d a pos off data_rem retries ks s = (ret, s1)"
  using assms
  by (subst kcs_setup_loop.simps) (simp add: Let_def chunk_len_def chunk_request_def)

lemma kcs_loop_check_failed:
  assumes "data_rem \<noteq> 0"
    and "send NAU8360_DSP_CMD_SET_KCS_SETUP (Some (chunk_request ks d pos off data_rem)) a s =
           (ret, rst1, s1)"
    and "\<not> ret < 0"
    and "send NAU8360_DSP_CMD_GET_KCS_RSLTS
           (Some (check_request (chunk_request ks d pos off data_rem) rst1)) a s1 = (ret2, rst2, s2)"
    and "ret2 < 0"
  shows "kcs_setup_loop send d a pos off data_rem retries ks s = (ret2, s2)"
  using assms
  by (subst kcs_setup_loop.simps) (simp add: Let_def chunk_len_def chunk_request_def check_request_def)

lemma kcs_loop_next:
  assumes "data_rem \<noteq> 0"
    and "send NAU8360_DSP_CMD_SET_KCS_SETUP (Some (chunk_request ks d pos off data_rem)) a s =
           (ret, rst1, s1)"
    and "\<not> ret < 0"
    and "send NAU8360_DSP_CMD_GET_KCS_RSLTS
           (Some (check_request (chunk_request ks d pos off data_rem) rst1)) a s1 = (ret2, rst2, s2)"
    and "\<not> ret2 < 0"
  shows "kcs_setup_loop send d a pos off data_rem retries ks s =
         kcs_setup_loop send d a (pos + unat (u8_of (chunk_len data_rem)))
           (s32 (off + chunk_len data_rem)) (data_rem - chunk_len data_rem) retries
           ((check_request (chunk_request ks d pos off data_rem) rst1)\<lparr>get_data := rst2\<rparr>) s2"
  using assms
  by (subst kcs_setup_loop.simps) (simp add: Let_def chunk_len_def chunk_request_def check_request_def)

lemma kcs_loop_induct [case_names step]:
  fixes send :: "'d sender" and d :: bytes and a :: u16
    and P :: "nat \<Rightarrow> int \<Rightarrow> int \<Rightarrow> int \<Rightarrow> nau8360_kcs_setup \<Rightarrow> 'd \<Rightarrow> bool"
  assumes step: "\<And>pos off data_rem retries ks s.
    (\<And>ret rst1 s1. data_rem \<noteq> 0 \<Longrightarrow>
        send NAU8360_DSP_CMD_SET_KCS_SETUP (Some (chunk_request ks d pos off data_rem)) a s =
          (ret, rst1, s1) \<Longrightarrow>
        ret < 0 \<Longrightarrow> retries < NAU8360_DSP_RETRY_MAX \<Longrightarrow>
        P pos off data_rem (retries + 1) ((chunk_request ks d pos off data_rem)\<lparr>get_data := rst1\<rparr>) s1) \<Longrightarrow>
    (\<And>ret rst1 s1 ret2 rst2 s2. data_rem \<noteq> 0 \<Longrightarrow>
        send NAU8360_DSP_CMD_SET_KCS_SETUP (Some (chunk_request ks d pos off data_rem)) a s =
          (ret, rst1, s1) \<Longrightarrow>
        \<not> ret < 0 \<Longrightarrow>
        send NAU8360_DSP_CMD_GET_KCS_RSLTS
          (Some (check_request (chunk_request ks d pos off data_rem) rst1)) a s1 = (ret2, rst2, s2) \<Longrightarrow>
        \<not> ret2 < 0 \<Longrightarrow>
        P (pos + unat (u8_of (chunk_len data_rem))) (s32 (off + chunk_len data_rem))
          (data_rem - chunk_len data_rem) retries
          ((check_request (chunk_request ks d pos off data_rem) rst1)\<lparr>get_data := rst2\<rparr>) s2) \<Longrightarrow>
    P pos off data_rem retries ks s"
  shows "P pos off data_rem retries ks s"
proof -
  have "send' = send \<longrightarrow> d' = d \<longrightarrow> a' = a \<longrightarrow> P pos off data_rem retries ks s" for send' d' a'
  proof (induction send' d' a' pos off data_rem retries ks s rule: kcs_setup_loop.induct)
    case (1 send' d' a' pos off data_rem retries ks s)
    show ?case
    proof (intro impI)
      assume e: "send' = send" "d' = d" "a' = a"
      show "P pos off data_rem retries ks s"
      proof (rule step)
        fix ret rst1 s1
        assume h: "data_rem \<noteq> 0"
          "send NAU8360_DSP_CMD_SET_KCS_SETUP (Some (chunk_request ks d pos off data_rem)) a s =
              (ret, rst1, s1)"
          "ret < 0" "retries < NAU8360_DSP_RETRY_MAX"
        show "P pos off data_rem (retries + 1)
                ((chunk_request ks d pos off data_rem)\<lparr>get_data := rst1\<rparr>) s1"
          using "1.IH"(1) [OF h(1) refl refl refl, of ret "(rst1, s1)" rst1 s1] h e
          by (simp add: chunk_request_def chunk_len_def)
      next
        fix ret rst1 s1 ret2 rst2 s2
        assume h: "data_rem \<noteq> 0"
          "send NAU8360_DSP_CMD_SET_KCS_SETUP (Some (chunk_request ks d pos off data_rem)) a s =
              (ret, rst1, s1)"
          "\<not> ret < 0"
          "send NAU8360_DSP_CMD_GET_KCS_RSLTS
              (Some (check_request (chunk_request ks d pos off data_rem) rst1)) a s1 = (ret2, rst2, s2)"
          "\<not> ret2 < 0"
        show "P (pos + unat (u8_of (chunk_len data_rem))) (s32 (off + chunk_len data_rem))
              (data_rem - chunk_len data_rem) retries
              ((check_request (chunk_request ks d pos off data_rem) rst1)\<lparr>get_data := rst2\<rparr>) s2"
          using "1.IH"(2) [OF h(1) refl refl refl, of ret "(rst1, s1)" rst1 s1] h e
          by (simp add: chunk_request_def check_request_def chunk_len_def)
      qed
    qed
  qed
  then show ?thesis by simp
qed

lemma call_of_chunk:
  "call_of NAU8360_DSP_CMD_SET_KCS_SETUP (Some (chunk_request ks d pos off data_rem)) ret =
     set_call d pos off data_rem ret"
  by (simp add: call_of_def set_call_def chunk_request_def)

lemma call_of_check:
  "call_of NAU8360_DSP_CMD_GET_KCS_RSLTS
     (Some (check_request (chunk_request ks d pos off data_rem) rst1)) ret = get_call d pos ret"
  by (simp add: call_of_def get_call_def chunk_request_def check_request_def)

lemma loop_logged:
  fixes send :: "'d sender"
  shows "kcs_setup_loop send d a pos off data_rem retries ks s = (r, s') \<Longrightarrow>
     \<exists>cs. kcs_setup_loop (logged send) d a pos off data_rem retries ks (s, calls) =
            (r, (s', calls @ cs)) \<and>
          upload_run d pos off data_rem retries cs r"
proof (induction pos off data_rem retries ks s arbitrary: calls r s'
    rule: kcs_loop_induct [where send = send and d = d and a = a])
  case (step pos off data_rem retries ks s)
  let ?k1 = "chunk_request ks d pos off data_rem"
  show ?case
  proof (cases "data_rem = 0")
    case True
    with step.prems have "r = 0" "s' = s" by (simp_all add: kcs_loop_done)
    then show ?thesis
      using True by (auto simp add: kcs_loop_done intro: upload_run.finished)
  next
    case False
    obtain ret rst1 s1 where s1: "send NAU8360_DSP_CMD_SET_KCS_SETUP (Some ?k1) a s = (ret, rst1, s1)"
      by (cases "send NAU8360_DSP_CMD_SET_KCS_SETUP (Some ?k1) a s") auto
    have l1: "logged send NAU8360_DSP_CMD_SET_KCS_SETUP (Some ?k1) a (s, calls) =
        (ret, rst1, (s1, calls @ [set_call d pos off data_rem ret]))"
      using logged_apply [where send = send, OF s1] by (simp add: call_of_chunk)
    show ?thesis
    proof (cases "ret < 0")
      case neg: True
      show ?thesis
      proof (cases "retries < NAU8360_DSP_RETRY_MAX")
        case True
        have run: "kcs_setup_loop send d a pos off data_rem (retries + 1) (?k1\<lparr>get_data := rst1\<rparr>) s1 =
            (r, s')"
          using step.prems kcs_loop_retry [where send = "send", OF False s1 neg True] by simp
        obtain cs where cs:
          "kcs_setup_loop (logged send) d a pos off data_rem (retries + 1) (?k1\<lparr>get_data := rst1\<rparr>)
             (s1, calls @ [set_call d pos off data_rem ret]) =
             (r, (s', (calls @ [set_call d pos off data_rem ret]) @ cs))"
          "upload_run d pos off data_rem (retries + 1) cs r"
          using step.IH(1) [OF False s1 neg True run] by blast
        have "kcs_setup_loop (logged send) d a pos off data_rem retries ks (s, calls) =
            (r, (s', calls @ set_call d pos off data_rem ret # cs))"
          using kcs_loop_retry [where send = "logged send", OF False l1 neg True] cs(1) by simp
        moreover have "upload_run d pos off data_rem retries (set_call d pos off data_rem ret # cs) r"
          by (rule upload_run.retry [OF False neg True cs(2)])
        ultimately show ?thesis by blast
      next
        case stop: False
        have "r = ret" "s' = s1"
          using step.prems kcs_loop_give_up [where send = "send", OF False s1 neg stop] by simp_all
        moreover have "kcs_setup_loop (logged send) d a pos off data_rem retries ks (s, calls) =
            (ret, (s1, calls @ [set_call d pos off data_rem ret]))"
          using kcs_loop_give_up [where send = "logged send", OF False l1 neg stop] by simp
        moreover have "upload_run d pos off data_rem retries [set_call d pos off data_rem ret] ret"
          by (rule upload_run.give_up [OF False neg stop])
        ultimately show ?thesis by blast
      qed
    next
      case ok: False
      let ?k3 = "check_request ?k1 rst1"
      obtain ret2 rst2 s2 where
        s2: "send NAU8360_DSP_CMD_GET_KCS_RSLTS (Some ?k3) a s1 = (ret2, rst2, s2)"
        by (cases "send NAU8360_DSP_CMD_GET_KCS_RSLTS (Some ?k3) a s1") auto
      have l2: "logged send NAU8360_DSP_CMD_GET_KCS_RSLTS (Some ?k3) a
          (s1, calls @ [set_call d pos off data_rem ret]) =
          (ret2, rst2, (s2, (calls @ [set_call d pos off data_rem ret]) @ [get_call d pos ret2]))"
        using logged_apply [where send = send, OF s2] by (simp add: call_of_check)
      show ?thesis
      proof (cases "ret2 < 0")
        case True
        have "r = ret2" "s' = s2"
          using step.prems kcs_loop_check_failed [where send = "send", OF False s1 ok s2 True] by simp_all
        moreover have "kcs_setup_loop (logged send) d a pos off data_rem retries ks (s, calls) =
            (ret2, (s2, calls @ [set_call d pos off data_rem ret, get_call d pos ret2]))"
          using kcs_loop_check_failed [where send = "logged send", OF False l1 ok l2 True] by simp
        moreover have "upload_run d pos off data_rem retries
            [set_call d pos off data_rem ret, get_call d pos ret2] ret2"
          by (rule upload_run.check_failed [OF False ok True])
        ultimately show ?thesis by blast
      next
        case ok2: False
        let ?pos = "pos + unat (u8_of (chunk_len data_rem))"
        let ?off = "s32 (off + chunk_len data_rem)"
        let ?rem = "data_rem - chunk_len data_rem"
        have run: "kcs_setup_loop send d a ?pos ?off ?rem retries (?k3\<lparr>get_data := rst2\<rparr>) s2 = (r, s')"
          using step.prems kcs_loop_next [where send = "send", OF False s1 ok s2 ok2] by simp
        obtain cs where cs:
          "kcs_setup_loop (logged send) d a ?pos ?off ?rem retries (?k3\<lparr>get_data := rst2\<rparr>)
             (s2, (calls @ [set_call d pos off data_rem ret]) @ [get_call d pos ret2]) =
             (r, (s', ((calls @ [set_call d pos off data_rem ret]) @ [get_call d pos ret2]) @ cs))"
          "upload_run d ?pos ?off ?rem retries cs r"
          using step.IH(2) [OF False s1 ok s2 ok2 run] by blast
        have "kcs_setup_loop (logged send) d a pos off data_rem retries ks (s, calls) =
            (r, (s', calls @ set_call d pos off data_rem ret # get_call d pos ret2 # cs))"
          using kcs_loop_next [where send = "logged send", OF False l1 ok l2 ok2] cs(1) by simp
        moreover have "upload_run d pos off data_rem retries
            (set_call d pos off data_rem ret # get_call d pos ret2 # cs) r"
          by (rule upload_run.next_chunk [OF False ok ok2 cs(2)])
        ultimately show ?thesis by blast
      qed
    qed
  qed
qed


subsection \<open>The runs of the uploader\<close>

lemma call_kinds [simp]:
  "chunk_write (set_call d pos off data_rem ret)"
  "chunk_write_ok (set_call d pos off data_rem ret) \<longleftrightarrow> \<not> ret < 0"
  "chunk_write_failed (set_call d pos off data_rem ret) \<longleftrightarrow> ret < 0"
  "\<not> result_check (set_call d pos off data_rem ret)"
  "\<not> result_check_failed (set_call d pos off data_rem ret)"
  "\<not> chunk_write (get_call d pos ret)"
  "\<not> chunk_write_ok (get_call d pos ret)"
  "\<not> chunk_write_failed (get_call d pos ret)"
  "result_check (get_call d pos ret)"
  "result_check_failed (get_call d pos ret) \<longleftrightarrow> ret < 0"
  by (simp_all add: chunk_write_def chunk_write_ok_def chunk_write_failed_def result_check_def
      result_check_failed_def set_call_def get_call_def NAU8360_DSP_CMD_SET_KCS_SETUP_def
      NAU8360_DSP_CMD_GET_KCS_RSLTS_def)

lemma call_fields [simp]:
  "call_ret (set_call d pos off data_rem ret) = ret"
  "call_ret (get_call d pos ret) = ret"
  "call_offset (set_call d pos off data_rem ret) = off"
  "call_len (set_call d pos off data_rem ret) = chunk_len data_rem"
  "call_bytes (set_call d pos off data_rem ret) = map (\<lambda>i. d (pos + i)) [0..<nat (chunk_len data_rem)]"
  by (simp_all add: set_call_def get_call_def)




lemma upload_run_nonempty: "upload_run d pos off data_rem retries cs r \<Longrightarrow> data_rem \<noteq> 0 \<Longrightarrow> cs \<noteq> []"
  by (induction rule: upload_run.induct) simp_all

lemma upload_run_hd:
  "upload_run d pos off data_rem retries cs r \<Longrightarrow> cs \<noteq> [] \<Longrightarrow>
   hd cs = set_call d pos off data_rem (call_ret (hd cs))"
  by (induction rule: upload_run.induct) simp_all













lemma chunk_len_min: "chunk_len data_rem = min 96 (data_rem - 96 * int 0)"
  by (simp add: chunk_len_def NAU8360_DSP_KCS_TX_MAX_def min_def)







subsection \<open>Uploads to the example devices\<close>

lemma kcs_setup_run:
  assumes "sz \<le> NAU8360_DSP_KCS_DAT_LEN_MAX" "offset \<le> NAU8360_DSP_KCS_OFFSET_MAX"
  shows "upload_run d 0 offset sz 0 (kcs_setup_calls offset sz (Some d) a ks0 rst s)
           (fst (nau8360_dsp_kcs_setup offset sz (Some d) a ks0 rst s))"
proof -
  let ?ks = "ks0\<lparr>get_data := Some rst\<rparr>"
  obtain r s' where run: "kcs_setup_loop nau8360_send_dsp_command d a 0 offset sz 0 ?ks s = (r, s')"
    by (cases "kcs_setup_loop nau8360_send_dsp_command d a 0 offset sz 0 ?ks s") auto
  obtain cs where cs:
    "kcs_setup_loop (logged nau8360_send_dsp_command) d a 0 offset sz 0 ?ks (s, []) = (r, (s', [] @ cs))"
    "upload_run d 0 offset sz 0 cs r"
    using loop_logged [where send = nau8360_send_dsp_command, OF run, of "[]"] by blast
  have "kcs_setup_calls offset sz (Some d) a ks0 rst s = cs"
    using assms cs(1) by (simp add: kcs_setup_calls_def nau8360_dsp_kcs_setup_with_def)
  moreover have "fst (nau8360_dsp_kcs_setup offset sz (Some d) a ks0 rst s) = r"
    using assms run by (simp add: nau8360_dsp_kcs_setup_def nau8360_dsp_kcs_setup_with_def)
  ultimately show ?thesis using cs(2) by simp
qed




























lemma idle_loop_reads_one: "rd_count s < rd_count (snd (dsp_idle_loop (Suc n) a s))"
proof -
  let ?s1 = "s\<lparr>rd_count := Suc (rd_count s)\<rparr>"
  have "rd_count ?s1 \<le> rd_count (snd (dsp_idle_loop n a ?s1))"
    using idle_loop_reads_only [of ?s1 n a] by (simp add: reads_only_def)
  then show ?thesis
    by (cases "rd_script s (rd_count s)") (simp add: regmap_read_def)
qed

lemma idle_reads_one: "rd_count s < rd_count (snd (nau8360_dsp_idle a s))"
proof -
  have ten: "(10::nat) = Suc 9" by simp
  show ?thesis
    unfolding nau8360_dsp_idle_def NAU8360_DSP_IDLE_RETRY_def ten by (rule idle_loop_reads_one)
qed

lemma send_param_reads:
  assumes pass: "request_passes cmd ks" and p: "msg_param (nau8360_dsp_cmd_table cmd)"
    and n: "\<not> setup_data (nau8360_dsp_cmd_table cmd)"
  shows "rd_count s < rd_count (snd (snd (nau8360_send_dsp_command cmd (Some ks) a s)))"
proof -
  let ?ci = "nau8360_dsp_cmd_table cmd"
  obtain r s1 where idle: "nau8360_dsp_idle a s = (r, s1)" by (cases "nau8360_dsp_idle a s") auto
  have lt: "rd_count s < rd_count s1" using idle_reads_one [of s a] idle by simp
  show ?thesis
  proof (cases "r = 0")
    case False
    have "nau8360_send_dsp_command cmd (Some ks) a s = (r, get_data ks, s1)"
      using send_passes [OF pass, of a s] massage_idle_fail [OF idle False] False by (simp add: Let_def)
    then show ?thesis using lt by simp
  next
    case True
    let ?s2 = "wrote s1 a [preamble_word (cmd_id ?ci) 2, descriptor_word (set_kcs_offset ks) (set_len ks),
                           trailer_word 2 0]"
    have m: "nau8360_massage_to_dsp ?ci (msg_frag_len ?ci (set_len ks)) (set_kcs_offset ks) (set_len ks)
               (case set_kcs_data ks of Some d \<Rightarrow> d | None \<Rightarrow> (\<lambda>_. 0)) a s = (0, ?s2)"
      using massage_param_only [OF idle [unfolded True] p n] msg_frag_len_param [OF p n] by simp
    obtain r' g' s' where rep: "nau8360_reply_from_dsp ?ci (get_len ks) (get_data ks) a ?s2 = (r', g', s')"
      by (cases "nau8360_reply_from_dsp ?ci (get_len ks) (get_data ks) a ?s2") auto
    have "rd_count ?s2 \<le> rd_count s'" using reply_reads_only [OF rep] by (simp add: reads_only_def)
    then have "rd_count s < rd_count s'" using lt by (simp add: wrote_def)
    moreover have "nau8360_send_dsp_command cmd (Some ks) a s = (r', g', s')"
      using send_passes [OF pass, of a s] m rep by (simp add: Let_def)
    ultimately show ?thesis by simp
  qed
qed

lemma get_kcs_setup_rejected:
  assumes "set_len ks > NAU8360_DSP_KCS_DAT_LEN_MAX \<or> set_kcs_offset ks > NAU8360_DSP_KCS_OFFSET_MAX"
  shows "nau8360_send_dsp_command NAU8360_DSP_CMD_GET_KCS_SETUP (Some ks) a s =
           (if set_len ks = 0 \<or> get_data ks = None then - EFAULT else - ERANGE, get_data ks, s)"
  using assms get_kcs_setup_flags
  by (auto simp add: nau8360_send_dsp_command_def Let_def)

lemma get_kcs_setup_passes:
  assumes "set_len ks \<noteq> 0" "set_len ks \<le> NAU8360_DSP_KCS_DAT_LEN_MAX"
    "set_kcs_offset ks \<le> NAU8360_DSP_KCS_OFFSET_MAX" "get_data ks \<noteq> None"
  shows "request_passes NAU8360_DSP_CMD_GET_KCS_SETUP ks"
  using assms get_kcs_setup_flags by (simp add: request_passes_def)

lemma not_preamble_zero: "\<not> is_preamble (le_bytes 0)"
  by (simp add: is_preamble_def le_bytes_def NAU8360_DSP_COMM_PREAMBLE_def)

lemma set1025_run:
  "nau8360_send_dsp_command NAU8360_DSP_CMD_SET_KCS_SETUP (Some ks_set1025) 0xf000 idle_dev =
     (- EIO, Some (\<lambda>_. 0),
      (wrote (idle_dev\<lparr>rd_count := 1\<rparr>) 0xf000
         ([preamble_word NAU8360_DSP_CMD_SET_KCS_SETUP 259, descriptor_word 0 1025] @
          setup_words count_up 1025 @ [trailer_word 259 3]))\<lparr>rd_count := 11\<rparr>)"
proof -
  let ?ci = "nau8360_dsp_cmd_table NAU8360_DSP_CMD_SET_KCS_SETUP"
  let ?ws = "[preamble_word NAU8360_DSP_CMD_SET_KCS_SETUP 259, descriptor_word 0 1025] @
          setup_words count_up 1025 @ [trailer_word 259 3]"
  let ?s2 = "wrote (idle_dev\<lparr>rd_count := 1\<rparr>) 0xf000 ?ws"
  note flags = set_kcs_setup_flags
  have ne: "NAU8360_DSP_CMD_SET_KCS_SETUP \<noteq> NAU8360_DSP_CMD_GET_KCS_SETUP"
    by (simp add: NAU8360_DSP_CMD_SET_KCS_SETUP_def NAU8360_DSP_CMD_GET_KCS_SETUP_def)
  have pass: "request_passes NAU8360_DSP_CMD_SET_KCS_SETUP ks_set1025"
    by (simp add: request_passes_def flags ne ks_set1025_def)
  have L: "(0::int) \<le> 1025" "(1025::int) < 2147483645" by simp_all
  have fl: "msg_frag_len ?ci 1025 = 259"
    using msg_frag_len_setup [OF flags(2) flags(3) L] by simp
  have m: "nau8360_massage_to_dsp ?ci (msg_frag_len ?ci 1025) 0 1025 count_up 0xf000 idle_dev = (0, ?s2)"
    using massage_setup [OF idle_dev_idle flags(2) flags(3) L(1), where fl = 259 and off = 0
          and d = count_up and a = "0xf000"]
      table_cmd_id [OF flags(1)]
    unfolding fl by simp
  have np: "reads_ok_no_preamble ?s2 10"
    by (simp add: reads_ok_no_preamble_def wrote_def idle_dev_def dev_of_def script_def
        not_preamble_zero)
  have rep: "nau8360_dsp_replied 0xf000 ?s2 = (- EIO, 0, ?s2\<lparr>rd_count := rd_count ?s2 + 10\<rparr>)"
    by (rule replied_timeout [OF np])
  have neg: "- EIO \<noteq> 0" by (simp add: EIO_def)
  have r: "nau8360_reply_from_dsp ?ci 4 (Some (\<lambda>_. 0)) 0xf000 ?s2 =
      (- EIO, Some (\<lambda>_. 0), ?s2\<lparr>rd_count := rd_count ?s2 + 10\<rparr>)"
    by (rule reply_error_early [OF rep neg])
  have c: "rd_count ?s2 + 10 = 11" by (simp add: wrote_def)
  show ?thesis
    using send_passes [OF pass, of "0xf000" idle_dev] m r neg
    unfolding c by (simp add: Let_def ks_set1025_def)
qed


section \<open>The round trip of a message frame\<close>

text \<open>
  C1. For every supported opcode, descriptor \<open>(offset, size)\<close> of 16-bit values and
  setup payload of length 0..400 (the \<open>size\<close> bytes at \<open>d\<close>, for the command that has
  setup data), the words that the encoder writes, read back by the message format,
  give the same opcode, the same offset and size for a command with a parameter, the
  same payload bytes, and the padding length \<open>4*ceil(L/4) - L\<close>. A command without
  parameter is sent as its preamble alone and gives its opcode; a command without setup
  data carries no payload and gives the empty payload and padding 0. The preamble-only
  frame with the fragment count 1, as the spec's encoder describes it, is read as the
  same command.
\<close>

theorem message_roundtrip:
  assumes "nau8360_dsp_commands c" and "0 \<le> off" and "off < 65536" and "0 \<le> sz" and "sz < 65536"
    and "setup_data (nau8360_dsp_cmd_table c) \<longrightarrow> sz \<le> 400"
  shows "decode_message (message_words c off sz d) =
           Some \<lparr>opcode = c,
                 param = (if msg_param (nau8360_dsp_cmd_table c) then Some (off, sz) else None),
                 payload = (if setup_data (nau8360_dsp_cmd_table c) then map d [0..<nat sz] else []),
                 pad_len = (if setup_data (nau8360_dsp_cmd_table c)
                            then 4 * ((sz + 3) div 4) - sz else 0)\<rparr> \<and>
         (\<not> msg_param (nau8360_dsp_cmd_table c) \<longrightarrow>
            decode_message [preamble_word c 1] =
              Some \<lparr>opcode = c, param = None, payload = [], pad_len = 0\<rparr>)"
proof (cases "msg_param (nau8360_dsp_cmd_table c)")
  case False
  then show ?thesis
    using message_words_no_param [OF assms(1) False] decode_no_param [OF assms(1) False, of 0]
      decode_no_param [OF assms(1) False, of 1] table_no_param_no_setup [OF False]
    by simp
next
  case True
  show ?thesis
  proof (cases "setup_data (nau8360_dsp_cmd_table c)")
    case False
    have "decode_message ([preamble_word c (int (length ([]::u32 list)) + 2), descriptor_word off sz] @
             [] @ [trailer_word (int (length ([]::u32 list)) + 2) 0]) =
          Some \<lparr>opcode = c, param = Some (off, sz),
                 payload = take (4 * length ([]::u32 list) - nat 0) (concat (map le_bytes [])),
                 pad_len = 0\<rparr>"
      by (rule decode_param [OF assms(1) True assms(2-5)]) simp_all
    then show ?thesis
      using message_words_param [OF assms(1) True False] True False by simp
  next
    case sd: True
    let ?n = "(sz + 3) div 4"
    let ?pad = "4 * ?n - sz"
    let ?ws = "setup_words d sz"
    have sz400: "sz \<le> 400" using assms(6) sd by simp
    have sz_int: "sz < 2147483645" using sz400 by simp
    have ln: "int (length ?ws) = ?n" using length_setup_words [OF assms(4)] .
    have n1: "int (length ?ws) + 2 < 1024" using ln sz400 by linarith
    have p: "0 \<le> ?pad" "?pad < 4" using pad_range [of sz] by simp_all
    have p3: "?pad \<le> 4 * int (length ?ws)" using ln assms(4) by linarith
    have dec: "decode_message ([preamble_word c (int (length ?ws) + 2), descriptor_word off sz] @ ?ws @
                 [trailer_word (int (length ?ws) + 2) ?pad]) =
           Some \<lparr>opcode = c, param = Some (off, sz),
                 payload = take (4 * length ?ws - nat ?pad) (concat (map le_bytes ?ws)),
                 pad_len = ?pad\<rparr>"
      by (rule decode_param [OF assms(1) True assms(2-5) n1 p p3])
    have l4: "4 * length ?ws - nat ?pad = nat sz" using ln assms(4) by linarith
    have tk: "take (nat sz) (concat (map le_bytes ?ws)) = map d [0..<nat sz]"
      by (simp add: setup_words_bytes [OF assms(4)])
    have e: "int (length ?ws) + 2 = 2 + ?n" using ln by simp
    show ?thesis
      using dec message_words_setup [OF assms(1) True sd assms(4) sz_int, of off d] True sd
      unfolding l4 tk e by simp
  qed
qed


theorem message_roundtrip_witness:
  "nau8360_dsp_commands NAU8360_DSP_CMD_SET_KCS_SETUP \<and> (0::int) \<le> 16 \<and> (16::int) < 65536 \<and>
   (0::int) \<le> 5 \<and> (5::int) < 65536 \<and>
   (5::int) \<le> 400 \<and>
   decode_message (message_words NAU8360_DSP_CMD_SET_KCS_SETUP 16 5 count_up) =
     Some \<lparr>opcode = NAU8360_DSP_CMD_SET_KCS_SETUP, param = Some (16, 5),
           payload = [1, 2, 3, 4, 5], pad_len = 3\<rparr>"
proof -
  have u: "[0..<5] = [0, 1, 2, 3, 4]"
    by (simp add: upt_rec)
  show ?thesis
    using message_roundtrip [of NAU8360_DSP_CMD_SET_KCS_SETUP 16 5 count_up] set_kcs_setup_flags
    by (simp add: u count_up_def)
qed

section \<open>The fragments of the setup payload\<close>

text \<open>
  C2. For a command with setup data and a payload of \<open>L\<close> bytes, \<open>0 \<le> L < 2^31 - 3\<close>
  (the lengths for which the rounding \<^verbatim>\<open>set_len + 4 - 1\<close> of the fragment count stays an
  \<^verbatim>\<open>int\<close>), sent when the DSP is idle, the encoder writes the preamble, the descriptor, exactly \<open>ceil(L/4)\<close> payload
  words and the trailer. The payload words hold the payload four bytes to a word in
  source order, followed by \<open>4*ceil(L/4) - L\<close> zero bytes in the last word, and the
  padding field of the trailer is \<open>4*ceil(L/4) - L\<close>, a value in 0..3. (\<open>ceil(L/4)\<close> is
  \<open>(L + 3) div 4\<close>.)
\<close>

theorem setup_fragments:
  assumes "nau8360_dsp_idle a s = (0, s1)" and "msg_param ci" and "setup_data ci" and "0 \<le> L"
    and "L < 2147483645"
  shows "nau8360_massage_to_dsp ci (msg_frag_len ci L) off L d a s =
           (0, wrote s1 a ([preamble_word (cmd_id ci) (msg_frag_len ci L), descriptor_word off L] @
                           setup_words d L @
                           [trailer_word (msg_frag_len ci L) (4 * ((L + 3) div 4) - L)])) \<and>
         int (length (setup_words d L)) = (L + 3) div 4 \<and>
         concat (map le_bytes (setup_words d L)) =
           map d [0..<nat L] @ replicate (nat (4 * ((L + 3) div 4) - L)) 0 \<and>
         trailer_pad (le_bytes (trailer_word (msg_frag_len ci L) (4 * ((L + 3) div 4) - L))) =
           4 * ((L + 3) div 4) - L \<and>
         0 \<le> 4 * ((L + 3) div 4) - L \<and> 4 * ((L + 3) div 4) - L \<le> 3"
proof -
  have fl: "msg_frag_len ci L = 2 + (L + 3) div 4"
    by (rule msg_frag_len_setup [OF assms(2-5)])
  have run: "nau8360_massage_to_dsp ci (msg_frag_len ci L) off L d a s =
           (0, wrote s1 a ([preamble_word (cmd_id ci) (msg_frag_len ci L), descriptor_word off L] @
                           setup_words d L @
                           [trailer_word (msg_frag_len ci L) (4 * ((L + 3) div 4) - L)]))"
    using massage_setup [OF assms(1-4), of "msg_frag_len ci L" off d] fl by simp
  have pad: "trailer_pad (le_bytes (trailer_word (msg_frag_len ci L) (4 * ((L + 3) div 4) - L))) =
           4 * ((L + 3) div 4) - L"
    by (rule trailer_word_pad) (rule pad_range)+
  have rng: "0 \<le> 4 * ((L + 3) div 4) - L" "4 * ((L + 3) div 4) - L \<le> 3"
    using pad_range [of L] by simp_all
  show ?thesis
    using run pad rng length_setup_words [OF assms(4), of d] setup_words_bytes [OF assms(4), of d]
    by simp
qed

theorem setup_fragments_witness:
  "nau8360_dsp_idle 0xf000 idle_dev = (0, idle_dev\<lparr>rd_count := 1\<rparr>) \<and>
   msg_param (nau8360_dsp_cmd_table NAU8360_DSP_CMD_SET_KCS_SETUP) \<and>
   setup_data (nau8360_dsp_cmd_table NAU8360_DSP_CMD_SET_KCS_SETUP) \<and>
   (0::int) \<le> 5 \<and> (5::int) < 2147483645 \<and>
   int (length (setup_words count_up 5)) = 2 \<and>
   concat (map le_bytes (setup_words count_up 5)) = [1, 2, 3, 4, 5, 0, 0, 0] \<and>
   trailer_pad (le_bytes (trailer_word
     (msg_frag_len (nau8360_dsp_cmd_table NAU8360_DSP_CMD_SET_KCS_SETUP) 5) 3)) = 3 \<and>
   fst (nau8360_massage_to_dsp (nau8360_dsp_cmd_table NAU8360_DSP_CMD_SET_KCS_SETUP)
     (msg_frag_len (nau8360_dsp_cmd_table NAU8360_DSP_CMD_SET_KCS_SETUP) 5) 0 5 count_up 0xf000
     idle_dev) = 0"
proof -
  have h2: "msg_param (nau8360_dsp_cmd_table NAU8360_DSP_CMD_SET_KCS_SETUP)"
    and h3: "setup_data (nau8360_dsp_cmd_table NAU8360_DSP_CMD_SET_KCS_SETUP)"
    by (simp_all add: nau8360_dsp_cmd_table_def mk_cmd_def NAU8360_DSP_CMD_SET_KCS_SETUP_def
        NAU8360_DSP_CMD_GET_COUNTER_def NAU8360_DSP_CMD_GET_FRAME_STATUS_def
        NAU8360_DSP_CMD_GET_REVISION_def NAU8360_DSP_CMD_GET_KCS_RSLTS_def
        NAU8360_DSP_CMD_GET_KCS_SETUP_def)
  have h4: "(0::int) \<le> 5" by simp
  have h5: "(5::int) < 2147483645" by simp
  have u: "[0..<5] = [0, 1, 2, 3, 4]"
    by (simp add: upt_rec)
  have r: "replicate 3 (0::u8) = [0, 0, 0]"
    by (simp add: numeral_3_eq_3)
  show ?thesis
    using setup_fragments [where a = "0xf000" and off = 0 and d = count_up,
        OF idle_dev_idle h2 h3 h4 h5] h2 h3
      idle_dev_idle [of "0xf000"]
    by (simp add: u r count_up_def)
qed

section \<open>A command without parameter\<close>

text \<open>
  C3, as amended. For every supported command whose table entry has no parameter (for
  example GetCounter) and a request that passes the checks, sent when the DSP is idle,
  the encoder writes the preamble word only, and so does the whole exchange. The
  fragment count computed for such a command and encoded in the preamble is 0: the
  count is that of the words after the preamble. The bytes of the preamble are
  \<open>A1 B2 (opcode << 2) 00\<close>.
\<close>

theorem no_param_preamble_only:
  assumes "request_passes cmd ks" and "\<not> msg_param (nau8360_dsp_cmd_table cmd)"
    and "nau8360_dsp_idle a s = (0, s1)"
  shows "nau8360_massage_to_dsp (nau8360_dsp_cmd_table cmd)
            (msg_frag_len (nau8360_dsp_cmd_table cmd) (set_len ks)) off L d a s =
           (0, wrote s1 a [preamble_word cmd 0]) \<and>
         wr_log (snd (snd (nau8360_send_dsp_command cmd (Some ks) a s))) =
           wr_log s @ [(a, preamble_word cmd 0)] \<and>
         le_bytes (preamble_word cmd 0) = [0xa1, 0xb2, u8_of (push_bit 2 cmd), 0] \<and>
         preamble_id (le_bytes (preamble_word cmd 0)) = cmd \<and>
         preamble_len (le_bytes (preamble_word cmd 0)) = 0"
proof -
  have c: "nau8360_dsp_commands cmd" using assms(1) by (simp add: request_passes_def)
  have fl: "msg_frag_len (nau8360_dsp_cmd_table cmd) (set_len ks) = 0"
    using assms(2) table_no_param_no_setup [OF assms(2)] by (simp add: msg_frag_len_none)
  have m: "nau8360_massage_to_dsp (nau8360_dsp_cmd_table cmd)
            (msg_frag_len (nau8360_dsp_cmd_table cmd) (set_len ks)) off L d a s =
           (0, wrote s1 a [preamble_word cmd 0])"
    using massage_no_param [OF assms(3) assms(2)] table_cmd_id [OF c] fl by simp
  have i: "preamble_id (le_bytes (preamble_word cmd 0)) = cmd"
    using commands_range [OF c] by (simp add: preamble_word_id)
  have l: "preamble_len (le_bytes (preamble_word cmd 0)) = 0"
    by (simp add: preamble_word_len)
  show ?thesis
    using m i l send_no_param_writes [OF assms] preamble_word_no_frag [of cmd] by simp
qed

theorem no_param_preamble_only_witness:
  "request_passes NAU8360_DSP_CMD_GET_COUNTER ks_get4 \<and>
   \<not> msg_param (nau8360_dsp_cmd_table NAU8360_DSP_CMD_GET_COUNTER) \<and>
   nau8360_dsp_idle 0xf000 idle_dev = (0, idle_dev\<lparr>rd_count := 1\<rparr>) \<and>
   wr_log (snd (snd (nau8360_send_dsp_command NAU8360_DSP_CMD_GET_COUNTER (Some ks_get4) 0xf000
     idle_dev))) = [(0xf000, preamble_word NAU8360_DSP_CMD_GET_COUNTER 0)] \<and>
   le_bytes (preamble_word NAU8360_DSP_CMD_GET_COUNTER 0) = [0xa1, 0xb2, 0x04, 0] \<and>
   preamble_len (le_bytes (preamble_word NAU8360_DSP_CMD_GET_COUNTER 0)) = 0"
  using no_param_preamble_only [OF ks_get4_passes get_counter_no_param idle_dev_idle,
      where a = "0xf000" and off = 0 and L = 0 and d = count_up]
    ks_get4_passes get_counter_no_param idle_dev_idle [of "0xf000"]
  by (simp add: idle_dev_def dev_of_def u8_of_def NAU8360_DSP_CMD_GET_COUNTER_def preamble_len_def)

text \<open>
  The claim as stated has the fragment count 1 in the preamble of \<^verbatim>\<open>send(GetCounter)\<close>.
  On the code the one word written is \<open>A1 B2 04 00\<close>, whose fragment count is 0.
\<close>

theorem get_counter_frag_count_counterexample:
  "map (le_bytes \<circ> snd)
     (wr_log (snd (snd (nau8360_send_dsp_command NAU8360_DSP_CMD_GET_COUNTER (Some ks_get4) 0xf000
        idle_dev)))) = [[0xa1, 0xb2, 0x04, 0x00]] \<and>
   preamble_len [0xa1, 0xb2, 0x04, 0x00] \<noteq> 1"
proof -
  have "preamble_len [0xa1, 0xb2, 0x04, 0x00] = 0"
    by (simp add: preamble_len_def)
  then show ?thesis
    using send_no_param_writes [OF ks_get4_passes get_counter_no_param idle_dev_idle,
      where a = "0xf000"] preamble_word_no_frag [of NAU8360_DSP_CMD_GET_COUNTER]
    by (simp add: idle_dev_def dev_of_def u8_of_def NAU8360_DSP_CMD_GET_COUNTER_def)
qed

section \<open>The chunks of an upload\<close>





section \<open>Retries of the uploader\<close>





section \<open>The caps on size and offset\<close>

text \<open>
  C6, as amended. An upload with \<^verbatim>\<open>nau8360_dsp_kcs_setup\<close> whose size exceeds 1024 or
  whose offset exceeds 3072 returns \<open>-EINVAL\<close> and leaves the device as it was: no register
  is read or written. A GetKcsSetup request given to \<^verbatim>\<open>nau8360_send_dsp_command\<close> whose
  length exceeds 1024 or whose offset exceeds 3072 is refused in the same way, with
  \<open>-ERANGE\<close> (with \<open>-EFAULT\<close> when its length is 0 or it has no reply buffer, which is
  checked first). Size 1024 with offset 3072 is accepted: an upload of \<open>0 < sz \<le> 1024\<close>
  bytes (data not \<^verbatim>\<open>NULL\<close>) at an offset \<open>\<le> 3072\<close> issues its first chunk write, of \<open>min 96 sz\<close> bytes at that
  offset, and a GetKcsSetup request with a length other than 0 and a reply buffer within
  the caps reads the mailbox. The caps are those of the NAU83G60 driver; they are not
  applied to the other commands of \<^verbatim>\<open>nau8360_send_dsp_command\<close>.
\<close>

theorem transport_caps:
  "(sz > NAU8360_DSP_KCS_DAT_LEN_MAX \<or> offset > NAU8360_DSP_KCS_OFFSET_MAX \<longrightarrow>
      nau8360_dsp_kcs_setup offset sz data a kcs_setup_comp kcs_rst s = (- EINVAL, s)) \<and>
   (set_len ks > NAU8360_DSP_KCS_DAT_LEN_MAX \<or> set_kcs_offset ks > NAU8360_DSP_KCS_OFFSET_MAX \<longrightarrow>
      nau8360_send_dsp_command NAU8360_DSP_CMD_GET_KCS_SETUP (Some ks) a s =
        (if set_len ks = 0 \<or> get_data ks = None then - EFAULT else - ERANGE, get_data ks, s)) \<and>
   (0 < sz \<and> sz \<le> NAU8360_DSP_KCS_DAT_LEN_MAX \<and> offset \<le> NAU8360_DSP_KCS_OFFSET_MAX \<longrightarrow>
      kcs_setup_calls offset sz (Some d) a kcs_setup_comp kcs_rst s \<noteq> [] \<and>
      call_cmd (hd (kcs_setup_calls offset sz (Some d) a kcs_setup_comp kcs_rst s)) = NAU8360_DSP_CMD_SET_KCS_SETUP \<and>
      call_offset (hd (kcs_setup_calls offset sz (Some d) a kcs_setup_comp kcs_rst s)) = offset \<and>
      call_len (hd (kcs_setup_calls offset sz (Some d) a kcs_setup_comp kcs_rst s)) = min 96 sz) \<and>
   (set_len ks \<noteq> 0 \<and> set_len ks \<le> NAU8360_DSP_KCS_DAT_LEN_MAX \<and>
    set_kcs_offset ks \<le> NAU8360_DSP_KCS_OFFSET_MAX \<and> get_data ks \<noteq> None \<longrightarrow>
      rd_count s <
        rd_count (snd (snd (nau8360_send_dsp_command NAU8360_DSP_CMD_GET_KCS_SETUP (Some ks) a s))))"
proof (intro conjI impI)
  assume "sz > NAU8360_DSP_KCS_DAT_LEN_MAX \<or> offset > NAU8360_DSP_KCS_OFFSET_MAX"
  then show "nau8360_dsp_kcs_setup offset sz data a kcs_setup_comp kcs_rst s = (- EINVAL, s)"
    by (simp add: nau8360_dsp_kcs_setup_def nau8360_dsp_kcs_setup_with_def split: option.splits)
next
  assume h: "set_len ks > NAU8360_DSP_KCS_DAT_LEN_MAX \<or> set_kcs_offset ks > NAU8360_DSP_KCS_OFFSET_MAX"
  show "nau8360_send_dsp_command NAU8360_DSP_CMD_GET_KCS_SETUP (Some ks) a s =
        (if set_len ks = 0 \<or> get_data ks = None then - EFAULT else - ERANGE, get_data ks, s)"
    by (rule get_kcs_setup_rejected [OF h])
next
  assume h: "0 < sz \<and> sz \<le> NAU8360_DSP_KCS_DAT_LEN_MAX \<and> offset \<le> NAU8360_DSP_KCS_OFFSET_MAX"
  let ?cs = "kcs_setup_calls offset sz (Some d) a kcs_setup_comp kcs_rst s"
  have run: "upload_run d 0 offset sz 0 ?cs (fst (nau8360_dsp_kcs_setup offset sz (Some d) a kcs_setup_comp kcs_rst s))"
    using kcs_setup_run [of sz offset d a kcs_setup_comp kcs_rst s] h by simp
  have sz0: "sz \<noteq> 0" using h by simp
  show ne: "?cs \<noteq> []" by (rule upload_run_nonempty [OF run sz0])
  have hd: "hd ?cs = set_call d 0 offset sz (call_ret (hd ?cs))"
    by (rule upload_run_hd [OF run ne])
  have cl: "chunk_len sz = min 96 sz" using chunk_len_min [of sz] by simp
  show "call_cmd (hd ?cs) = NAU8360_DSP_CMD_SET_KCS_SETUP"
    by (subst hd) (simp add: set_call_def)
  show "call_offset (hd ?cs) = offset" by (subst hd) simp
  show "call_len (hd ?cs) = min 96 sz" by (subst hd) (simp add: cl)
next
  assume h: "set_len ks \<noteq> 0 \<and> set_len ks \<le> NAU8360_DSP_KCS_DAT_LEN_MAX \<and>
    set_kcs_offset ks \<le> NAU8360_DSP_KCS_OFFSET_MAX \<and> get_data ks \<noteq> None"
  have pass: "request_passes NAU8360_DSP_CMD_GET_KCS_SETUP ks"
    using get_kcs_setup_passes [of ks] h by blast
  show "rd_count s <
        rd_count (snd (snd (nau8360_send_dsp_command NAU8360_DSP_CMD_GET_KCS_SETUP (Some ks) a s)))"
    by (rule send_param_reads [OF pass get_kcs_setup_flags(2) get_kcs_setup_flags(3)])
qed

theorem transport_caps_witness:
  "nau8360_dsp_kcs_setup 0 1025 (Some count_up) 0xf000 ks_get4 (\<lambda>_. 0) idle_dev = (- EINVAL, idle_dev) \<and>
   nau8360_dsp_kcs_setup 3073 8 (Some count_up) 0xf000 ks_get4 (\<lambda>_. 0) idle_dev = (- EINVAL, idle_dev) \<and>
   nau8360_send_dsp_command NAU8360_DSP_CMD_GET_KCS_SETUP (Some (ks_get4\<lparr>set_len := 1025\<rparr>)) 0xf000
     idle_dev = (- ERANGE, Some (\<lambda>_. 0), idle_dev) \<and>
   nau8360_send_dsp_command NAU8360_DSP_CMD_GET_KCS_SETUP (Some (ks_get4\<lparr>set_kcs_offset := 3073\<rparr>)) 0xf000
     idle_dev = (- ERANGE, Some (\<lambda>_. 0), idle_dev) \<and>
   kcs_setup_calls 3072 1024 (Some count_up) 0xf000 ks_get4 (\<lambda>_. 0) idle_dev \<noteq> [] \<and>
   call_offset (hd (kcs_setup_calls 3072 1024 (Some count_up) 0xf000 ks_get4 (\<lambda>_. 0) idle_dev)) = 3072 \<and>
   call_len (hd (kcs_setup_calls 3072 1024 (Some count_up) 0xf000 ks_get4 (\<lambda>_. 0) idle_dev)) = 96 \<and>
   rd_count idle_dev <
     rd_count (snd (snd (nau8360_send_dsp_command NAU8360_DSP_CMD_GET_KCS_SETUP
       (Some (ks_get4\<lparr>set_len := 1024, set_kcs_offset := 3072\<rparr>)) 0xf000 idle_dev)))"
proof -
  note defs = NAU8360_DSP_KCS_DAT_LEN_MAX_def NAU8360_DSP_KCS_OFFSET_MAX_def ks_get4_def
  have a: "nau8360_dsp_kcs_setup 0 1025 (Some count_up) 0xf000 ks_get4 (\<lambda>_. 0) idle_dev =
      (- EINVAL, idle_dev)"
    using transport_caps [where sz = 1025 and offset = 0 and data = "Some count_up" and a = "0xf000"
        and kcs_setup_comp = ks_get4 and kcs_rst = "\<lambda>_. 0" and s = idle_dev and ks = ks_get4 and d = count_up]
    by (simp add: defs)
  have b: "nau8360_dsp_kcs_setup 3073 8 (Some count_up) 0xf000 ks_get4 (\<lambda>_. 0) idle_dev =
      (- EINVAL, idle_dev)"
    using transport_caps [where sz = 8 and offset = 3073 and data = "Some count_up" and a = "0xf000"
        and kcs_setup_comp = ks_get4 and kcs_rst = "\<lambda>_. 0" and s = idle_dev and ks = ks_get4 and d = count_up]
    by (simp add: defs)
  have c: "nau8360_send_dsp_command NAU8360_DSP_CMD_GET_KCS_SETUP (Some (ks_get4\<lparr>set_len := 1025\<rparr>))
      0xf000 idle_dev = (- ERANGE, Some (\<lambda>_. 0), idle_dev)"
    using transport_caps [where sz = 8 and offset = 0 and data = "Some count_up" and a = "0xf000"
        and kcs_setup_comp = ks_get4 and kcs_rst = "\<lambda>_. 0" and s = idle_dev
        and ks = "ks_get4\<lparr>set_len := 1025\<rparr>" and d = count_up]
    by (simp add: defs)
  have d: "nau8360_send_dsp_command NAU8360_DSP_CMD_GET_KCS_SETUP
      (Some (ks_get4\<lparr>set_kcs_offset := 3073\<rparr>)) 0xf000 idle_dev = (- ERANGE, Some (\<lambda>_. 0), idle_dev)"
    using transport_caps [where sz = 8 and offset = 0 and data = "Some count_up" and a = "0xf000"
        and kcs_setup_comp = ks_get4 and kcs_rst = "\<lambda>_. 0" and s = idle_dev
        and ks = "ks_get4\<lparr>set_kcs_offset := 3073\<rparr>" and d = count_up]
    by (simp add: defs)
  have e: "kcs_setup_calls 3072 1024 (Some count_up) 0xf000 ks_get4 (\<lambda>_. 0) idle_dev \<noteq> [] \<and>
      call_offset (hd (kcs_setup_calls 3072 1024 (Some count_up) 0xf000 ks_get4 (\<lambda>_. 0) idle_dev)) = 3072 \<and>
      call_len (hd (kcs_setup_calls 3072 1024 (Some count_up) 0xf000 ks_get4 (\<lambda>_. 0) idle_dev)) = 96 \<and>
      rd_count idle_dev <
        rd_count (snd (snd (nau8360_send_dsp_command NAU8360_DSP_CMD_GET_KCS_SETUP
          (Some (ks_get4\<lparr>set_len := 1024, set_kcs_offset := 3072\<rparr>)) 0xf000 idle_dev)))"
    using transport_caps [where sz = 1024 and offset = 3072 and data = "Some count_up" and a = "0xf000"
        and kcs_setup_comp = ks_get4 and kcs_rst = "\<lambda>_. 0" and s = idle_dev
        and ks = "ks_get4\<lparr>set_len := 1024, set_kcs_offset := 3072\<rparr>" and d = count_up]
    by (simp add: defs)
  show ?thesis using a b c d e by blast
qed

text \<open>
  The claim as stated has every request of more than 1024 bytes rejected before any
  register access. A SetKcsSetup request of 1025 bytes given to
  \<^verbatim>\<open>nau8360_send_dsp_command\<close> is sent: on a device that is idle and then silent the
  mailbox is read 11 times and written 260 times (preamble, descriptor, 257 payload words,
  trailer), and the return is the timeout of the reply.
\<close>

theorem set_request_over_cap_counterexample:
  "set_len ks_set1025 = 1025 \<and>
   fst (nau8360_send_dsp_command NAU8360_DSP_CMD_SET_KCS_SETUP (Some ks_set1025) 0xf000 idle_dev) =
     - EIO \<and>
   rd_count (snd (snd (nau8360_send_dsp_command NAU8360_DSP_CMD_SET_KCS_SETUP (Some ks_set1025)
     0xf000 idle_dev))) = 11 \<and>
   length (wr_log (snd (snd (nau8360_send_dsp_command NAU8360_DSP_CMD_SET_KCS_SETUP
     (Some ks_set1025) 0xf000 idle_dev)))) = 260"
proof -
  have n: "length (setup_words count_up 1025) = 257"
    using length_setup_words [of 1025 count_up] by simp
  show ?thesis
    unfolding set1025_run
    by (simp add: ks_set1025_def wrote_def idle_dev_def dev_of_def n)
qed


section \<open>A reply with a status\<close>

text \<open>
  C7, as amended. When the reply preamble (the first preamble word among at most ten
  reads) carries a reply id \<open>r\<close> other than 0, the decoder returns \<open>-r\<close> having read
  nothing after the preamble, and so does the exchange. \<open>r\<close> is in 1..63, so the returns
  of different reply ids differ from one another and from the protocol error
  \<open>-EPROTO\<close>. The return is the timeout's \<open>-EIO\<close> exactly when \<open>r\<close> is 5 (message too
  long): the reply ids 1..4, among them 3 (the command does not exist), are returned
  apart from it.
\<close>

theorem reply_status_failure:
  assumes "m < 10" and "reads_ok_no_preamble s m" and "rd_script s (rd_count s + m) = (0, w)"
    and "is_preamble (le_bytes w)" and "preamble_id (le_bytes w) \<noteq> 0"
  shows "nau8360_reply_from_dsp ci sz (Some buf) a s =
           (- preamble_id (le_bytes w), Some buf, s\<lparr>rd_count := rd_count s + m + 1\<rparr>) \<and>
         (request_passes cmd ks \<and> get_data ks = Some buf \<and>
          nau8360_massage_to_dsp (nau8360_dsp_cmd_table cmd)
            (msg_frag_len (nau8360_dsp_cmd_table cmd) (set_len ks)) (set_kcs_offset ks) (set_len ks)
            (case set_kcs_data ks of Some d \<Rightarrow> d | None \<Rightarrow> (\<lambda>_. 0)) a s0 = (0, s) \<longrightarrow>
          nau8360_send_dsp_command cmd (Some ks) a s0 =
            (- preamble_id (le_bytes w), Some buf, s\<lparr>rd_count := rd_count s + m + 1\<rparr>)) \<and>
         1 \<le> preamble_id (le_bytes w) \<and> preamble_id (le_bytes w) \<le> 63 \<and>
         - preamble_id (le_bytes w) \<noteq> - EPROTO \<and>
         (- preamble_id (le_bytes w) = - EIO \<longleftrightarrow>
            preamble_id (le_bytes w) = NAU8360_DSP_REPLY_MSG_TOO_LONG)"
proof -
  let ?r = "preamble_id (le_bytes w)"
  let ?s' = "s\<lparr>rd_count := rd_count s + m + 1\<rparr>"
  have rep: "nau8360_dsp_replied a s = (- ?r, preamble_len (le_bytes w), ?s')"
    using replied_found [OF assms(1-4), of a] assms(5)
    by (simp add: reply_status_def NAU8360_DSP_REPLY_OK_def)
  have neg: "- ?r \<noteq> 0" using assms(5) by simp
  have run: "nau8360_reply_from_dsp ci sz (Some buf) a s = (- ?r, Some buf, ?s')" for ci sz
    by (rule reply_error_early [OF rep neg])
  have rng: "1 \<le> ?r" "?r \<le> 63"
    using preamble_id_range [of "le_bytes w"] assms(5) by simp_all
  have snd: "request_passes cmd ks \<and> get_data ks = Some buf \<and>
          nau8360_massage_to_dsp (nau8360_dsp_cmd_table cmd)
            (msg_frag_len (nau8360_dsp_cmd_table cmd) (set_len ks)) (set_kcs_offset ks) (set_len ks)
            (case set_kcs_data ks of Some d \<Rightarrow> d | None \<Rightarrow> (\<lambda>_. 0)) a s0 = (0, s) \<longrightarrow>
          nau8360_send_dsp_command cmd (Some ks) a s0 = (- ?r, Some buf, ?s')"
    by (auto simp add: send_passes Let_def run)
  show ?thesis
    using run [of ci sz] snd rng
    by (simp add: EPROTO_def EIO_def NAU8360_DSP_REPLY_MSG_TOO_LONG_def)
qed


theorem reply_status_failure_witness:
  "(0::nat) < 10 \<and>
   reads_ok_no_preamble
     (wrote (dev_unknown_cmd\<lparr>rd_count := 1\<rparr>) 0xf000 [preamble_word NAU8360_DSP_CMD_GET_COUNTER 0]) 0 \<and>
   rd_script
     (wrote (dev_unknown_cmd\<lparr>rd_count := 1\<rparr>) 0xf000 [preamble_word NAU8360_DSP_CMD_GET_COUNTER 0])
     (rd_count
       (wrote (dev_unknown_cmd\<lparr>rd_count := 1\<rparr>) 0xf000 [preamble_word NAU8360_DSP_CMD_GET_COUNTER 0])
      + 0) = (0, unknown_cmd_reply) \<and>
   is_preamble (le_bytes unknown_cmd_reply) \<and>
   preamble_id (le_bytes unknown_cmd_reply) \<noteq> 0 \<and>
   request_passes NAU8360_DSP_CMD_GET_COUNTER ks_get4 \<and>
   get_data ks_get4 = Some (\<lambda>_. 0) \<and>
   nau8360_send_dsp_command NAU8360_DSP_CMD_GET_COUNTER (Some ks_get4) 0xf000 dev_unknown_cmd =
     (- NAU8360_DSP_REPLY_COMMAND_DOESNT_EXISTS_ERR, Some (\<lambda>_. 0),
      wrote (dev_unknown_cmd\<lparr>rd_count := 2\<rparr>) 0xf000 [preamble_word NAU8360_DSP_CMD_GET_COUNTER 0])"
proof -
  let ?S = "wrote (dev_unknown_cmd\<lparr>rd_count := 1\<rparr>) 0xf000
              [preamble_word NAU8360_DSP_CMD_GET_COUNTER 0]"
  have idle: "nau8360_dsp_idle 0xf000 dev_unknown_cmd = (0, dev_unknown_cmd\<lparr>rd_count := 1\<rparr>)"
    using idle_now [of dev_unknown_cmd "0xf000"]
    by (simp add: dev_unknown_cmd_def dev_of_def script_def NAU8360_DSP_COMM_IDLE_WORD_def)
  have h1: "(0::nat) < 10" by simp
  have h2: "reads_ok_no_preamble ?S 0" by simp
  have h3: "rd_script ?S (rd_count ?S + 0) = (0, unknown_cmd_reply)"
    by (simp add: wrote_def dev_unknown_cmd_def dev_of_def script_def)
  have h4: "is_preamble (le_bytes unknown_cmd_reply)"
    unfolding unknown_cmd_reply_def by (rule is_preamble_bytes)
  have id3: "preamble_id (le_bytes unknown_cmd_reply) = 3"
    by (simp add: unknown_cmd_reply_def le_bytes_le32 preamble_id_def drop_bit_eq_div)
  then have h5: "preamble_id (le_bytes unknown_cmd_reply) \<noteq> 0" by simp
  have h6: "get_data ks_get4 = Some (\<lambda>_. 0)" by (simp add: ks_get4_def)
  note m = send_no_param_run(1) [OF ks_get4_passes get_counter_no_param idle,
      of "set_kcs_offset ks_get4" "set_len ks_get4"
         "case set_kcs_data ks_get4 of Some d \<Rightarrow> d | None \<Rightarrow> (\<lambda>_. 0)"]
  have e: "?S\<lparr>rd_count := rd_count ?S + 0 + 1\<rparr> =
      wrote (dev_unknown_cmd\<lparr>rd_count := 2\<rparr>) 0xf000 [preamble_word NAU8360_DSP_CMD_GET_COUNTER 0]"
    by (simp add: wrote_def)
  show ?thesis
    using reply_status_failure [OF h1 h2 h3 h4 h5,
        of "nau8360_dsp_cmd_table NAU8360_DSP_CMD_GET_COUNTER" 4 "\<lambda>_. 0" "0xf000"
          NAU8360_DSP_CMD_GET_COUNTER ks_get4 dev_unknown_cmd]
      h2 h3 h4 h5 h6 ks_get4_passes m id3
    unfolding e
    by (simp add: NAU8360_DSP_REPLY_COMMAND_DOESNT_EXISTS_ERR_def)
qed


text \<open>
  The claim as stated has every reply id surfaced apart from a timeout. The reply id 5
  is returned as \<open>-5\<close>, which is \<open>-EIO\<close>, the value that the exchange returns when the
  idle pattern never shows.
\<close>

theorem too_long_is_timeout_counterexample:
  "preamble_id (le_bytes too_long_reply) = NAU8360_DSP_REPLY_MSG_TOO_LONG \<and>
   fst (nau8360_send_dsp_command NAU8360_DSP_CMD_GET_COUNTER (Some ks_get4) 0xf000 dev_too_long)
     = - EIO \<and>
   reads_ok_not_idle (dev_of []) 10 \<and>
   fst (nau8360_send_dsp_command NAU8360_DSP_CMD_GET_COUNTER (Some ks_get4) 0xf000 (dev_of []))
     = - EIO"
proof -
  let ?S = "wrote (dev_too_long\<lparr>rd_count := 1\<rparr>) 0xf000
              [preamble_word NAU8360_DSP_CMD_GET_COUNTER 0]"
  have id5: "preamble_id (le_bytes too_long_reply) = 5"
    by (simp add: too_long_reply_def le_bytes_le32 preamble_id_def drop_bit_eq_div)
  have idle: "nau8360_dsp_idle 0xf000 dev_too_long = (0, dev_too_long\<lparr>rd_count := 1\<rparr>)"
    using idle_now [of dev_too_long "0xf000"]
    by (simp add: dev_too_long_def dev_of_def script_def NAU8360_DSP_COMM_IDLE_WORD_def)
  have h3: "rd_script ?S (rd_count ?S + 0) = (0, too_long_reply)"
    by (simp add: wrote_def dev_too_long_def dev_of_def script_def)
  have h4: "is_preamble (le_bytes too_long_reply)"
    unfolding too_long_reply_def by (rule is_preamble_bytes)
  have rep: "nau8360_dsp_replied 0xf000 ?S =
      (- 5, preamble_len (le_bytes too_long_reply), ?S\<lparr>rd_count := rd_count ?S + 0 + 1\<rparr>)"
    using replied_found [of 0 ?S too_long_reply "0xf000"] h3 h4 id5
    by (simp add: reply_status_def NAU8360_DSP_REPLY_OK_def)
  have r1: "fst (nau8360_send_dsp_command NAU8360_DSP_CMD_GET_COUNTER (Some ks_get4) 0xf000
      dev_too_long) = - 5"
    unfolding send_no_param_run(2) [OF ks_get4_passes get_counter_no_param idle] ks_get4_fields
    using reply_error_early [OF rep] by simp
  have t: "reads_ok_not_idle (dev_of []) 10"
    by (simp add: reads_ok_not_idle_def dev_of_def script_def NAU8360_DSP_COMM_IDLE_WORD_def)
  have i: "nau8360_dsp_idle 0xf000 (dev_of []) =
      (- EIO, (dev_of [])\<lparr>rd_count := rd_count (dev_of []) + 10\<rparr>)"
    using idle_loop_timeout [OF t, of "0xf000"]
    by (simp add: nau8360_dsp_idle_def NAU8360_DSP_IDLE_RETRY_def)
  have r2: "fst (nau8360_send_dsp_command NAU8360_DSP_CMD_GET_COUNTER (Some ks_get4) 0xf000
      (dev_of [])) = - EIO"
    using massage_idle_fail [OF i] by (simp add: send_passes [OF ks_get4_passes] Let_def EIO_def)
  show ?thesis
    using id5 r1 r2 t by (simp add: EIO_def NAU8360_DSP_REPLY_MSG_TOO_LONG_def)
qed

section \<open>The check of the trailer\<close>

text \<open>
  C8, as amended. The decoder has seen the preamble from which it takes the fragment
  count \<open>fl\<close>, not 0 (for a command with reply data the first preamble; a command without
  reply data first waits for a preamble of its own, and when that one declares fragments
  it waits for a second one, which gives \<open>fl\<close>), and the loop over the payload words has
  returned 0 and left \<open>data_count = dc\<close>. It then reads the trailer word and takes the
  fragment count and the padding length from it. The exchange fails with \<open>-EPROTO\<close>
  when the count differs from the preamble's, or when the padding differs from the value
  the code expects: for a command with a parameter
  \<open>4 * (payload fragments declared) - (sz - dc)\<close> in the 32-bit arithmetic of the code,
  else 0; otherwise it returns 0. For a request of \<open>0 \<le> sz < 2^31 - 1\<close> bytes nothing
  wraps, \<open>sz - dc\<close> is the number of bytes copied (or one more, when a payload word came
  after the last byte), and the expected padding is \<open>(fl - 1) * 4 - (sz - dc)\<close>; when
  moreover the preamble declares exactly \<open>ceil(sz/4)\<close> payload fragments, it is
  \<open>4*ceil(sz/4) - sz\<close>. \<open>-EPROTO\<close> differs from the timeout's \<open>-EIO\<close> and from what any
  reply id returns.
\<close>

theorem trailer_check:
  assumes "reply_data ci \<or> (nau8360_dsp_replied a s0 = (0, fl0, s) \<and> fl0 \<noteq> 0)"
    and "nau8360_dsp_replied a s = (0, fl, s1)" and "fl \<noteq> 0"
    and "reply_payload_loop (nat (fl - 1)) ci a (buf, 0, if msg_param ci then sz else 0, s1) =
           (0, buf1, pos, dc, s2)"
    and "rd_script s2 (rd_count s2) = (0, t)"
  shows "nau8360_reply_from_dsp ci sz (Some buf) a (if reply_data ci then s else s0) =
           (if trailer_len (le_bytes t) \<noteq> fl \<or>
               trailer_pad (le_bytes t) \<noteq>
                 (if msg_param ci then s32 ((fl - 1) * 4 - s32 (sz - dc)) else 0)
            then - EPROTO else 0,
            Some buf1, s2\<lparr>rd_count := Suc (rd_count s2)\<rparr>) \<and>
         (msg_param ci \<and> 0 \<le> sz \<and> sz < 2147483647 \<longrightarrow>
            s32 ((fl - 1) * 4 - s32 (sz - dc)) = (fl - 1) * 4 - (sz - dc) \<and>
            - 1 \<le> dc \<and> dc \<le> sz) \<and>
         (msg_param ci \<and> 0 \<le> sz \<and> sz < 2147483647 \<and> fl - 1 = (sz + 3) div 4 \<longrightarrow>
            s32 ((fl - 1) * 4 - s32 (sz - dc)) = 4 * ((sz + 3) div 4) - sz) \<and>
         - EPROTO \<noteq> - EIO \<and> - EPROTO \<noteq> reply_status (preamble_id b)"
proof -
  let ?res = "(if trailer_len (le_bytes t) \<noteq> fl \<or>
               trailer_pad (le_bytes t) \<noteq>
                 (if msg_param ci then s32 ((fl - 1) * 4 - s32 (sz - dc)) else 0)
            then - EPROTO else 0,
            Some buf1, s2\<lparr>rd_count := Suc (rd_count s2)\<rparr>)"
  have d: "reply_from_dsp_data ci sz (Some buf) a s = ?res"
    by (rule reply_data_trailer_check [OF assms(2-5)])
  have run: "nau8360_reply_from_dsp ci sz (Some buf) a (if reply_data ci then s else s0) = ?res"
  proof (cases "reply_data ci")
    case True
    then show ?thesis using d reply_with_data [OF True, of sz "Some buf" a s] by simp
  next
    case False
    then have h: "nau8360_dsp_replied a s0 = (0, fl0, s)" "fl0 \<noteq> 0" using assms(1) by simp_all
    show ?thesis
      using d reply_second_preamble [OF False h, of sz "Some buf"] False by simp
  qed
  have flr: "1 \<le> fl" "fl \<le> 1023"
    using replied_len_range [OF assms(2)] assms(3) by simp_all
  have rng: "- 1 \<le> dc \<and> dc \<le> sz" if h: "msg_param ci \<and> 0 \<le> sz \<and> sz < 2147483647"
  proof -
    have mp: "msg_param ci" and sz0: "0 \<le> sz" and sz1: "sz < 2147483648" using h by simp_all
    show ?thesis
      using payload_loop_count_range [OF mp sz0 sz1, of "nat (fl - 1)" a buf 0 s1 0 buf1 pos dc s2]
        assms(4) mp by simp
  qed
  have plain: "s32 ((fl - 1) * 4 - s32 (sz - dc)) = (fl - 1) * 4 - (sz - dc)"
    if h: "msg_param ci \<and> 0 \<le> sz \<and> sz < 2147483647"
    using expected_padding [OF flr, of sz dc] rng [OF h] h by simp
  have wf: "s32 ((fl - 1) * 4 - s32 (sz - dc)) = 4 * ((sz + 3) div 4) - sz"
    if h: "msg_param ci \<and> 0 \<le> sz \<and> sz < 2147483647 \<and> fl - 1 = (sz + 3) div 4"
  proof -
    have n: "nat (fl - 1) = nat ((sz + 3) div 4)" using h by simp
    have "dc = 0"
      using payload_loop_param_count [of ci sz "nat (fl - 1)" a buf 0 s1 buf1 pos dc s2]
        h n assms(4) by simp
    moreover have "s32 ((fl - 1) * 4 - s32 (sz - dc)) = (fl - 1) * 4 - (sz - dc)"
      using plain h by simp
    ultimately show ?thesis using h by simp
  qed
  show ?thesis
    using run plain rng wf eproto_apart(1) eproto_apart(2) [of b] by simp
qed

theorem trailer_check_witness:
  "reply_data (nau8360_dsp_cmd_table NAU8360_DSP_CMD_GET_KCS_SETUP) \<and>
   nau8360_dsp_replied 0xf000 dev_kcs5 = (0, 3, dev_kcs5\<lparr>rd_count := 1\<rparr>) \<and>
   (3::int) \<noteq> 0 \<and>
   reply_payload_loop (nat (3 - 1)) (nau8360_dsp_cmd_table NAU8360_DSP_CMD_GET_KCS_SETUP) 0xf000
     (\<lambda>_. 0, 0, if msg_param (nau8360_dsp_cmd_table NAU8360_DSP_CMD_GET_KCS_SETUP) then 5 else 0,
      dev_kcs5\<lparr>rd_count := 1\<rparr>) =
     (0, (store32 (\<lambda>_. 0) 0 (le32 [1, 2, 3, 4]))(4 := 5), 4, 0, dev_kcs5\<lparr>rd_count := 3\<rparr>) \<and>
   rd_script (dev_kcs5\<lparr>rd_count := 3\<rparr>) (rd_count (dev_kcs5\<lparr>rd_count := 3\<rparr>)) =
     (0, le32 [0x03, 0x30, 0, 0]) \<and>
   msg_param (nau8360_dsp_cmd_table NAU8360_DSP_CMD_GET_KCS_SETUP) \<and> (0::int) \<le> 5 \<and>
   (3::int) - 1 = (5 + 3) div 4 \<and>
   trailer_len (le_bytes (le32 [0x03, 0x30, 0, 0])) = 3 \<and>
   trailer_pad (le_bytes (le32 [0x03, 0x30, 0, 0])) = 4 * ((5 + 3) div 4) - 5 \<and>
   nau8360_reply_from_dsp (nau8360_dsp_cmd_table NAU8360_DSP_CMD_GET_KCS_SETUP) 5 (Some (\<lambda>_. 0))
     0xf000 dev_kcs5 =
     (0, Some ((store32 (\<lambda>_. 0) 0 (le32 [1, 2, 3, 4]))(4 := 5)), dev_kcs5\<lparr>rd_count := 4\<rparr>)"
proof -
  let ?ci = "nau8360_dsp_cmd_table NAU8360_DSP_CMD_GET_KCS_SETUP"
  note fl = get_kcs_setup_flags
  have rd: "rd_script (dev_kcs5\<lparr>rd_count := k\<rparr>) = script [(0, le32 [0xa1, 0xb2, 0x03, 0x00]),
      (0, le32 [1, 2, 3, 4]), (0, le32 [5, 6, 7, 8]), (0, le32 [0x03, 0x30, 0, 0])]" for k
    by (simp add: dev_kcs5_def dev_of_def)
  have h2: "nau8360_dsp_replied 0xf000 dev_kcs5 = (0, 3, dev_kcs5\<lparr>rd_count := 1\<rparr>)"
    using replied_first [of dev_kcs5 "0x03" "0x00" "0xf000"]
    by (simp add: dev_kcs5_def dev_of_def script_def preamble_len_def drop_bit_eq_div)
  have h4: "reply_payload_loop (nat (3 - 1)) ?ci 0xf000
     (\<lambda>_. 0, 0, if msg_param ?ci then 5 else 0, dev_kcs5\<lparr>rd_count := 1\<rparr>) =
     (0, (store32 (\<lambda>_. 0) 0 (le32 [1, 2, 3, 4]))(4 := 5), 4, 0, dev_kcs5\<lparr>rd_count := 3\<rparr>)"
  proof -
    have n: "nat (3 - 1) = Suc (Suc 0)" by simp
    have r1: "rd_script (dev_kcs5\<lparr>rd_count := 1\<rparr>) (rd_count (dev_kcs5\<lparr>rd_count := 1\<rparr>)) =
        (0, le32 [1, 2, 3, 4])"
      by (simp add: rd script_def)
    have r2: "rd_script (dev_kcs5\<lparr>rd_count := Suc 1\<rparr>) (rd_count (dev_kcs5\<lparr>rd_count := Suc 1\<rparr>)) =
        (0, le32 [5, 6, 7, 8])"
      by (simp add: rd script_def)
    have c: "reply_copy_loop 0 [5, 6, 7, 8] (store32 (\<lambda>_. 0) 0 (le32 [1, 2, 3, 4])) 4 1 =
        ((store32 (\<lambda>_. 0) 0 (le32 [1, 2, 3, 4]))(4 := 5), 0)"
      by (simp add: copy_loop_step [of _ 0])
    show ?thesis
      unfolding n
      using payload_loop_step_word [OF fl(2) r1, of 5 "Suc 0" "0xf000" "\<lambda>_. 0" 0]
        payload_loop_step_bytes [OF fl(2) r2, of 1 0 "0xf000" "store32 (\<lambda>_. 0) 0 (le32 [1, 2, 3, 4])" 4]
      by (simp add: fl le_bytes_le32 c del: reply_payload_loop.simps)
  qed
  have h5: "rd_script (dev_kcs5\<lparr>rd_count := 3\<rparr>) (rd_count (dev_kcs5\<lparr>rd_count := 3\<rparr>)) =
     (0, le32 [0x03, 0x30, 0, 0])"
    by (simp add: rd script_def)
  have tl: "trailer_len (le_bytes (le32 [0x03, 0x30, 0, 0])) = 3"
    by (simp add: le_bytes_le32 trailer_len_def)
  have tp: "trailer_pad (le_bytes (le32 [0x03, 0x30, 0, 0])) = 3"
    by (simp add: le_bytes_le32 trailer_pad_def drop_bit_eq_div)
  have e: "(dev_kcs5\<lparr>rd_count := 3\<rparr>)\<lparr>rd_count := Suc (rd_count (dev_kcs5\<lparr>rd_count := 3\<rparr>))\<rparr> =
      dev_kcs5\<lparr>rd_count := 4\<rparr>"
    by simp
  have h3: "(3::int) \<noteq> 0" by simp
  show ?thesis
    using trailer_check [OF disjI1 [OF fl(4)] h2 h3 h4 h5, where b = "le_bytes 0"] h2 h4 h5 fl tl tp
    unfolding e by simp
qed


text \<open>
  The claim as stated has the padding checked against \<open>4*ceil(requested/4) - requested\<close>.
  For 5 bytes requested that is 3; a reply of one payload word whose trailer has the
  padding 0 is accepted (4 bytes were copied, and \<open>1 * 4 - 4 = 0\<close>).
\<close>

theorem short_reply_padding_counterexample:
  "nau8360_reply_from_dsp (nau8360_dsp_cmd_table NAU8360_DSP_CMD_GET_KCS_SETUP) 5 (Some (\<lambda>_. 0))
     0xf000 dev_kcs5_short =
     (0, Some (store32 (\<lambda>_. 0) 0 (le32 [1, 2, 3, 4])), dev_kcs5_short\<lparr>rd_count := 3\<rparr>) \<and>
   trailer_pad (le_bytes (le32 [0x02, 0x00, 0, 0])) = 0 \<and>
   4 * ((5 + 3) div 4) - 5 = (3::int)"
proof -
  let ?ci = "nau8360_dsp_cmd_table NAU8360_DSP_CMD_GET_KCS_SETUP"
  note fl = get_kcs_setup_flags
  have rd: "rd_script (dev_kcs5_short\<lparr>rd_count := k\<rparr>) = script [(0, le32 [0xa1, 0xb2, 0x02, 0x00]),
      (0, le32 [1, 2, 3, 4]), (0, le32 [0x02, 0x00, 0, 0])]" for k
    by (simp add: dev_kcs5_short_def dev_of_def)
  have h2: "nau8360_dsp_replied 0xf000 dev_kcs5_short = (0, 2, dev_kcs5_short\<lparr>rd_count := 1\<rparr>)"
    using replied_first [of dev_kcs5_short "0x02" "0x00" "0xf000"]
    by (simp add: dev_kcs5_short_def dev_of_def script_def preamble_len_def drop_bit_eq_div)
  have r1: "rd_script (dev_kcs5_short\<lparr>rd_count := 1\<rparr>) (rd_count (dev_kcs5_short\<lparr>rd_count := 1\<rparr>)) =
      (0, le32 [1, 2, 3, 4])"
    by (simp add: rd script_def)
  have h4: "reply_payload_loop (nat (2 - 1)) ?ci 0xf000
     (\<lambda>_. 0, 0, if msg_param ?ci then 5 else 0, dev_kcs5_short\<lparr>rd_count := 1\<rparr>) =
     (0, store32 (\<lambda>_. 0) 0 (le32 [1, 2, 3, 4]), 4, 1, dev_kcs5_short\<lparr>rd_count := 2\<rparr>)"
  proof -
    have n: "nat (2 - 1) = Suc 0" by simp
    show ?thesis
      unfolding n
      using payload_loop_step_word [OF fl(2) r1, of 5 0 "0xf000" "\<lambda>_. 0" 0]
      by (simp add: fl)
  qed
  have h5: "rd_script (dev_kcs5_short\<lparr>rd_count := 2\<rparr>) (rd_count (dev_kcs5_short\<lparr>rd_count := 2\<rparr>)) =
     (0, le32 [0x02, 0x00, 0, 0])"
    by (simp add: rd script_def)
  have tl: "trailer_len (le_bytes (le32 [0x02, 0x00, 0, 0])) = 2"
    by (simp add: le_bytes_le32 trailer_len_def)
  have tp: "trailer_pad (le_bytes (le32 [0x02, 0x00, 0, 0])) = 0"
    by (simp add: le_bytes_le32 trailer_pad_def)
  have h3: "(2::int) \<noteq> 0" by simp
  show ?thesis
    using reply_trailer_check [OF fl(4) h2 h3 h4 h5] tl tp by (simp add: s32_id)
qed

section \<open>The idle wait and its timeout\<close>

text \<open>
  C9. The idle wait reads the mailbox at most 10 times. It succeeds as soon as a read
  returns \<open>0xF4F3F2F1\<close>: when the reads before the \<open>m\<close>-th (\<open>m < 10\<close>) succeed with
  other words and the \<open>m\<close>-th returns the idle word, it returns 0 after \<open>m + 1\<close>
  reads. When ten reads succeed and none returns the idle word it fails with the
  timeout code \<open>-EIO\<close>, and then \<^verbatim>\<open>nau8360_send_dsp_command\<close>, for a request that
  passes its checks, returns \<open>-EIO\<close> with the write log unchanged: no preamble word
  is written.
\<close>

theorem idle_wait:
  "rd_count (snd (nau8360_dsp_idle a s)) \<le> rd_count s + 10 \<and>
   (m < 10 \<and> reads_ok_not_idle s m \<and>
       rd_script s (rd_count s + m) = (0, NAU8360_DSP_COMM_IDLE_WORD) \<longrightarrow>
       nau8360_dsp_idle a s = (0, s\<lparr>rd_count := rd_count s + m + 1\<rparr>)) \<and>
   (reads_ok_not_idle s 10 \<longrightarrow>
       nau8360_dsp_idle a s = (- EIO, s\<lparr>rd_count := rd_count s + 10\<rparr>) \<and>
       (request_passes cmd ks \<longrightarrow>
          nau8360_send_dsp_command cmd (Some ks) a s =
            (- EIO, get_data ks, s\<lparr>rd_count := rd_count s + 10\<rparr>)))"
proof (intro conjI impI)
  show "rd_count (snd (nau8360_dsp_idle a s)) \<le> rd_count s + 10"
    unfolding nau8360_dsp_idle_def NAU8360_DSP_IDLE_RETRY_def by (rule idle_loop_reads_le)
next
  assume "m < 10 \<and> reads_ok_not_idle s m \<and>
       rd_script s (rd_count s + m) = (0, NAU8360_DSP_COMM_IDLE_WORD)"
  then show "nau8360_dsp_idle a s = (0, s\<lparr>rd_count := rd_count s + m + 1\<rparr>)"
    unfolding nau8360_dsp_idle_def NAU8360_DSP_IDLE_RETRY_def
    using idle_loop_found [of s m 10 a] by simp
next
  assume h: "reads_ok_not_idle s 10"
  then show t: "nau8360_dsp_idle a s = (- EIO, s\<lparr>rd_count := rd_count s + 10\<rparr>)"
    unfolding nau8360_dsp_idle_def NAU8360_DSP_IDLE_RETRY_def by (rule idle_loop_timeout)
  assume "request_passes cmd ks"
  then show "nau8360_send_dsp_command cmd (Some ks) a s =
            (- EIO, get_data ks, s\<lparr>rd_count := rd_count s + 10\<rparr>)"
    using massage_idle_fail [OF t] by (simp add: send_passes Let_def EIO_def)
qed


theorem idle_wait_witness:
  "reads_ok_not_idle (dev_of []) 10 \<and>
   request_passes NAU8360_DSP_CMD_GET_COUNTER ks_get4 \<and>
   nau8360_send_dsp_command NAU8360_DSP_CMD_GET_COUNTER (Some ks_get4) 0xf000 (dev_of []) =
     (- EIO, get_data ks_get4, (dev_of [])\<lparr>rd_count := 10\<rparr>) \<and>
   wr_log ((dev_of [])\<lparr>rd_count := 10\<rparr>) = [] \<and>
   (2::nat) < 10 \<and>
   reads_ok_not_idle dev3 2 \<and>
   rd_script dev3 (rd_count dev3 + 2) = (0, NAU8360_DSP_COMM_IDLE_WORD) \<and>
   nau8360_dsp_idle 0xf000 dev3 = (0, dev3\<lparr>rd_count := 3\<rparr>)"
proof -
  have h1: "reads_ok_not_idle (dev_of []) 10"
    by (simp add: reads_ok_not_idle_def dev_of_def script_def NAU8360_DSP_COMM_IDLE_WORD_def)
  have h2: "request_passes NAU8360_DSP_CMD_GET_COUNTER ks_get4"
    by (simp add: request_passes_def nau8360_dsp_commands_def nau8360_dsp_cmd_table_def mk_cmd_def
        ks_get4_def NAU8360_DSP_CMD_GET_COUNTER_def NAU8360_DSP_CMD_GET_KCS_SETUP_def)
  have h3: "reads_ok_not_idle dev3 2"
    unfolding reads_ok_not_idle_def
  proof (intro allI impI)
    fix k :: nat
    assume "k < 2"
    then consider "k = 0" | "k = 1" by linarith
    then show "fst (rd_script dev3 (rd_count dev3 + k)) = 0 \<and>
               snd (rd_script dev3 (rd_count dev3 + k)) \<noteq> NAU8360_DSP_COMM_IDLE_WORD"
      by cases (simp_all add: dev3_def dev_of_def script_def NAU8360_DSP_COMM_IDLE_WORD_def)
  qed
  have h4: "rd_script dev3 (rd_count dev3 + 2) = (0, NAU8360_DSP_COMM_IDLE_WORD)"
    by (simp add: dev3_def dev_of_def script_def NAU8360_DSP_COMM_IDLE_WORD_def)
  have c1: "nau8360_send_dsp_command NAU8360_DSP_CMD_GET_COUNTER (Some ks_get4) 0xf000 (dev_of []) =
     (- EIO, get_data ks_get4, (dev_of [])\<lparr>rd_count := rd_count (dev_of []) + 10\<rparr>)"
    using idle_wait [of "0xf000" "dev_of []" 0 NAU8360_DSP_CMD_GET_COUNTER ks_get4] h1 h2
    by blast
  have c2: "nau8360_dsp_idle 0xf000 dev3 = (0, dev3\<lparr>rd_count := rd_count dev3 + 2 + 1\<rparr>)"
    using idle_wait [of "0xf000" dev3 2] h3 h4 by simp
  have r: "rd_count dev3 + 2 + 1 = 3" "rd_count (dev_of []) + 10 = 10"
    by (simp_all add: dev3_def dev_of_def)
  show ?thesis
    using h1 h2 h3 h4 c1 c2 unfolding r by (simp add: dev_of_def)
qed

section \<open>The reply to a command without parameter\<close>

text \<open>
  C10. For a command without parameter the decoder stores every payload word at the
  same place, the first 32-bit slot of the caller's buffer: the loop over the payload
  words never moves its output position, and whatever the device answers, the bytes of
  the buffer from index 4 on are unchanged. When the reply declares \<open>N > 0\<close> payload
  fragments and they are read, the buffer ends as the initial one with the last payload
  word stored at offset 0: of several words only the last is kept.
\<close>

theorem fixed_reply_first_slot:
  assumes "\<not> msg_param ci"
  shows "(nau8360_reply_from_dsp ci sz (Some buf) a s = (r, data', s') \<longrightarrow>
            (\<exists>buf'. data' = Some buf' \<and> (\<forall>i\<ge>4. buf' i = buf i))) \<and>
         (reply_payload_loop n ci a (buf, pos, dc, s1) = (r2, buf2, pos2, dc2, s2) \<longrightarrow>
            pos2 = pos \<and> (\<forall>i. i < pos \<or> pos + 4 \<le> i \<longrightarrow> buf2 i = buf i)) \<and>
         (reply_data ci \<and> nau8360_dsp_replied a s = (0, int N + 1, s1) \<and> 0 < N \<and> reads_ok s1 N \<longrightarrow>
            fst (snd (nau8360_reply_from_dsp ci sz (Some buf) a s)) =
              Some (store32 buf 0 (snd (rd_script s1 (rd_count s1 + N - 1)))))"
  using reply_fixed_frame [OF assms, of sz buf a s r data' s']
    payload_loop_fixed_frame [OF assms, of n a buf pos dc s1 r2 buf2 pos2 dc2 s2]
    reply_fixed_last_word [OF assms, of a s N s1 sz buf]
  by blast


theorem fixed_reply_first_slot_witness:
  "\<not> msg_param (nau8360_dsp_cmd_table NAU8360_DSP_CMD_GET_COUNTER) \<and>
   reply_data (nau8360_dsp_cmd_table NAU8360_DSP_CMD_GET_COUNTER) \<and>
   nau8360_dsp_replied 0xf000 dev_counter2 = (0, int 2 + 1, dev_counter2\<lparr>rd_count := 1\<rparr>) \<and>
   (0::nat) < 2 \<and>
   reads_ok (dev_counter2\<lparr>rd_count := 1\<rparr>) 2 \<and>
   snd (rd_script (dev_counter2\<lparr>rd_count := 1\<rparr>) (rd_count (dev_counter2\<lparr>rd_count := 1\<rparr>) + 2 - 1)) =
     le32 [5, 6, 7, 8] \<and>
   fst (snd (nau8360_reply_from_dsp (nau8360_dsp_cmd_table NAU8360_DSP_CMD_GET_COUNTER) 4
     (Some (\<lambda>_. 0xee)) 0xf000 dev_counter2)) = Some (store32 (\<lambda>_. 0xee) 0 (le32 [5, 6, 7, 8])) \<and>
   map (store32 (\<lambda>_. 0xee) 0 (le32 [5, 6, 7, 8])) [0, 1, 2, 3, 4, 5] = [5, 6, 7, 8, 0xee, 0xee]"
proof -
  let ?ci = "nau8360_dsp_cmd_table NAU8360_DSP_CMD_GET_COUNTER"
  note fl = get_counter_flags
  have h2: "nau8360_dsp_replied 0xf000 dev_counter2 = (0, int 2 + 1, dev_counter2\<lparr>rd_count := 1\<rparr>)"
    using replied_first [of dev_counter2 "0x03" "0x00" "0xf000"]
    by (simp add: dev_counter2_def dev_of_def script_def preamble_len_def drop_bit_eq_div)
  have h3: "(0::nat) < 2" by simp
  have h4: "reads_ok (dev_counter2\<lparr>rd_count := 1\<rparr>) 2"
    by (rule reads_ok_script [where xs = "[(0, le32 [0xa1, 0xb2, 0x03, 0x00]), (0, le32 [1, 2, 3, 4]),
                          (0, le32 [5, 6, 7, 8]), (0, le32 [0x03, 0x00, 0, 0])]"])
      (simp_all add: dev_counter2_def dev_of_def)
  have w: "snd (rd_script (dev_counter2\<lparr>rd_count := 1\<rparr>)
      (rd_count (dev_counter2\<lparr>rd_count := 1\<rparr>) + 2 - 1)) = le32 [5, 6, 7, 8]"
    by (simp add: dev_counter2_def dev_of_def script_def)
  have m: "map (store32 (\<lambda>_. 0xee) 0 (le32 [5, 6, 7, 8])) [0, 1, 2, 3, 4, 5] =
      [5, 6, 7, 8, 0xee, 0xee]"
    by (simp add: store32_def le_bytes_le32)
  have c: "fst (snd (nau8360_reply_from_dsp ?ci 4 (Some (\<lambda>_. 0xee)) 0xf000 dev_counter2)) =
      Some (store32 (\<lambda>_. 0xee) 0 (snd (rd_script (dev_counter2\<lparr>rd_count := 1\<rparr>)
        (rd_count (dev_counter2\<lparr>rd_count := 1\<rparr>) + 2 - 1))))"
    using fixed_reply_first_slot [OF fl(2), of 4 "\<lambda>_. 0xee" "0xf000" dev_counter2 _ _ _ _ _ _
        "dev_counter2\<lparr>rd_count := 1\<rparr>" _ _ _ _ _ 2] fl(4) h2 h3 h4
    by blast
  show ?thesis
    using fl(2,4) h2 h3 h4 w m c by simp
qed

end
